(* ===== verification/Prelude.thy ===== *)
theory Prelude
  imports Complex_Main "HOL-Library.Word"
begin

text \<open>
  What every component of the adapter shares: the fact collections, the outcome of a Go
  call that may return an error or panic, and the generic facts about lists, options and
  maps.

  A Go function \<open>f(x) (T, error)\<close> becomes a HOL function into \<open>('e, 'a) outcome\<close>:
  \<open>Ok v\<close> is a return with a nil error, \<open>Err e\<close> a return with the error \<open>e\<close>, and
  \<open>Panic r\<close> a run-time panic (nil dereference, slice bounds, a standard-library
  precondition). Functions with the comma-ok idiom \<open>(T, bool)\<close> become \<open>'a option\<close>.
\<close>

named_theorems go_simps \<open>characteristic equations of the Go string operations\<close>
named_theorems jid_simps \<open>facts about JIDs and phone numbers\<close>
named_theorems world_simps \<open>effects of the primitive calls on the process state\<close>

section \<open>Outcomes of Go calls\<close>

datatype (outcome_err: 'e, outcome_val: 'a) outcome =
    Ok 'a
  | Err 'e
  | Panic string

fun obind :: "('e, 'a) outcome \<Rightarrow> ('a \<Rightarrow> ('e, 'b) outcome) \<Rightarrow> ('e, 'b) outcome" where
  "obind (Ok v) f = f v"
| "obind (Err e) f = Err e"
| "obind (Panic r) f = Panic r"

lemma obind_eq_Ok [simp]: "obind m f = Ok v \<longleftrightarrow> (\<exists>u. m = Ok u \<and> f u = Ok v)"
  by (cases m) auto

fun is_panic :: "('e, 'a) outcome \<Rightarrow> bool" where
  "is_panic (Panic r) = True"
| "is_panic _ = False"

lemma is_panic_obind:
  "is_panic (obind m f) \<longleftrightarrow> is_panic m \<or> (\<exists>v. m = Ok v \<and> is_panic (f v))"
  by (cases m) auto

section \<open>Lists, options and maps\<close>

lemma filter_id: "(\<And>x. x \<in> set xs \<Longrightarrow> P x) \<Longrightarrow> filter P xs = xs"
  by (induction xs) auto

lemma takeWhile_not_mem: "x \<notin> set xs \<Longrightarrow> takeWhile (\<lambda>c. c \<noteq> x) (xs @ x # ys) = xs"
  by (induction xs) auto

lemma dropWhile_not_mem: "x \<notin> set xs \<Longrightarrow> dropWhile (\<lambda>c. c \<noteq> x) (xs @ x # ys) = x # ys"
  by (induction xs) auto

lemma map_upd_same_dom: "k \<in> dom m \<Longrightarrow> dom (m(k \<mapsto> v)) = dom m"
  by auto

lemma list_all_concat_map: "list_all P (concat (map f xs)) \<longleftrightarrow> list_all (\<lambda>x. list_all P (f x)) xs"
  by (induction xs) auto

lemma case_option_some_iff:
  "(case x of None \<Rightarrow> None | Some y \<Rightarrow> f y) = Some z \<longleftrightarrow> (\<exists>y. x = Some y \<and> f y = Some z)"
  by (cases x) auto

text \<open>The first element of a list whose image under a partial function is defined.\<close>

fun first_some :: "('a \<Rightarrow> 'b option) \<Rightarrow> 'a list \<Rightarrow> 'b option" where
  "first_some f [] = None"
| "first_some f (x # xs) = (case f x of None \<Rightarrow> first_some f xs | Some y \<Rightarrow> Some y)"

lemma first_some_eq_None: "first_some f xs = None \<longleftrightarrow> (\<forall>x \<in> set xs. f x = None)"
  by (induction xs) (auto split: option.splits)

lemma first_some_eq_Some:
  "first_some f xs = Some y \<Longrightarrow> \<exists>x \<in> set xs. f x = Some y"
  by (induction xs) (auto split: option.splits)

end
