(* ===== verification/Go_Strings.thy ===== *)
theory Go_Strings
  imports Prelude "HOL-Library.Sublist"
begin

text \<open>
  The operations of Go's standard library on strings that the adapter uses. A Go string is
  a byte sequence, so it is a \<open>string\<close> here (a list of 8-bit characters) and \<open>length\<close> is
  Go's \<open>len\<close>.

  White space is Unicode white space in its UTF-8 encoding, as \<open>strings.TrimSpace\<close> has it.
  \<open>to_lower\<close> is exact on ASCII, on every rune whose lower case has another encoded length
  and on invalid bytes (replaced by U+FFFD); the other runes above U+007F, whose lower case
  is a sequence of as many bytes above 0x7F, keep their bytes. Every use the adapter makes of
  the lower-cased text is a comparison with, or the position of, an ASCII literal, where this
  cannot be told from Go's table. \<open>to_upper\<close> is used for prefix and containment tests of the
  literals N:, FN: and TEL only, whose letters are the upper case of ASCII letters only.
\<close>

section \<open>Prefixes, suffixes and positions\<close>

definition has_prefix :: "string \<Rightarrow> string \<Rightarrow> bool" where
  "has_prefix s p = (take (length p) s = p)"

definition has_suffix :: "string \<Rightarrow> string \<Rightarrow> bool" where
  "has_suffix s p = (length p \<le> length s \<and> drop (length s - length p) s = p)"

fun index_of :: "string \<Rightarrow> string \<Rightarrow> nat option" where
  "index_of [] sub = (if sub = [] then Some 0 else None)"
| "index_of (c # s) sub =
     (if has_prefix (c # s) sub then Some 0 else map_option Suc (index_of s sub))"

definition contains :: "string \<Rightarrow> string \<Rightarrow> bool" where
  "contains s sub = (index_of s sub \<noteq> None)"

fun index_any :: "string \<Rightarrow> string \<Rightarrow> nat option" where
  "index_any [] cs = None"
| "index_any (c # s) cs = (if c \<in> set cs then Some 0 else map_option Suc (index_any s cs))"

definition last_index_byte :: "string \<Rightarrow> char \<Rightarrow> nat option" where
  "last_index_byte s c =
     (case index_any (rev s) [c] of None \<Rightarrow> None | Some i \<Rightarrow> Some (length s - 1 - i))"

text \<open>\<open>s[i:]\<close>, which panics when \<open>i\<close> lies beyond the end.\<close>

definition slice_from :: "string \<Rightarrow> nat \<Rightarrow> string option" where
  "slice_from s i = (if i \<le> length s then Some (drop i s) else None)"

lemma has_prefix_iff: "has_prefix s p \<longleftrightarrow> (\<exists>r. s = p @ r)"
  unfolding has_prefix_def by (metis append_eq_conv_conj append_take_drop_id)

lemma has_suffix_iff: "has_suffix s p \<longleftrightarrow> (\<exists>r. s = r @ p)"
proof
  assume "has_suffix s p"
  then have "s = take (length s - length p) s @ p"
    unfolding has_suffix_def by (metis append_take_drop_id)
  then show "\<exists>r. s = r @ p" by blast
qed (auto simp: has_suffix_def)

lemma has_prefix_append [simp]: "has_prefix (p @ r) p"
  by (simp add: has_prefix_def)

lemma has_suffix_append [simp]: "has_suffix (r @ p) p"
  by (simp add: has_suffix_def)

lemma index_of_Some:
  "index_of s sub = Some i \<Longrightarrow> i \<le> length s \<and> (\<exists>r. s = take i s @ sub @ r)"
proof (induction s arbitrary: i)
  case Nil
  then show ?case by (auto split: if_splits)
next
  case (Cons c s)
  show ?case
  proof (cases "has_prefix (c # s) sub")
    case True
    with Cons.prems show ?thesis by (auto simp: has_prefix_iff)
  next
    case False
    with Cons.prems obtain j where j: "index_of s sub = Some j" "i = Suc j" by auto
    from Cons.IH [OF j(1)] j(2) show ?thesis by auto
  qed
qed

lemma index_of_append: "index_of (a @ sub @ b) sub \<noteq> None"
proof (induction a)
  case Nil
  have "has_prefix (sub @ b) sub" by simp
  then show ?case by (cases "sub @ b") auto
next
  case (Cons c a)
  then show ?case by auto
qed

lemma contains_iff: "contains s sub \<longleftrightarrow> (\<exists>a b. s = a @ sub @ b)"
proof
  assume "contains s sub"
  then obtain i where "index_of s sub = Some i" by (auto simp: contains_def)
  from index_of_Some [OF this] show "\<exists>a b. s = a @ sub @ b" by blast
next
  assume "\<exists>a b. s = a @ sub @ b"
  then show "contains s sub" using index_of_append [of _ sub] by (auto simp: contains_def)
qed

lemma contains_byte [go_simps]: "contains s [c] \<longleftrightarrow> c \<in> set s"
  by (auto simp: contains_iff in_set_conv_decomp)

lemma index_any_None: "index_any s cs = None \<longleftrightarrow> set s \<inter> set cs = {}"
  by (induction s) auto

lemma index_any_Some:
  "index_any s cs = Some i \<Longrightarrow>
    i < length s \<and> s ! i \<in> set cs \<and> set (take i s) \<inter> set cs = {}"
  by (induction s arbitrary: i) (auto split: if_splits)

lemma index_any_take:
  "index_any s cs = Some i \<Longrightarrow> take i s = takeWhile (\<lambda>c. c \<notin> set cs) s"
  by (induction s arbitrary: i) (auto split: if_splits)

lemma index_any_append [go_simps]:
  "set a \<inter> set cs = {} \<Longrightarrow> c \<in> set cs \<Longrightarrow> index_any (a @ c # b) cs = Some (length a)"
  by (induction a) auto

lemma last_index_byte_append [go_simps]:
  "c \<notin> set b \<Longrightarrow> last_index_byte (a @ c # b) c = Some (length a)"
  using index_any_append [of "rev b" "[c]" c "rev a"] by (simp add: last_index_byte_def)

section \<open>Splitting, joining, replacing\<close>

fun split_on :: "char \<Rightarrow> string \<Rightarrow> string list" where
  "split_on c [] = [[]]"
| "split_on c (x # xs) =
     (if x = c then [] # split_on c xs
      else (case split_on c xs of [] \<Rightarrow> [[x]] | y # ys \<Rightarrow> (x # y) # ys))"

fun join :: "string \<Rightarrow> string list \<Rightarrow> string" where
  "join sep [] = []"
| "join sep [x] = x"
| "join sep (x # y # ys) = x @ sep @ join sep (y # ys)"

definition remove_byte :: "char \<Rightarrow> string \<Rightarrow> string" where
  \<comment> \<open>\<open>strings.ReplaceAll(s, c, "")\<close> for a one-byte \<open>c\<close>\<close>
  "remove_byte c s = filter (\<lambda>x. x \<noteq> c) s"

fun replace_backslash_n :: "string \<Rightarrow> string" where
  \<comment> \<open>\<open>strings.ReplaceAll(s, "\\n", "\n")\<close>: the two bytes backslash and n become a newline\<close>
  "replace_backslash_n [] = []"
| "replace_backslash_n [c] = [c]"
| "replace_backslash_n (c # d # s) =
     (if c = CHR 0x5C \<and> d = CHR ''n'' then CHR 0x0A # replace_backslash_n s
      else c # replace_backslash_n (d # s))"

definition trim_right_byte :: "char \<Rightarrow> string \<Rightarrow> string" where
  \<comment> \<open>\<open>strings.TrimRight(s, c)\<close> for a one-byte cutset\<close>
  "trim_right_byte c s = rev (dropWhile (\<lambda>x. x = c) (rev s))"

definition trim_suffix :: "string \<Rightarrow> string \<Rightarrow> string" where
  "trim_suffix s p = (if has_suffix s p then take (length s - length p) s else s)"

definition trim_prefix :: "string \<Rightarrow> string \<Rightarrow> string" where
  "trim_prefix s p = (if has_prefix s p then drop (length p) s else s)"

lemma split_on_not_Nil [simp]: "split_on c s \<noteq> []"
  by (induction s) (auto split: list.splits)

lemma split_on_not_mem [go_simps]: "c \<notin> set s \<Longrightarrow> split_on c s = [s]"
  by (induction s) auto

lemma split_on_append [go_simps]:
  "c \<notin> set a \<Longrightarrow> split_on c (a @ c # b) = a # split_on c b"
  by (induction a) auto

lemma join_Cons [go_simps]: "ys \<noteq> [] \<Longrightarrow> join sep (x # ys) = x @ sep @ join sep ys"
  by (cases ys) auto

lemma split_on_join:
  "xs \<noteq> [] \<Longrightarrow> (\<And>x. x \<in> set xs \<Longrightarrow> c \<notin> set x) \<Longrightarrow> split_on c (join [c] xs) = xs"
proof (induction xs)
  case Nil
  then show ?case by simp
next
  case (Cons x xs)
  show ?case
  proof (cases "xs = []")
    case True
    with Cons.prems show ?thesis by (simp add: split_on_not_mem)
  next
    case False
    with Cons show ?thesis by (simp add: join_Cons split_on_append)
  qed
qed

lemma join_Cons_Cons [go_simps]: "join sep ((x # y) # ys) = x # join sep (y # ys)"
  by (cases ys) auto

lemma join_split_on: "join [c] (split_on c s) = s"
proof (induction s)
  case Nil
  then show ?case by simp
next
  case (Cons x s)
  then show ?case
    by (cases "split_on c s") (auto simp: go_simps simp del: join.simps(3))
qed

lemma split_on_append_full: "split_on c (a @ c # b) = split_on c a @ split_on c b"
  by (induction a) (auto split: list.splits)

lemma split_on_pieces: "x \<in> set (split_on c s) \<Longrightarrow> c \<notin> set x"
  by (induction s arbitrary: x) (auto split: if_splits list.splits)

lemma last_split_on_append: "c \<notin> set b \<Longrightarrow> last (split_on c (a @ c # b)) = b"
  by (simp add: split_on_append_full go_simps)

lemma remove_byte_not_mem [go_simps]: "c \<notin> set s \<Longrightarrow> remove_byte c s = s"
  unfolding remove_byte_def by (rule filter_id) auto

lemma not_mem_remove_byte [simp]: "c \<notin> set (remove_byte c s)"
  by (simp add: remove_byte_def)

end
