(* ===== verification/Go_Text.thy ===== *)
theory Go_Text
  imports Go_Strings
begin

text \<open>
  White space, letter case, digits and numerals: \<open>strings.TrimSpace\<close>, \<open>strings.ToLower\<close>,
  \<open>strings.ToUpper\<close>, \<open>strconv\<close>'s decimal conversions, and the adapter's own \<open>digitsOnly\<close>
  (which occurs twice in the sources, once in the provider and once in the status writer).
\<close>

section \<open>White space\<close>

definition ascii_spaces :: string where
  "ascii_spaces = [CHR 0x09, CHR 0x0A, CHR 0x0B, CHR 0x0C, CHR 0x0D, CHR 0x20]"

definition wide_spaces :: "string list" where
  "wide_spaces =
     [[CHR 0xC2, CHR 0x85], [CHR 0xC2, CHR 0xA0], [CHR 0xE1, CHR 0x9A, CHR 0x80],
      [CHR 0xE2, CHR 0x80, CHR 0x80], [CHR 0xE2, CHR 0x80, CHR 0x81],
      [CHR 0xE2, CHR 0x80, CHR 0x82], [CHR 0xE2, CHR 0x80, CHR 0x83],
      [CHR 0xE2, CHR 0x80, CHR 0x84], [CHR 0xE2, CHR 0x80, CHR 0x85],
      [CHR 0xE2, CHR 0x80, CHR 0x86], [CHR 0xE2, CHR 0x80, CHR 0x87],
      [CHR 0xE2, CHR 0x80, CHR 0x88], [CHR 0xE2, CHR 0x80, CHR 0x89],
      [CHR 0xE2, CHR 0x80, CHR 0x8A], [CHR 0xE2, CHR 0x80, CHR 0xA8],
      [CHR 0xE2, CHR 0x80, CHR 0xA9], [CHR 0xE2, CHR 0x80, CHR 0xAF],
      [CHR 0xE2, CHR 0x81, CHR 0x9F], [CHR 0xE3, CHR 0x80, CHR 0x80]]"

definition spaces :: "string list" where
  "spaces = map (\<lambda>c. [c]) ascii_spaces @ wide_spaces"

fun strip_prefix :: "string \<Rightarrow> string \<Rightarrow> string option" where
  "strip_prefix [] s = Some s"
| "strip_prefix (p # ps) [] = None"
| "strip_prefix (p # ps) (c # cs) = (if p = c then strip_prefix ps cs else None)"

text \<open>
  Removes encodings of the list from the front of a string for as long as one is there. The
  length test is for the empty encoding only, which the lists in use do not hold.
\<close>

function trim_front :: "string list \<Rightarrow> string \<Rightarrow> string" where
  "trim_front ws s =
     (case first_some (\<lambda>w. strip_prefix w s) ws of
        None \<Rightarrow> s
      | Some r \<Rightarrow> if length r < length s then trim_front ws r else s)"
  by pat_completeness auto
termination
  by (relation "measure (\<lambda>(ws, s). length s)") auto

declare trim_front.simps [simp del]

definition trim_space :: "string \<Rightarrow> string" where
  "trim_space s = rev (trim_front (map rev spaces) (rev (trim_front spaces s)))"

lemma strip_prefix_iff: "strip_prefix p s = Some r \<longleftrightarrow> s = p @ r"
  by (induction p s rule: strip_prefix.induct) auto

lemma strip_prefix_None: "strip_prefix p s = None \<longleftrightarrow> (\<forall>r. s \<noteq> p @ r)"
  by (induction p s rule: strip_prefix.induct) auto

lemma trim_front_eqs:
  "first_some (\<lambda>w. strip_prefix w s) ws = None \<Longrightarrow> trim_front ws s = s"
  "first_some (\<lambda>w. strip_prefix w s) ws = Some r \<Longrightarrow> length r < length s \<Longrightarrow>
     trim_front ws s = trim_front ws r"
  "first_some (\<lambda>w. strip_prefix w s) ws = Some r \<Longrightarrow> \<not> length r < length s \<Longrightarrow>
     trim_front ws s = s"
  by (simp_all add: trim_front.simps [of ws s])

lemma trim_front_suffix: "\<exists>p. s = p @ trim_front ws s"
proof (induction ws s rule: trim_front.induct)
  case (1 ws s)
  show ?case
  proof (cases "first_some (\<lambda>w. strip_prefix w s) ws")
    case None
    then show ?thesis by (simp add: trim_front_eqs(1))
  next
    case (Some r)
    then obtain w where s: "s = w @ r"
      by (auto dest: first_some_eq_Some simp: strip_prefix_iff)
    show ?thesis
    proof (cases "length r < length s")
      case True
      with 1 Some obtain p where "r = p @ trim_front ws r" by blast
      then have "s = (w @ p) @ trim_front ws r" using s by simp
      then show ?thesis using trim_front_eqs(2) [OF Some True] by metis
    next
      case False
      then show ?thesis using trim_front_eqs(3) [OF Some False] by simp
    qed
  qed
qed

lemma trim_front_done:
  "[] \<notin> set ws \<Longrightarrow> w \<in> set ws \<Longrightarrow> trim_front ws s \<noteq> w @ r"
proof (induction ws s rule: trim_front.induct)
  case (1 ws s)
  show ?case
  proof (cases "first_some (\<lambda>w. strip_prefix w s) ws")
    case None
    then have "s \<noteq> w @ r" using "1.prems" by (auto simp: first_some_eq_None strip_prefix_None)
    then show ?thesis using trim_front_eqs(1) [OF None] by simp
  next
    case (Some r')
    then obtain w' where "w' \<in> set ws" "s = w' @ r'"
      by (auto dest: first_some_eq_Some simp: strip_prefix_iff)
    with "1.prems" have "length r' < length s" by (cases w') auto
    with 1 Some show ?thesis using trim_front_eqs(2) [OF Some] by simp
  qed
qed

lemma trim_front_id: "(\<And>w r. w \<in> set ws \<Longrightarrow> s \<noteq> w @ r) \<Longrightarrow> trim_front ws s = s"
  by (rule trim_front_eqs(1)) (auto simp: first_some_eq_None strip_prefix_None)

lemma spaces_nonempty: "[] \<notin> set spaces" "[] \<notin> set (map rev spaces)"
  by (auto simp: spaces_def wide_spaces_def)

lemma trim_space_infix: "\<exists>a b. s = a @ trim_space s @ b"
proof -
  obtain a where a: "s = a @ trim_front spaces s" using trim_front_suffix by blast
  obtain b where "rev (trim_front spaces s) = b @ rev (trim_space s)"
    unfolding trim_space_def using trim_front_suffix by fastforce
  then have "trim_front spaces s = trim_space s @ rev b"
    by (metis rev_append rev_rev_ident)
  with a show ?thesis by metis
qed

lemma set_trim_space: "set (trim_space s) \<subseteq> set s"
  using trim_space_infix [of s] by (metis Un_iff set_append subsetI)

lemma length_trim_space: "length (trim_space s) \<le> length s"
proof -
  obtain a b where "s = a @ trim_space s @ b" using trim_space_infix by blast
  then have "length s = length a + length (trim_space s) + length b"
    by (metis add.assoc length_append)
  then show ?thesis by simp
qed

lemma trim_space_front: "w \<in> set spaces \<Longrightarrow> trim_space s \<noteq> w @ r"
proof
  assume w: "w \<in> set spaces" and eq: "trim_space s = w @ r"
  obtain b where "rev (trim_front spaces s) = b @ rev (trim_space s)"
    unfolding trim_space_def using trim_front_suffix by fastforce
  then have "trim_front spaces s = trim_space s @ rev b"
    by (metis rev_append rev_rev_ident)
  with eq have "trim_front spaces s = w @ (r @ rev b)" by simp
  with trim_front_done [OF spaces_nonempty(1) w] show False by blast
qed

lemma trim_space_back: "w \<in> set spaces \<Longrightarrow> trim_space s \<noteq> r @ w"
proof
  assume w: "w \<in> set spaces" and eq: "trim_space s = r @ w"
  then have "trim_front (map rev spaces) (rev (trim_front spaces s)) = rev w @ rev r"
    unfolding trim_space_def by (metis rev_append rev_rev_ident)
  moreover from w have "rev w \<in> set (map rev spaces)" by simp
  ultimately show False using trim_front_done [OF spaces_nonempty(2)] by blast
qed

lemma trim_space_unchanged:
  assumes "\<And>w r. w \<in> set spaces \<Longrightarrow> s \<noteq> w @ r" and "\<And>w r. w \<in> set spaces \<Longrightarrow> s \<noteq> r @ w"
  shows "trim_space s = s"
proof -
  have "trim_front spaces s = s" using assms(1) by (rule trim_front_id)
  moreover have "trim_front (map rev spaces) (rev s) = rev s"
  proof (rule trim_front_id)
    fix w r assume "w \<in> set (map rev spaces)"
    then obtain v where "v \<in> set spaces" "w = rev v" by auto
    with assms(2) [of v "rev r"] show "rev s \<noteq> w @ r"
      by (metis rev_append rev_rev_ident)
  qed
  ultimately show ?thesis by (simp add: trim_space_def)
qed

lemma trim_space_idem [simp]: "trim_space (trim_space s) = trim_space s"
  by (rule trim_space_unchanged) (auto simp: trim_space_front trim_space_back)

lemma trim_space_Nil [simp]: "trim_space [] = []"
  using length_trim_space [of "[]"] by simp

text \<open>A string whose first and last byte are visible ASCII has nothing to trim.\<close>

definition visible :: "char \<Rightarrow> bool" where
  "visible c = (33 \<le> (of_char c :: nat) \<and> of_char c \<le> (126 :: nat))"

lemma spaces_not_visible:
  "w \<in> set spaces \<Longrightarrow> w \<noteq> [] \<and> \<not> visible (hd w) \<and> \<not> visible (last w)"
  by (auto simp: spaces_def wide_spaces_def ascii_spaces_def visible_def)

lemma trim_space_visible [go_simps]:
  assumes "visible (hd s)" and "visible (last s)"
  shows "trim_space s = s"
proof (rule trim_space_unchanged)
  fix w r assume w: "w \<in> set spaces"
  from spaces_not_visible [OF w] assms show "s \<noteq> w @ r" by auto
  from spaces_not_visible [OF w] assms show "s \<noteq> r @ w" by auto
qed

lemma trim_space_all_visible [go_simps]: "list_all visible s \<Longrightarrow> trim_space s = s"
  by (cases "s = []") (auto simp: list_all_iff intro!: trim_space_visible)


section \<open>Letter case\<close>

definition lower_byte :: "char \<Rightarrow> char" where
  "lower_byte c =
     (let n = (of_char c :: nat) in if 65 \<le> n \<and> n \<le> 90 then char_of (n + 32) else c)"

definition upper_byte :: "char \<Rightarrow> char" where
  "upper_byte c =
     (let n = (of_char c :: nat) in if 97 \<le> n \<and> n \<le> 122 then char_of (n - 32) else c)"

text \<open>The runes whose lower case has another encoded length (Unicode 15), with it.\<close>

definition lower_table :: "(string \<times> string) list" where
  "lower_table =
     [([CHR 0xC4, CHR 0xB0], [CHR 0x69]),
      ([CHR 0xC8, CHR 0xBA], [CHR 0xE2, CHR 0xB1, CHR 0xA5]),
      ([CHR 0xC8, CHR 0xBE], [CHR 0xE2, CHR 0xB1, CHR 0xA6]),
      ([CHR 0xE1, CHR 0xBA, CHR 0x9E], [CHR 0xC3, CHR 0x9F]),
      ([CHR 0xE2, CHR 0x84, CHR 0xA6], [CHR 0xCF, CHR 0x89]),
      ([CHR 0xE2, CHR 0x84, CHR 0xAA], [CHR 0x6B]),
      ([CHR 0xE2, CHR 0x84, CHR 0xAB], [CHR 0xC3, CHR 0xA5]),
      ([CHR 0xE2, CHR 0xB1, CHR 0xA2], [CHR 0xC9, CHR 0xAB]),
      ([CHR 0xE2, CHR 0xB1, CHR 0xA4], [CHR 0xC9, CHR 0xBD]),
      ([CHR 0xE2, CHR 0xB1, CHR 0xAD], [CHR 0xC9, CHR 0x91]),
      ([CHR 0xE2, CHR 0xB1, CHR 0xAE], [CHR 0xC9, CHR 0xB1]),
      ([CHR 0xE2, CHR 0xB1, CHR 0xAF], [CHR 0xC9, CHR 0x90]),
      ([CHR 0xE2, CHR 0xB1, CHR 0xB0], [CHR 0xC9, CHR 0x92]),
      ([CHR 0xE2, CHR 0xB1, CHR 0xBE], [CHR 0xC8, CHR 0xBF]),
      ([CHR 0xE2, CHR 0xB1, CHR 0xBF], [CHR 0xC9, CHR 0x80]),
      ([CHR 0xEA, CHR 0x9E, CHR 0x8D], [CHR 0xC9, CHR 0xA5]),
      ([CHR 0xEA, CHR 0x9E, CHR 0xAA], [CHR 0xC9, CHR 0xA6]),
      ([CHR 0xEA, CHR 0x9E, CHR 0xAB], [CHR 0xC9, CHR 0x9C]),
      ([CHR 0xEA, CHR 0x9E, CHR 0xAC], [CHR 0xC9, CHR 0xA1]),
      ([CHR 0xEA, CHR 0x9E, CHR 0xAD], [CHR 0xC9, CHR 0xAC]),
      ([CHR 0xEA, CHR 0x9E, CHR 0xAE], [CHR 0xC9, CHR 0xAA]),
      ([CHR 0xEA, CHR 0x9E, CHR 0xB0], [CHR 0xCA, CHR 0x9E]),
      ([CHR 0xEA, CHR 0x9E, CHR 0xB1], [CHR 0xCA, CHR 0x87]),
      ([CHR 0xEA, CHR 0x9E, CHR 0xB2], [CHR 0xCA, CHR 0x9D]),
      ([CHR 0xEA, CHR 0x9F, CHR 0x85], [CHR 0xCA, CHR 0x82])]"

definition is_cont :: "nat \<Rightarrow> bool" where
  "is_cont n = (128 \<le> n \<and> n \<le> 191)"

text \<open>The width of the rune at the front, 0 when its bytes are not valid UTF-8.\<close>

fun rune_width :: "nat list \<Rightarrow> nat" where
  "rune_width [] = 0"
| "rune_width (a # bs) =
     (if a < 128 then 1
      else if 194 \<le> a \<and> a \<le> 223 then
        (case bs of b # _ \<Rightarrow> if is_cont b then 2 else 0 | _ \<Rightarrow> 0)
      else if 224 \<le> a \<and> a \<le> 239 then
        (case bs of b # c # _ \<Rightarrow>
           if is_cont b \<and> is_cont c \<and> (a = 224 \<longrightarrow> 160 \<le> b) \<and> (a = 237 \<longrightarrow> b \<le> 159)
           then 3 else 0 | _ \<Rightarrow> 0)
      else if 240 \<le> a \<and> a \<le> 244 then
        (case bs of b # c # d # _ \<Rightarrow>
           if is_cont b \<and> is_cont c \<and> is_cont d \<and> (a = 240 \<longrightarrow> 144 \<le> b) \<and> (a = 244 \<longrightarrow> b \<le> 143)
           then 4 else 0 | _ \<Rightarrow> 0)
      else 0)"

definition lower_rune :: "string \<Rightarrow> string \<times> nat" where
  \<comment> \<open>the lower case of the rune at the front, and how many bytes it takes\<close>
  "lower_rune s =
     (case s of [] \<Rightarrow> ([], 1)
      | c # _ \<Rightarrow>
          if (of_char c :: nat) < 128 then ([lower_byte c], 1)
          else (case first_some (\<lambda>(u, l). map_option (\<lambda>_. (l, length u)) (strip_prefix u s))
                       lower_table of
                  Some r \<Rightarrow> r
                | None \<Rightarrow>
                    (let w = rune_width (map of_char (take 4 s)) in
                     if w = 0 then ([CHR 0xEF, CHR 0xBF, CHR 0xBD], 1) else (take w s, w))))"

function to_lower :: "string \<Rightarrow> string" where
  "to_lower [] = []"
| "to_lower (c # s) =
     (case lower_rune (c # s) of (l, w) \<Rightarrow> l @ to_lower (drop (w - 1) s))"
  by pat_completeness auto
termination
  by (relation "measure length") (auto simp: less_Suc_eq_le)

definition to_upper :: "string \<Rightarrow> string" where
  "to_upper s = map upper_byte s"

definition is_ascii :: "char \<Rightarrow> bool" where
  "is_ascii c = ((of_char c :: nat) < 128)"

declare to_lower.simps(2) [simp del]

lemma to_lower_ascii_Cons [simp]: "is_ascii c \<Longrightarrow> to_lower (c # s) = lower_byte c # to_lower s"
  by (simp add: to_lower.simps(2) lower_rune_def is_ascii_def)

lemma to_lower_ascii [go_simps]: "list_all is_ascii s \<Longrightarrow> to_lower s = map lower_byte s"
  by (induction s) auto

lemma length_to_upper [simp]: "length (to_upper s) = length s"
  by (simp add: to_upper_def)

section \<open>Digits and numerals\<close>

definition is_digit :: "char \<Rightarrow> bool" where
  "is_digit c = (48 \<le> (of_char c :: nat) \<and> of_char c \<le> (57 :: nat))"

definition digits_only :: "string \<Rightarrow> string" where
  "digits_only s = filter is_digit s"

definition digit_val :: "char \<Rightarrow> nat" where
  "digit_val c = of_char c - 48"

definition digit_char :: "nat \<Rightarrow> char" where
  "digit_char n = char_of (48 + n)"

fun nat_dec :: "nat \<Rightarrow> string" where
  "nat_dec n = (if n < 10 then [digit_char n] else nat_dec (n div 10) @ [digit_char (n mod 10)])"

declare nat_dec.simps [simp del]

definition int_dec :: "int \<Rightarrow> string" where
  \<comment> \<open>\<open>strconv.FormatInt(i, 10)\<close> and the \<open>%d\<close> verb\<close>
  "int_dec i = (if i < 0 then CHR ''-'' # nat_dec (nat (- i)) else nat_dec (nat i))"

definition dec_val :: "string \<Rightarrow> nat" where
  "dec_val s = foldl (\<lambda>n c. 10 * n + digit_val c) 0 s"

definition parse_nat :: "string \<Rightarrow> nat option" where
  "parse_nat s = (if s \<noteq> [] \<and> list_all is_digit s then Some (dec_val s) else None)"

definition atoi :: "string \<Rightarrow> int option" where
  \<comment> \<open>\<open>strconv.Atoi\<close> on a 64-bit platform: an optional sign, digits, and the range of int64\<close>
  "atoi s =
     (case s of
        [] \<Rightarrow> None
      | c # r \<Rightarrow>
          (case (if c = CHR ''-'' \<or> c = CHR ''+'' then parse_nat r else parse_nat s) of
             None \<Rightarrow> None
           | Some n \<Rightarrow>
               (let i = (if c = CHR ''-'' then - int n else int n) in
                if - (2 ^ 63) \<le> i \<and> i < 2 ^ 63 then Some i else None)))"

definition parse_bool :: "string \<Rightarrow> bool option" where
  \<comment> \<open>\<open>strconv.ParseBool\<close>\<close>
  "parse_bool s =
     (if s \<in> set [''1'', ''t'', ''T'', ''true'', ''TRUE'', ''True''] then Some True
      else if s \<in> set [''0'', ''f'', ''F'', ''false'', ''FALSE'', ''False''] then Some False
      else None)"

lemma set_digits_only: "c \<in> set (digits_only s) \<Longrightarrow> is_digit c"
  by (simp add: digits_only_def)

lemma digits_only_id [go_simps]: "list_all is_digit s \<Longrightarrow> digits_only s = s"
  by (auto simp: digits_only_def list_all_iff intro: filter_id)

lemma list_all_digits_only [simp]: "list_all is_digit (digits_only s)"
  by (simp add: digits_only_def list_all_iff)

lemma digits_only_idem [simp]: "digits_only (digits_only s) = digits_only s"
  by (rule digits_only_id) simp

lemma digits_only_append: "digits_only (a @ b) = digits_only a @ digits_only b"
  by (simp add: digits_only_def)

lemma is_digit_visible: "is_digit c \<Longrightarrow> visible c"
  by (auto simp: is_digit_def visible_def)

lemma digits_visible: "list_all is_digit s \<Longrightarrow> list_all visible s"
  by (auto simp: list_all_iff is_digit_visible)

lemma digits_not_mem: "list_all is_digit s \<Longrightarrow> \<not> is_digit c \<Longrightarrow> c \<notin> set s"
  by (auto simp: list_all_iff)

lemma trim_space_digits [go_simps]: "list_all is_digit s \<Longrightarrow> trim_space s = s"
  by (simp add: trim_space_all_visible digits_visible)

lemma digits_only_rev: "digits_only (rev s) = rev (digits_only s)"
  by (simp add: digits_only_def rev_filter)

lemma digits_only_trim_front:
  "\<forall>w \<in> set ws. digits_only w = [] \<Longrightarrow> digits_only (trim_front ws s) = digits_only s"
proof (induction ws s rule: trim_front.induct)
  case (1 ws s)
  show ?case
  proof (cases "first_some (\<lambda>w. strip_prefix w s) ws")
    case None
    then show ?thesis by (simp add: trim_front_eqs(1))
  next
    case (Some r)
    then obtain w where "w \<in> set ws" "s = w @ r"
      by (auto dest: first_some_eq_Some simp: strip_prefix_iff)
    with "1.prems" have "digits_only s = digits_only r" by (simp add: digits_only_append)
    with 1 Some show ?thesis
      by (cases "length r < length s") (simp_all add: trim_front_eqs(2,3) [OF Some])
  qed
qed

lemma digits_only_trim: "digits_only (trim_space s) = digits_only s"
proof -
  have none: "\<forall>w \<in> set spaces. digits_only w = []"
    by (auto simp: spaces_def wide_spaces_def ascii_spaces_def digits_only_def is_digit_def)
  then have "\<forall>w \<in> set (map rev spaces). digits_only w = []" by (simp add: digits_only_rev)
  with none show ?thesis
    by (simp add: trim_space_def digits_only_rev digits_only_trim_front)
qed

lemma digit_char_props:
  "n < 10 \<Longrightarrow> is_digit (digit_char n)" "n < 10 \<Longrightarrow> digit_val (digit_char n) = n"
  by (simp_all add: is_digit_def digit_char_def digit_val_def)

lemma nat_dec_digits: "nat_dec n \<noteq> [] \<and> list_all is_digit (nat_dec n)"
proof (induction n rule: nat_dec.induct)
  case (1 n)
  then show ?case
    by (cases "n < 10") (simp_all add: nat_dec.simps [of n] digit_char_props)
qed

lemma dec_val_nat_dec: "dec_val (nat_dec n) = n"
proof (induction n rule: nat_dec.induct)
  case (1 n)
  then show ?case
    by (cases "n < 10") (simp_all add: nat_dec.simps [of n] dec_val_def digit_char_props)
qed

lemma parse_nat_nat_dec [go_simps]: "parse_nat (nat_dec n) = Some n"
  by (simp add: parse_nat_def nat_dec_digits dec_val_nat_dec)

lemma atoi_int_dec:
  assumes "- (2 ^ 63) \<le> i" and "i < 2 ^ 63"
  shows "atoi (int_dec i) = Some i"
proof (cases "i < 0")
  case True
  with assms show ?thesis by (simp add: int_dec_def atoi_def go_simps)
next
  case False
  obtain c r where c: "nat_dec (nat i) = c # r" using nat_dec_digits by (meson list.exhaust)
  with nat_dec_digits [of "nat i"] have "is_digit c" by simp
  then have "c \<noteq> CHR ''-''" "c \<noteq> CHR ''+''" by (auto simp: is_digit_def)
  moreover have "parse_nat (c # r) = Some (nat i)" using c parse_nat_nat_dec by metis
  ultimately show ?thesis using assms False c by (simp add: int_dec_def atoi_def)
qed

end
