(* ===== verification/Go_Float.thy ===== *)
theory Go_Float
  imports Go_Text "HOL-Library.Log_Nat"
begin

text \<open>
  Go's \<open>float64\<close> as the audio code uses it: a finite value is the rational it denotes, and each
  operation is the exact result rounded to 53 significant bits, ties to even. The values met here
  stay far from overflow and above the smallest normal number, so the exponent is not bounded;
  \<open>ParseFloat\<close>, which can meet both ends, checks them itself. The compiler may fuse a
  multiplication and an addition on some architectures; the model is amd64, where it does not.
\<close>

section \<open>Rounding\<close>

definition floor_log2 :: "rat \<Rightarrow> int" where
  "floor_log2 x =
     (case quotient_of x of
        (p, q) \<Rightarrow> (let e = bitlen p - bitlen q in if 2 powi e \<le> x then e else e - 1))"

definition round_half_even :: "rat \<Rightarrow> int" where
  "round_half_even x =
     (let n = \<lfloor>x\<rfloor>; r = x - of_int n in
      if r < 1/2 then n else if 1/2 < r then n + 1 else if even n then n else n + 1)"

definition fl_pos :: "rat \<Rightarrow> rat" where
  "fl_pos x = (let u = 2 powi (floor_log2 x - 52) in of_int (round_half_even (x / u)) * u)"

definition fl :: "rat \<Rightarrow> rat" where
  "fl x = (if x = 0 then 0 else if 0 < x then fl_pos x else - fl_pos (- x))"

text \<open>\<open>math.Round\<close>: to the nearest integer, halves away from zero; and truncation.\<close>

definition math_round :: "rat \<Rightarrow> int" where
  "math_round x = (if 0 \<le> x then \<lfloor>x + 1/2\<rfloor> else - \<lfloor>1/2 - x\<rfloor>)"

definition trunc :: "rat \<Rightarrow> int" where
  "trunc x = (if 0 \<le> x then \<lfloor>x\<rfloor> else - \<lfloor>- x\<rfloor>)"

text \<open>
  Conversions of a float with an integral value to \<open>int64\<close>, as amd64 does them (the language
  leaves a value that does not fit to the implementation), and to \<open>uint32\<close>: through a 64-bit signed integer,
  whose low half is kept; a value that does not fit gives the integer \<open>-2^63\<close>.
\<close>

definition int64_of :: "int \<Rightarrow> int" where
  "int64_of n = (if - (2 ^ 63) \<le> n \<and> n < 2 ^ 63 then n else - (2 ^ 63))"

definition uint32_of :: "int \<Rightarrow> 32 word" where
  "uint32_of n = (if - (2 ^ 63) \<le> n \<and> n < 2 ^ 63 then word_of_int n else 0)"

lemma floor_log2_bounds:
  assumes "0 < x"
  shows "2 powi floor_log2 x \<le> x" "x < 2 powi (floor_log2 x + 1)"
proof -
  obtain p q where pq: "quotient_of x = (p, q)" by (cases "quotient_of x")
  then have x: "x = of_int p / of_int q" and q: "q > 0"
    by (simp_all add: quotient_of_div quotient_of_denom_pos)
  with assms have p: "p > 0" by (simp add: zero_less_divide_iff)
  define bp where "bp = bitlen p"
  define bq where "bq = bitlen q"
  have "bp \<ge> 1" "bq \<ge> 1"
    using p q bitlen_eq_zero_iff [of p] bitlen_eq_zero_iff [of q] bitlen_nonneg [of p] bitlen_nonneg [of q]
    by (auto simp: bp_def bq_def)
  then have rat_pow: "of_int (2 ^ nat (bp - 1)) = (2 powi (bp - 1) :: rat)"
    "of_int (2 ^ nat bp) = (2 powi bp :: rat)" "of_int (2 ^ nat (bq - 1)) = (2 powi (bq - 1) :: rat)"
    "of_int (2 ^ nat bq) = (2 powi bq :: rat)"
    by (simp_all add: power_int_def)
  have "of_int (2 ^ nat (bp - 1)) \<le> (of_int p :: rat)" "(of_int p :: rat) < of_int (2 ^ nat bp)"
    "of_int (2 ^ nat (bq - 1)) \<le> (of_int q :: rat)" "(of_int q :: rat) < of_int (2 ^ nat bq)"
    using bitlen_bounds [OF p] bitlen_bounds [OF q]
    by (simp_all only: of_int_le_iff of_int_less_iff bp_def bq_def)
  then have P: "2 powi (bp - 1) \<le> (of_int p :: rat)" "(of_int p :: rat) < 2 powi bp"
    and Q: "2 powi (bq - 1) \<le> (of_int q :: rat)" "(of_int q :: rat) < 2 powi bq"
    by (simp_all only: rat_pow)
  have "2 powi (bp - 1 - bq) * of_int q < (2 powi (bp - 1 - bq) * 2 powi bq :: rat)"
    using Q by simp
  also have "\<dots> = 2 powi (bp - 1)" by (simp flip: power_int_add)
  also have "\<dots> \<le> of_int p" by (rule P)
  finally have low: "2 powi (bp - bq - 1) \<le> x"
    using q by (simp add: x field_simps)
  have "of_int p < (2 powi (bp - bq + 1) * 2 powi (bq - 1) :: rat)"
    using P by (simp flip: power_int_add)
  also have "\<dots> \<le> 2 powi (bp - bq + 1) * of_int q"
    using Q by (intro mult_left_mono) simp_all
  finally have high: "x < 2 powi (bp - bq + 1)"
    using q by (simp add: x field_simps)
  show "2 powi floor_log2 x \<le> x" "x < 2 powi (floor_log2 x + 1)"
    using low high by (auto simp: floor_log2_def pq Let_def bp_def bq_def)
qed

lemma floor_log2_mono:
  assumes "0 < x" "x \<le> y"
  shows "floor_log2 x \<le> floor_log2 y"
proof (rule ccontr)
  assume "\<not> ?thesis"
  then have "2 powi (floor_log2 y + 1) \<le> (2 powi floor_log2 x :: rat)"
    by (intro power_int_increasing) simp_all
  with floor_log2_bounds [of x] floor_log2_bounds [of y] assms show False by linarith
qed

lemma round_half_even_between: "\<lfloor>x\<rfloor> \<le> round_half_even x" "round_half_even x \<le> \<lfloor>x\<rfloor> + 1"
  by (simp_all add: round_half_even_def Let_def)

lemma round_half_even_int [simp]: "round_half_even (of_int n) = n"
  by (simp add: round_half_even_def Let_def)

lemma round_half_even_mono:
  assumes "x \<le> y"
  shows "round_half_even x \<le> round_half_even y"
proof (cases "\<lfloor>x\<rfloor> = \<lfloor>y\<rfloor>")
  case True
  with assms show ?thesis by (auto simp: round_half_even_def Let_def)
next
  case False
  with assms have "\<lfloor>x\<rfloor> + 1 \<le> \<lfloor>y\<rfloor>" using floor_mono [OF assms] by linarith
  with round_half_even_between [of x] round_half_even_between [of y] show ?thesis by linarith
qed

lemma fl_pos_bounds:
  assumes "0 < x"
  shows "2 powi floor_log2 x \<le> fl_pos x" "fl_pos x \<le> 2 powi (floor_log2 x + 1)"
proof -
  define e where "e = floor_log2 x"
  define u :: rat where "u = 2 powi (e - 52)"
  have u: "u > 0" by (simp add: u_def)
  have lo: "(2 powi e :: rat) = of_int (2 ^ 52) * u" and hi: "(2 powi (e + 1) :: rat) = of_int (2 ^ 53) * u"
    by (simp_all add: u_def power_int_diff power_int_add)
  have fl: "fl_pos x = of_int (round_half_even (x / u)) * u"
    by (simp add: fl_pos_def Let_def u_def e_def)
  have "of_int (2 ^ 52) \<le> x / u" "x / u \<le> of_int (2 ^ 53)"
    using floor_log2_bounds [OF assms] u lo hi by (simp_all add: field_simps e_def)
  then have "2 ^ 52 \<le> round_half_even (x / u)" "round_half_even (x / u) \<le> 2 ^ 53"
    using round_half_even_mono [of "of_int (2 ^ 52)" "x / u"] round_half_even_mono [of "x / u" "of_int (2 ^ 53)"]
    unfolding round_half_even_int by simp_all
  then have "(of_int (2 ^ 52) :: rat) \<le> of_int (round_half_even (x / u))"
    "(of_int (round_half_even (x / u)) :: rat) \<le> of_int (2 ^ 53)"
    by (simp_all only: of_int_le_iff)
  then show "2 powi floor_log2 x \<le> fl_pos x" "fl_pos x \<le> 2 powi (floor_log2 x + 1)"
    using u unfolding fl lo hi e_def [symmetric] by (auto intro: mult_right_mono)
qed

lemma fl_pos_mono:
  assumes "0 < x" "x \<le> y"
  shows "fl_pos x \<le> fl_pos y"
proof (cases "floor_log2 x = floor_log2 y")
  case True
  with assms show ?thesis
    by (auto simp: fl_pos_def Let_def divide_right_mono intro!: mult_right_mono round_half_even_mono)
next
  case False
  then have "floor_log2 x + 1 \<le> floor_log2 y" using floor_log2_mono [OF assms] by linarith
  then have "(2 powi (floor_log2 x + 1) :: rat) \<le> 2 powi floor_log2 y" by (intro power_int_increasing) simp_all
  with fl_pos_bounds [of x] fl_pos_bounds [of y] assms show ?thesis by linarith
qed

lemma fl_pos_pos: "0 < x \<Longrightarrow> 0 < fl_pos x"
  using fl_pos_bounds(1) [of x] by (meson less_le_trans zero_less_numeral zero_less_power_int)

lemma fl_0 [simp]: "fl 0 = 0"
  by (simp add: fl_def)

lemma fl_nonneg: "0 \<le> x \<Longrightarrow> 0 \<le> fl x"
  using fl_pos_pos [of x] by (auto simp: fl_def)

text \<open>Rounding keeps the order.\<close>

lemma fl_mono:
  assumes "x \<le> y"
  shows "fl x \<le> fl y"
proof -
  consider "0 < x" | "x \<le> 0" "0 \<le> y" | "y < 0" using assms by linarith
  then show ?thesis
  proof cases
    case 1
    with assms fl_pos_mono show ?thesis by (simp add: fl_def)
  next
    case 2
    then have "fl x \<le> 0" using fl_pos_pos [of "- x"] by (auto simp: fl_def)
    with fl_nonneg [of y] 2 show ?thesis by linarith
  next
    case 3
    with assms fl_pos_mono [of "- y" "- x"] show ?thesis by (simp add: fl_def)
  qed
qed

text \<open>An integer of at most 53 bits is a float.\<close>

lemma fl_pos_int:
  assumes "0 < n" "n < 2 ^ 53"
  shows "fl_pos (of_int n) = of_int n"
proof -
  define e where "e = floor_log2 (of_int n)"
  have b: "2 powi e \<le> (of_int n :: rat)" "(of_int n :: rat) < 2 powi (e + 1)"
    using floor_log2_bounds [of "of_int n"] assms by (simp_all add: e_def)
  have "e \<le> 52"
  proof (rule ccontr)
    assume "\<not> e \<le> 52"
    then have "2 powi 53 \<le> (2 powi e :: rat)" by (intro power_int_increasing) simp_all
    with b have "of_int (2 ^ 53) \<le> (of_int n :: rat)" by (simp add: power_int_def)
    with assms show False by (simp only: of_int_le_iff)
  qed
  then have u: "2 powi (e - 52) = (1 / 2 ^ nat (52 - e) :: rat)"
    by (cases "e = 52") (simp_all add: power_int_def inverse_eq_divide power_divide)
  have "(of_int n :: rat) / (1 / 2 ^ nat (52 - e)) = of_int (n * 2 ^ nat (52 - e))" by simp
  then show ?thesis
    by (simp add: fl_pos_def Let_def u flip: e_def del: of_int_mult) simp
qed

lemma fl_of_int:
  assumes "\<bar>n\<bar> < 2 ^ 53"
  shows "fl (of_int n) = of_int n"
  using assms fl_pos_int [of n] fl_pos_int [of "- n"] by (auto simp: fl_def)

lemma fl_numeral: "numeral k < (2 ^ 53 :: int) \<Longrightarrow> fl (numeral k) = numeral k"
  using fl_of_int [of "numeral k"] by simp

lemma fl_1 [simp]: "fl 1 = 1"
  using fl_of_int [of 1] by simp

lemma math_round_int [simp]: "math_round (of_int n) = n"
  by (auto simp: math_round_def) linarith+

lemma math_round_mono: "x \<le> y \<Longrightarrow> math_round x \<le> math_round y"
  by (auto simp: math_round_def intro: floor_mono) linarith+

lemma trunc_int [simp]: "trunc (of_int n) = n"
  by (simp add: trunc_def)

section \<open>ParseFloat\<close>

text \<open>
  \<open>strconv.ParseFloat(s, 64)\<close>, \<open>None\<close> for either of its errors (syntax, out of range): an optional
  sign and a decimal or hexadecimal number with an optional (for hexadecimal, obligatory)
  exponent, underscores between digits, or a name of infinity or not-a-number. The digits of the
  exponent count only while it is below ten thousand.
\<close>

datatype float_value = Finite rat | Infinite | NegInfinite | NotANumber

definition digit_in :: "nat \<Rightarrow> char \<Rightarrow> nat option" where
  "digit_in base c =
     (let n = of_char c :: nat in
      if is_digit c then Some (n - 48)
      else if base = 16 \<and> 97 \<le> n \<and> n \<le> 102 then Some (n - 87)
      else if base = 16 \<and> 65 \<le> n \<and> n \<le> 70 then Some (n - 55)
      else None)"

text \<open>The mantissa: its digits, how many of them follow the point, whether there were any, the rest.\<close>

fun scan_mantissa :: "nat \<Rightarrow> nat \<Rightarrow> nat \<Rightarrow> bool \<Rightarrow> bool \<Rightarrow> string \<Rightarrow> nat \<times> nat \<times> bool \<times> string" where
  "scan_mantissa base m fd dot seen [] = (m, fd, seen, [])"
| "scan_mantissa base m fd dot seen (c # s) =
     (if c = CHR ''_'' then scan_mantissa base m fd dot seen s
      else if c = CHR ''.'' then
        (if dot then (m, fd, seen, c # s) else scan_mantissa base m fd True seen s)
      else (case digit_in base c of
              Some d \<Rightarrow> scan_mantissa base (m * base + d) (if dot then Suc fd else fd) dot True s
            | None \<Rightarrow> (m, fd, seen, c # s)))"

fun scan_exponent :: "nat \<Rightarrow> string \<Rightarrow> nat \<times> string" where
  "scan_exponent e [] = (e, [])"
| "scan_exponent e (c # s) =
     (if c = CHR ''_'' then scan_exponent e s
      else if is_digit c then scan_exponent (if e < 10000 then e * 10 + digit_val c else e) s
      else (e, c # s))"

fun underscores_between :: "nat \<Rightarrow> char \<Rightarrow> string \<Rightarrow> bool" where
  "underscores_between base prev [] = (prev \<noteq> CHR ''_'')"
| "underscores_between base prev (c # s) =
     (if digit_in base c \<noteq> None then underscores_between base (CHR ''0'') s
      else if c = CHR ''_'' then prev = CHR ''0'' \<and> underscores_between base (CHR ''_'') s
      else prev \<noteq> CHR ''_'' \<and> underscores_between base (CHR ''!'') s)"

definition underscore_ok :: "string \<Rightarrow> bool" where
  \<comment> \<open>the sign has been taken off\<close>
  "underscore_ok s =
     (case s of
        z # b # r \<Rightarrow>
          if z = CHR ''0'' \<and> b \<in> set ''bBoOxX''
          then underscores_between (if b \<in> set ''xX'' then 16 else 10) (CHR ''0'') r
          else underscores_between 10 (CHR ''^'') s
      | _ \<Rightarrow> underscores_between 10 (CHR ''^'') s)"

definition strip_sign :: "string \<Rightarrow> bool \<times> string" where
  "strip_sign s =
     (case s of
        c # r \<Rightarrow> if c = CHR ''+'' then (False, r) else if c = CHR ''-'' then (True, r) else (False, s)
      | [] \<Rightarrow> (False, []))"

text \<open>The optional exponent after the mantissa, which must end the text.\<close>

definition read_exponent :: "bool \<Rightarrow> string \<Rightarrow> int option" where
  "read_exponent hex r =
     (case r of
        [] \<Rightarrow> if hex then None else Some 0
      | c # r1 \<Rightarrow>
          if c \<in> set (if hex then ''pP'' else ''eE'') then
            (case strip_sign r1 of
               (eneg, r2) \<Rightarrow>
                 if r2 = [] \<or> \<not> is_digit (hd r2) then None
                 else (case scan_exponent 0 r2 of
                         (e, rest) \<Rightarrow> if rest = [] then Some (if eneg then - int e else int e) else None))
          else None)"

definition read_float :: "string \<Rightarrow> rat option" where
  \<comment> \<open>the exact value of an unsigned number\<close>
  "read_float s =
     (let hex = (length s > 2 \<and> s ! 0 = CHR ''0'' \<and> s ! 1 \<in> set ''xX'');
          base = (if hex then 16 else 10) in
      case scan_mantissa base 0 0 False False (if hex then drop 2 s else s) of
        (m, fd, seen, r) \<Rightarrow>
          if \<not> seen \<or> (CHR ''_'' \<in> set s \<and> \<not> underscore_ok s) then None
          else map_option (\<lambda>e. of_nat m / of_nat base ^ fd * (if hex then 2 powi e else 10 powi e))
                 (read_exponent hex r))"

definition float64_round :: "rat \<Rightarrow> rat" where
  \<comment> \<open>of a non-negative value, with the fixed quantum below the smallest normal number\<close>
  "float64_round a =
     (if a < 2 powi (-1022) then of_int (round_half_even (a * 2 ^ 1074)) / 2 ^ 1074 else fl a)"

definition parse_float :: "string \<Rightarrow> float_value option" where
  "parse_float s =
     (case strip_sign s of
        (neg, u) \<Rightarrow>
          if to_lower u \<in> {''inf'', ''infinity''} \<and> list_all is_ascii u then
            Some (if neg then NegInfinite else Infinite)
          else if to_lower s = ''nan'' \<and> list_all is_ascii s then Some NotANumber
          else (case read_float u of
                  None \<Rightarrow> None
                | Some a \<Rightarrow> if 2 ^ 1024 - 2 ^ 970 \<le> a then None
                            else Some (Finite (if neg then - float64_round a else float64_round a))))"

end
