(* ===== verification/Jids.thy ===== *)
theory Jids
  imports Go_Text
begin

text \<open>
  WhatsApp identifiers and telephone numbers (internal/provider/send.go, events.go and
  resolver.go): the classification of JIDs by server, the parsing of recipients, the Brazilian
  ninth-digit rules and the candidate numbers tried on the server.

  The type \<open>types.JID\<close> is whatsmeow's; the adapter reads and writes the five fields of the
  record \<open>jid\<close>. Its \<open>ParseJID\<close>, \<open>String\<close> and \<open>NewJID\<close> are whatsmeow's too, and a parameter
  \<open>jid_lib\<close> here; what the adapter relies on is \<open>jid_lib_ok\<close>. \<open>ParseJID\<close> gives a JID and an
  optional error, as in Go. Telephone-number parsing (nyaruka/phonenumbers) is the parameter
  \<open>e164_of\<close>: the E.164 form of a text in a region, when it parses.
\<close>

section \<open>JIDs\<close>

record jid =
  j_user :: string
  j_raw_agent :: "8 word"
  j_device :: "16 word"
  j_integrator :: "16 word"
  j_server :: string

definition empty_jid :: jid where
  "empty_jid =
     \<lparr>j_user = [], j_raw_agent = 0, j_device = 0, j_integrator = 0, j_server = []\<rparr>"

record jid_lib =
  parse_jid :: "string \<Rightarrow> jid \<times> string option"
  jid_string :: "jid \<Rightarrow> string"
  new_jid :: "string \<Rightarrow> string \<Rightarrow> jid"

definition default_user_server :: string where
  "default_user_server = ''s.whatsapp.net''"

text \<open>
  The documented behaviour of whatsmeow's types package: \<open>NewJID\<close> sets the user and the server
  and leaves the other fields zero, the text of such a JID is user@server, and parsing that
  text gives the JID back.
\<close>

definition jid_lib_ok :: "jid_lib \<Rightarrow> bool" where
  "jid_lib_ok L \<longleftrightarrow>
     (\<forall>u s. new_jid L u s = empty_jid\<lparr>j_user := u, j_server := s\<rparr>) \<and>
     (\<forall>u s. list_all is_digit u \<and> u \<noteq> [] \<longrightarrow>
        jid_string L (new_jid L u s) = u @ ''@'' @ s \<and>
        parse_jid L (u @ ''@'' @ s) = (new_jid L u s, None))"

definition is_group_jid :: "jid \<Rightarrow> bool" where
  "is_group_jid j = has_suffix (j_server j) ''g.us''"

definition is_community_jid :: "jid \<Rightarrow> bool" where
  "is_community_jid j = (j_server j = ''communities'')"

definition is_status_broadcast_jid :: "jid \<Rightarrow> bool" where
  "is_status_broadcast_jid j = (j_server j = ''broadcast'' \<and> j_user j = ''status'')"

definition is_newsletter_jid :: "jid \<Rightarrow> bool" where
  "is_newsletter_jid j = (j_server j = ''newsletter'')"

definition is_lid_jid :: "jid \<Rightarrow> bool" where
  "is_lid_jid j = (j_server j = ''lid'')"

lemmas jid_class_defs =
  is_group_jid_def is_community_jid_def is_status_broadcast_jid_def is_newsletter_jid_def
  is_lid_jid_def

section \<open>Recipients\<close>

datatype jid_error = EmptyRecipient | EmptyMsisdn | JidParse string

definition parse_recipient :: "jid_lib \<Rightarrow> string \<Rightarrow> (jid_error, jid) outcome" where
  \<comment> \<open>a call of \<open>types.ParseJID\<close> whose error is returned\<close>
  "parse_recipient L s =
     (case parse_jid L s of (j, None) \<Rightarrow> Ok j | (_, Some e) \<Rightarrow> Err (JidParse e))"

definition to_user_jid :: "jid_lib \<Rightarrow> string \<Rightarrow> (jid_error, jid) outcome" where
  "to_user_jid L raw =
     (let to = trim_space raw in
      if to = [] then Err EmptyRecipient
      else if contains to ''@'' then
        obind (parse_recipient L to)
          (\<lambda>j. Ok (if j_server j = [] then j\<lparr>j_server := default_user_server\<rparr> else j))
      else
        (let digits = digits_only to in
         if digits = [] then Err EmptyMsisdn
         else Ok (new_jid L digits default_user_server)))"

definition to_jid :: "jid_lib \<Rightarrow> string \<Rightarrow> (jid_error, jid) outcome" where
  "to_jid L raw =
     (let to = trim_space raw in
      if to = [] then Err EmptyRecipient
      else if contains to ''@'' then parse_recipient L to
      else to_user_jid L to)"

section \<open>Telephone numbers\<close>

definition byte_between :: "char \<Rightarrow> char \<Rightarrow> char \<Rightarrow> bool" where
  "byte_between lo hi c = ((of_char lo :: nat) \<le> of_char c \<and> (of_char c :: nat) \<le> of_char hi)"

definition jid_to_phone_number_digits :: "string \<Rightarrow> bool \<Rightarrow> string" where
  "jid_to_phone_number_digits number retry =
     (if length number < 4 then number
      else if take 2 number \<noteq> ''55'' then number
      else
        (let area = take 2 (drop 2 number); subs = drop 4 number in
         if length subs = 9 \<and> subs ! 0 = CHR ''9'' then ''55'' @ area @ drop 1 subs
         else if length subs = 8 \<and> byte_between (CHR ''6'') (CHR ''9'') (subs ! 0) \<and> retry
           then ''55'' @ area @ ''9'' @ subs
         else number))"

definition phone_number_to_jid_digits :: "string \<Rightarrow> string" where
  "phone_number_to_jid_digits value =
     (let trimmed = trim_space value;
          inp = (case index_any trimmed ''@:'' of None \<Rightarrow> trimmed | Some i \<Rightarrow> take i trimmed);
          number = digits_only inp in
      if length number < 3 then number else jid_to_phone_number_digits number True)"

definition normalize_phone :: "string \<Rightarrow> string" where
  "normalize_phone s = digits_only s"

text \<open>The dynamic type of the argument of \<open>jidToPhoneNumberIfUser(j any)\<close>.\<close>

datatype jid_arg = ArgJid jid | ArgString string | ArgOther

definition jid_to_phone_number_if_user :: "jid_lib \<Rightarrow> jid_arg \<Rightarrow> string" where
  "jid_to_phone_number_if_user L a =
     (case (case a of ArgJid j \<Rightarrow> Some j | ArgString s \<Rightarrow> Some (fst (parse_jid L s))
              | ArgOther \<Rightarrow> None) of
        None \<Rightarrow> []
      | Some j \<Rightarrow> if is_group_jid j then j_user j else digits_only (j_user j))"

definition normalize_from_field :: "string \<Rightarrow> string" where
  "normalize_from_field s =
     (if has_suffix (to_lower (trim_space s)) ''@lid'' then s else remove_byte (CHR ''+'') s)"

definition cloud_media_id :: "string \<Rightarrow> string \<Rightarrow> string" where
  "cloud_media_id phone msg_id =
     (let p = remove_byte (CHR ''+'') phone in
      if p = [] \<or> msg_id = [] then msg_id else p @ ''/'' @ msg_id)"

definition normalize_e164_local :: "(string \<Rightarrow> string \<Rightarrow> string option) \<Rightarrow> string \<Rightarrow> string" where
  "normalize_e164_local e164_of input =
     (let inp = trim_space input;
          region = (if has_prefix inp ''+'' then [] else ''BR'') in
      case e164_of inp region of None \<Rightarrow> [] | Some s \<Rightarrow> s)"

text \<open>The loop over the three forms with the set of the numbers seen.\<close>

fun keep_unseen :: "string list \<Rightarrow> string list \<Rightarrow> string list" where
  "keep_unseen seen [] = []"
| "keep_unseen seen (n # ns) =
     (if n \<in> set seen then keep_unseen seen ns else n # keep_unseen (n # seen) ns)"

definition candidates_br :: "string \<Rightarrow> string list" where
  "candidates_br pn =
     (if \<not> has_prefix pn ''+55'' \<or> length pn < 5 then [pn]
      else
        (let rest = drop 3 pn in
         if length rest < 10 then [pn]
         else
           (let ddd = take 2 rest; loc = drop 2 rest;
                with9 = (if \<not> has_prefix loc ''9'' then ''+55'' @ ddd @ ''9'' @ loc else pn);
                without9 = (if has_prefix loc ''9'' \<and> length loc \<ge> 9
                            then ''+55'' @ ddd @ drop 1 loc else pn) in
            keep_unseen [] [pn, with9, without9])))"


section \<open>Facts about recipients\<close>

lemma jid_lib_new_jid [jid_simps]:
  "jid_lib_ok L \<Longrightarrow> j_user (new_jid L u s) = u"
  "jid_lib_ok L \<Longrightarrow> j_server (new_jid L u s) = s"
  by (simp_all add: jid_lib_ok_def empty_jid_def)

lemma jid_lib_text [jid_simps]:
  "jid_lib_ok L \<Longrightarrow> list_all is_digit u \<Longrightarrow> u \<noteq> [] \<Longrightarrow> jid_string L (new_jid L u s) = u @ ''@'' @ s"
  "jid_lib_ok L \<Longrightarrow> list_all is_digit u \<Longrightarrow> u \<noteq> [] \<Longrightarrow>
     parse_jid L (u @ ''@'' @ s) = (new_jid L u s, None)"
  by (auto simp: jid_lib_ok_def)

lemma not_contains_at_trim: "\<not> contains s ''@'' \<Longrightarrow> \<not> contains (trim_space s) ''@''"
  using set_trim_space [of s] by (auto simp: contains_byte)

lemma digits_no_at: "list_all is_digit s \<Longrightarrow> \<not> contains s ''@''"
  by (auto simp: contains_byte list_all_iff is_digit_def)

lemma to_user_jid_plain:
  assumes "\<not> contains raw ''@''"
  shows "to_user_jid L raw =
    (if digits_only raw \<noteq> [] then Ok (new_jid L (digits_only raw) default_user_server)
     else if trim_space raw = [] then Err EmptyRecipient else Err EmptyMsisdn)"
proof -
  have "trim_space raw = [] \<Longrightarrow> digits_only raw = []"
    using digits_only_trim [of raw] by (simp add: digits_only_def)
  then show ?thesis
    using not_contains_at_trim [OF assms]
    by (auto simp: to_user_jid_def Let_def digits_only_trim)
qed

lemma to_jid_plain:
  "\<not> contains raw ''@'' \<Longrightarrow> to_jid L raw = to_user_jid L raw"
  using not_contains_at_trim [of raw]
  by (auto simp: to_jid_def to_user_jid_def Let_def)

text \<open>A concrete library, for the examples: JIDs without device parts, split at the first \<open>@\<close>.\<close>

definition plain_jids :: jid_lib where
  "plain_jids =
     \<lparr>parse_jid = (\<lambda>s. case index_any s ''@'' of
          None \<Rightarrow> (empty_jid\<lparr>j_server := s\<rparr>, None)
        | Some i \<Rightarrow> (empty_jid\<lparr>j_user := take i s, j_server := drop (Suc i) s\<rparr>, None)),
      jid_string = (\<lambda>j. if j_user j = [] then j_server j else j_user j @ ''@'' @ j_server j),
      new_jid = (\<lambda>u s. empty_jid\<lparr>j_user := u, j_server := s\<rparr>)\<rparr>"

lemma plain_jids_ok: "jid_lib_ok plain_jids"
proof -
  have "index_any (u @ CHR ''@'' # s) ''@'' = Some (length u)" if "list_all is_digit u" for u s
    using digits_not_mem [OF that, of "CHR ''@''"] by (intro index_any_append) (auto simp: is_digit_def)
  then show ?thesis by (auto simp: jid_lib_ok_def plain_jids_def empty_jid_def)
qed

section \<open>Facts about Brazilian numbers\<close>

lemma take2_drop2 [simp]: "length a = 2 \<Longrightarrow> take 2 (a @ b) = a" "length a = 2 \<Longrightarrow> drop 2 (a @ b) = b"
  by simp_all

lemma br_digits_shape:
  assumes "length area = 2"
  shows "jid_to_phone_number_digits (''55'' @ area @ subs) retry =
    (if length subs = 9 \<and> subs ! 0 = CHR ''9'' then ''55'' @ area @ drop 1 subs
     else if length subs = 8 \<and> byte_between (CHR ''6'') (CHR ''9'') (subs ! 0) \<and> retry
       then ''55'' @ area @ ''9'' @ subs
     else ''55'' @ area @ subs)"
proof -
  have 1: "take 2 (''55'' @ area @ subs) = ''55''" by simp
  have 2: "drop 2 (''55'' @ area @ subs) = area @ subs" by simp
  have 3: "drop 4 (''55'' @ area @ subs) = subs" using assms by simp
  have 4: "\<not> length (''55'' @ area @ subs) < 4" using assms by simp
  show ?thesis
    unfolding jid_to_phone_number_digits_def Let_def 1 2 3 using 4 assms by simp
qed

lemma phone_number_to_jid_digits_plain:
  assumes "list_all is_digit n" and "3 \<le> length n"
  shows "phone_number_to_jid_digits n = jid_to_phone_number_digits n True"
proof -
  have "index_any n ''@:'' = None"
    using assms(1) by (auto simp: index_any_None list_all_iff is_digit_def)
  with assms show ?thesis
    by (simp add: phone_number_to_jid_digits_def go_simps)
qed

lemma candidates_br_shape:
  assumes "length ddd = 2" and "8 \<le> length loc"
  shows "candidates_br (''+55'' @ ddd @ loc) =
    (if has_prefix loc ''9'' then
       (if 9 \<le> length loc then [''+55'' @ ddd @ loc, ''+55'' @ ddd @ drop 1 loc]
        else [''+55'' @ ddd @ loc])
     else [''+55'' @ ddd @ loc, ''+55'' @ ddd @ ''9'' @ loc])"
proof -
  have 1: "has_prefix (''+55'' @ ddd @ loc) ''+55''" by (simp add: has_prefix_def)
  have 2: "drop 3 (''+55'' @ ddd @ loc) = ddd @ loc" by simp
  have ne: "''+55'' @ ddd @ drop 1 loc \<noteq> ''+55'' @ ddd @ loc"
    using assms(2) by (cases loc) auto
  have ne': "''+55'' @ ddd @ ''9'' @ loc \<noteq> ''+55'' @ ddd @ loc"
    by (metis append.assoc append_same_eq length_append length_Cons list.size(3)
        add_cancel_left_left nat.simps(3) same_append_eq)
  show ?thesis
    unfolding candidates_br_def Let_def 2
    using 1 assms ne ne' by (cases "loc = []") (auto simp: go_simps)
qed

text \<open>
  C38: The ninth-digit rule exchanges the two spellings of a Brazilian mobile number and never
  brings them together: the nine-digit spelling goes to the eight-digit one and the eight-digit
  one to the nine-digit one. The normalisation of recipients by \<open>phoneNumberToJIDDigits\<close> is
  therefore not idempotent; applied twice, it gives the number it started from.
\<close>

theorem ninth_digit_exchanges_forms:
  assumes "length area = 2" and "length subs = 8" and "byte_between (CHR ''6'') (CHR ''9'') (subs ! 0)"
    and "list_all is_digit (area @ subs)"
  shows "phone_number_to_jid_digits (''55'' @ area @ ''9'' @ subs) = ''55'' @ area @ subs \<and>
    phone_number_to_jid_digits (''55'' @ area @ subs) = ''55'' @ area @ ''9'' @ subs"
proof -
  have "jid_to_phone_number_digits (''55'' @ area @ ''9'' @ subs) True = ''55'' @ area @ subs"
    using br_digits_shape [OF assms(1), of "''9'' @ subs"] assms(2) by simp
  moreover have "jid_to_phone_number_digits (''55'' @ area @ subs) True = ''55'' @ area @ ''9'' @ subs"
    using br_digits_shape [OF assms(1), of subs] assms(2,3) by simp
  moreover have "list_all is_digit (''55'' @ area @ ''9'' @ subs)" "list_all is_digit (''55'' @ area @ subs)"
    using assms(4) by (simp_all add: is_digit_def)
  ultimately show ?thesis using assms(2) by (simp add: phone_number_to_jid_digits_plain)
qed

theorem ninth_digit_exchanges_forms_witness:
  "phone_number_to_jid_digits ''5562991728088'' = ''556291728088'' \<and>
   phone_number_to_jid_digits ''556291728088'' = ''5562991728088''"
  using ninth_digit_exchanges_forms [of "''62''" "''91728088''"]
  by (simp add: byte_between_def is_digit_def)

text \<open>
  The numbers tried on the server for a Brazilian number are the number itself, first, and
  at most one other spelling of it; for an eight-digit subscriber number that does not begin
  with 9 both spellings are tried whichever of the two the caller gave.
\<close>

lemma candidates_br_both_forms:
  assumes "length ddd = 2" and "length loc = 8" and "\<not> has_prefix loc ''9''"
  shows "candidates_br (''+55'' @ ddd @ loc) = [''+55'' @ ddd @ loc, ''+55'' @ ddd @ ''9'' @ loc] \<and>
    candidates_br (''+55'' @ ddd @ ''9'' @ loc) = [''+55'' @ ddd @ ''9'' @ loc, ''+55'' @ ddd @ loc]"
  using assms candidates_br_shape [of ddd loc] candidates_br_shape [of ddd "''9'' @ loc"]
  by (simp add: has_prefix_def)


text \<open>
  An eight-digit subscriber number that begins with 9 (the older mobile numbers) is tried in
  the given spelling only: the spelling with the ninth digit is never a candidate, although it is
  tried for every other eight-digit number.
\<close>

lemma candidates_br_nine_not_doubled:
  assumes "length ddd = 2" and "length loc = 8" and "has_prefix loc ''9''"
  shows "candidates_br (''+55'' @ ddd @ loc) = [''+55'' @ ddd @ loc]"
  using assms candidates_br_shape [of ddd loc] by simp

end
