(* ===== verification/Json.thy ===== *)
theory Json
  imports Go_Float
begin

text \<open>
  The dynamically typed values the adapter builds and reads: a Go \<open>any\<close> that holds what
  encoding/json produces or accepts. A \<open>map[string]any\<close> is an association list with distinct
  keys, in the order of first assignment; encoding/json writes the keys sorted, so the order
  carries no meaning. A float64 is a \<open>float_value\<close>.
\<close>

datatype json =
    JNull
  | JBool bool
  | JInt int
  | JFloat float_value
  | JStr string
  | JArr "json list"
  | JObj "(string \<times> json) list"

text \<open>\<open>m[k] = v\<close> on a map and the comma-ok read \<open>v, ok := m[k]\<close>.\<close>

fun put :: "string \<Rightarrow> json \<Rightarrow> (string \<times> json) list \<Rightarrow> (string \<times> json) list" where
  "put k v [] = [(k, v)]"
| "put k v ((k', v') # kvs) = (if k' = k then (k, v) # kvs else (k', v') # put k v kvs)"

fun jget :: "json \<Rightarrow> string \<Rightarrow> json option" where
  "jget (JObj kvs) k = map_of kvs k"
| "jget _ k = None"

fun jitem :: "json \<Rightarrow> nat \<Rightarrow> json option" where
  "jitem (JArr xs) i = (if i < length xs then Some (xs ! i) else None)"
| "jitem _ i = None"

fun jstr :: "json \<Rightarrow> string option" where
  "jstr (JStr s) = Some s"
| "jstr _ = None"

lemma map_of_put [simp]: "map_of (put k v kvs) = (map_of kvs)(k \<mapsto> v)"
  by (induction kvs) auto

lemma fst_put: "map fst (put k v kvs) = (if k \<in> fst ` set kvs then map fst kvs else map fst kvs @ [k])"
  by (induction kvs) force+

lemma distinct_put: "distinct (map fst kvs) \<Longrightarrow> distinct (map fst (put k v kvs))"
  by (auto simp: fst_put)

text \<open>A value whose objects, at every depth, have distinct keys: what a Go map can hold.\<close>

fun jwf :: "json \<Rightarrow> bool" where
  "jwf (JArr xs) = list_all jwf xs"
| "jwf (JObj kvs) = (distinct (map fst kvs) \<and> list_all (\<lambda>(k, v). jwf v) kvs)"
| "jwf _ = True"

lemma jwf_put: "jwf (JObj kvs) \<Longrightarrow> jwf v \<Longrightarrow> jwf (JObj (put k v kvs))"
proof -
  assume "jwf (JObj kvs)" and v: "jwf v"
  moreover have "list_all (\<lambda>(k, v). jwf v) kvs \<Longrightarrow> list_all (\<lambda>(k, v). jwf v) (put k v kvs)"
    using v by (induction kvs) auto
  ultimately show ?thesis by (auto simp: distinct_put)
qed

section \<open>Base64\<close>

text \<open>\<open>base64.StdEncoding.EncodeToString\<close>, on bytes.\<close>

type_synonym bytes = string

definition b64_char :: "nat \<Rightarrow> char" where
  "b64_char n =
     ''ABCDEFGHIJKLMNOPQRSTUVWXYZabcdefghijklmnopqrstuvwxyz0123456789+/'' ! (n mod 64)"

fun base64 :: "bytes \<Rightarrow> string" where
  "base64 [] = []"
| "base64 [a] =
     (let x = of_char a :: nat in
      [b64_char (x div 4), b64_char ((x mod 4) * 16), CHR ''='', CHR ''=''])"
| "base64 [a, b] =
     (let x = of_char a :: nat; y = of_char b :: nat in
      [b64_char (x div 4), b64_char ((x mod 4) * 16 + y div 16), b64_char ((y mod 16) * 4),
       CHR ''='' ])"
| "base64 (a # b # c # r) =
     (let x = of_char a :: nat; y = of_char b :: nat; z = of_char c :: nat in
      b64_char (x div 4) # b64_char ((x mod 4) * 16 + y div 16)
        # b64_char ((y mod 16) * 4 + z div 64) # b64_char (z mod 64) # base64 r)"

lemma length_base64: "length (base64 s) = 4 * ((length s + 2) div 3)"
proof (induction s rule: base64.induct)
  case (4 a b c r)
  have "(5 + length r) div 3 = Suc (Suc (Suc (length r)) div 3)" by presburger
  with 4 show ?case by (simp add: Let_def)
qed (simp_all add: Let_def)

text \<open>\<open>base64.StdEncoding.DecodeString\<close> without its newline skipping, which encoded text never needs.\<close>

fun b64_find :: "char \<Rightarrow> string \<Rightarrow> nat \<Rightarrow> nat option" where
  "b64_find c [] n = None"
| "b64_find c (d # ds) n = (if c = d then Some n else b64_find c ds (Suc n))"

definition b64_val :: "char \<Rightarrow> nat option" where
  "b64_val c =
     b64_find c ''ABCDEFGHIJKLMNOPQRSTUVWXYZabcdefghijklmnopqrstuvwxyz0123456789+/'' 0"

fun base64_decode :: "string \<Rightarrow> bytes option" where
  "base64_decode [] = Some []"
| "base64_decode (p # q # r # s # t) =
     (case (b64_val p, b64_val q) of
        (Some a, Some b) \<Rightarrow>
          (if r = CHR ''='' then
             (if s = CHR ''='' \<and> t = [] then Some [char_of (a * 4 + b div 16)] else None)
           else
             (case b64_val r of
                None \<Rightarrow> None
              | Some c \<Rightarrow>
                  (if s = CHR ''='' then
                     (if t = [] then Some [char_of (a * 4 + b div 16), char_of (b * 16 + c div 4)]
                      else None)
                   else
                     (case (b64_val s, base64_decode t) of
                        (Some d, Some u) \<Rightarrow>
                          Some (char_of (a * 4 + b div 16) # char_of (b * 16 + c div 4)
                                # char_of (c * 64 + d) # u)
                      | _ \<Rightarrow> None))))
      | _ \<Rightarrow> None)"
| "base64_decode _ = None"

lemma b64_val_char: "n < 64 \<Longrightarrow> b64_val (b64_char n) = Some n \<and> b64_char n \<noteq> CHR ''=''"
proof -
  have "list_all (\<lambda>n. b64_val (b64_char n) = Some n \<and> b64_char n \<noteq> CHR ''='') [0..<64]"
    by code_simp
  then show "n < 64 \<Longrightarrow> ?thesis" by (simp add: list_all_iff)
qed

lemma of_char_less_256: "(of_char c :: nat) < 256"
  using of_char_mod_256 [of c, where ?'a = nat] by (metis mod_less_divisor zero_less_numeral)

lemma char_of_eqI: "n mod 256 = of_char c \<Longrightarrow> char_of (n :: nat) = c"
  by (metis char_of_mod_256 char_of_char)

lemma base64_small:
  "(of_char a :: nat) div 4 < 64" "(of_char a :: nat) div 64 < 4" "(of_char a :: nat) div 16 < 16"
  using of_char_less_256 [of a] by (simp_all add: less_mult_imp_div_less)

lemma base64_char1:
  assumes "p < (16 :: nat)"
  shows "char_of ((of_char a :: nat) div 4 * 4 + (of_char a mod 4 * 16 + p) div 16) = a"
proof -
  have "(x mod 4 * 16 + p) div 16 = x mod 4" for x :: nat using assms by simp
  then have "x div 4 * 4 + (x mod 4 * 16 + p) div 16 = x" for x :: nat
    by (metis div_mult_mod_eq)
  then show ?thesis by (metis char_of_char)
qed

lemma base64_char2:
  assumes "w < (4 :: nat)"
  shows "char_of ((x mod 4 * 16 + (of_char b :: nat) div 16) * 16 + (of_char b mod 16 * 4 + w) div 4) = b"
proof (rule char_of_eqI)
  let ?y = "of_char b :: nat"
  have "(?y mod 16 * 4 + w) div 4 = ?y mod 16" using assms by simp
  then have "(x mod 4 * 16 + ?y div 16) * 16 + (?y mod 16 * 4 + w) div 4
      = x mod 4 * 256 + (?y div 16 * 16 + ?y mod 16)" by simp
  also have "\<dots> = x mod 4 * 256 + ?y" by (simp only: div_mult_mod_eq)
  finally show "((x mod 4 * 16 + ?y div 16) * 16 + (?y mod 16 * 4 + w) div 4) mod 256 = ?y"
    using of_char_less_256 [of b] by simp
qed

lemma base64_char3:
  "char_of ((y mod 16 * 4 + (of_char c :: nat) div 64) * 64 + of_char c mod 64) = c"
proof (rule char_of_eqI)
  let ?z = "of_char c :: nat"
  have "(y mod 16 * 4 + ?z div 64) * 64 + ?z mod 64 = y mod 16 * 256 + (?z div 64 * 64 + ?z mod 64)"
    by simp
  also have "\<dots> = y mod 16 * 256 + ?z" by (simp only: div_mult_mod_eq)
  finally show "((y mod 16 * 4 + ?z div 64) * 64 + ?z mod 64) mod 256 = ?z"
    using of_char_less_256 [of c] by simp
qed

lemma base64_ranges:
  "p < 16 \<Longrightarrow> x mod 4 * 16 + p < (64 :: nat)" "w < 4 \<Longrightarrow> y mod 16 * 4 + w < (64 :: nat)"
proof -
  have "x mod 4 < 4" "y mod 16 < 16" by simp_all
  then show "p < 16 \<Longrightarrow> x mod 4 * 16 + p < 64" "w < 4 \<Longrightarrow> y mod 16 * 4 + w < 64"
    by linarith+
qed

lemma base64_roundtrip: "base64_decode (base64 s) = Some s"
proof (induction s rule: base64.induct)
  case (2 a)
  show ?case
    using base64_char1 [of 0 a] base64_ranges(1) [of 0 "of_char a"] base64_small [of a]
    by (simp add: b64_val_char Let_def)
next
  case (3 a b)
  show ?case
    using base64_char1 [OF base64_small(3), of a b] base64_char2 [of 0 "of_char a" b]
      base64_ranges(1) [OF base64_small(3), of "of_char a" b]
      base64_ranges(2) [of 0 "of_char b"] base64_small [of a]
    by (simp add: b64_val_char Let_def)
next
  case (4 a b c r)
  show ?case
    using 4 base64_char1 [OF base64_small(3), of a b]
      base64_char2 [OF base64_small(2), of "of_char a" b c] base64_char3 [of "of_char b" c]
      base64_ranges(1) [OF base64_small(3), of "of_char a" b]
      base64_ranges(2) [OF base64_small(2), of "of_char b" c] base64_small [of a]
    by (simp add: b64_val_char Let_def)
qed simp

end
