(* ===== verification/Messages.thy ===== *)
theory Messages
  imports Jids Json
begin

text \<open>
  The WhatsApp protobuf messages, with the fields the adapter reads or sets. The generated
  getters return the zero value for a nil message, so an unset field is \<open>None\<close> and the getters
  below give the empty string for it. Byte fields are empty when nil. The messages quoted inside
  a \<open>ContextInfo\<close> and the edited message of a protocol message are read and built only through
  the fields kept here, so the recursion of the protobuf type is cut there.
\<close>

record quoted_message =
  q_conversation :: "string option"

record context_info =
  ci_stanza_id :: "string option"
  ci_participant :: "string option"
  ci_is_forwarded :: bool
  ci_quoted :: "quoted_message option"
  ci_mentioned :: "string list"

record ext_text =
  et_text :: "string option"
  et_context :: "context_info option"

record media_message =
  mm_url :: "string option"
  mm_direct_path :: "string option"
  mm_media_key :: bytes
  mm_file_enc_sha256 :: bytes
  mm_file_sha256 :: bytes
  mm_file_length :: "64 word option"
  mm_mimetype :: "string option"
  mm_context :: "context_info option"

record captioned_message = media_message +
  cm_caption :: "string option"

record document_message = captioned_message +
  dm_file_name :: "string option"
  dm_title :: "string option"

record audio_message = media_message +
  am_ptt :: "bool option"
  am_seconds :: "32 word option"
  am_waveform :: bytes

record location_message =
  lo_latitude :: float_value
  lo_longitude :: float_value

record contact_message =
  co_display_name :: "string option"
  co_vcard :: "string option"

record contacts_array_message =
  ca_display_name :: "string option"
  ca_contacts :: "contact_message list"

record message_key =
  mk_id :: "string option"

record reaction_message =
  re_text :: "string option"
  re_key :: "message_key option"

text \<open>The content fields that an edited message is searched for, and the whole message.\<close>

record wa_content =
  wm_conversation :: "string option"
  wm_extended_text :: "ext_text option"
  wm_image :: "captioned_message option"
  wm_document :: "document_message option"
  wm_video :: "captioned_message option"

datatype protocol_type = MESSAGE_EDIT | REVOKE | OTHER_PROTOCOL

record protocol_message =
  pm_type :: protocol_type
  pm_key :: "message_key option"
  pm_edited :: "wa_content option"

record wa_message = wa_content +
  wm_audio :: "audio_message option"
  wm_sticker :: "media_message option"
  wm_contact :: "contact_message option"
  wm_contacts :: "contacts_array_message option"
  wm_reaction :: "reaction_message option"
  wm_location :: "location_message option"
  wm_protocol :: "protocol_message option"

definition empty_message :: wa_message where
  "empty_message =
     \<lparr>wm_conversation = None, wm_extended_text = None, wm_image = None, wm_document = None,
      wm_video = None, wm_audio = None, wm_sticker = None, wm_contact = None,
      wm_contacts = None, wm_reaction = None, wm_location = None, wm_protocol = None\<rparr>"

definition empty_context :: context_info where
  "empty_context =
     \<lparr>ci_stanza_id = None, ci_participant = None, ci_is_forwarded = False, ci_quoted = None,
      ci_mentioned = []\<rparr>"

definition str_of :: "string option \<Rightarrow> string" where
  "str_of x = (case x of None \<Rightarrow> [] | Some s \<Rightarrow> s)"

lemma str_of_simps [simp]: "str_of None = []" "str_of (Some s) = s"
  by (simp_all add: str_of_def)

text \<open>The metadata of a message event of whatsmeow.\<close>

record message_info =
  mi_id :: string
  mi_is_from_me :: bool
  mi_chat :: jid
  mi_sender :: jid
  mi_sender_alt :: jid
  mi_push_name :: string
  mi_timestamp :: "int option"

datatype media_type = MediaImage | MediaDocument | MediaVideo | MediaAudio | MediaStickerPack

record upload_response =
  up_url :: string
  up_direct_path :: string
  up_media_key :: bytes
  up_file_enc_sha256 :: bytes
  up_file_sha256 :: bytes

end
