(* ===== verification/Requests.thy ===== *)
theory Requests
  imports Prelude
begin

text \<open>
  The outgoing messages that the adapter is asked to send (the JSON structs at the top of
  internal/provider/send.go). A pointer field is an option, a nil or missing slice the empty
  list, and a missing string the empty string, as the zero values of the decoded struct are.
  \<open>ImageContent\<close> and \<open>VideoContent\<close> have the same fields and share \<open>captioned_content\<close>; the
  name of a contact is a struct of the one field \<open>formatted_name\<close>.
\<close>

record text_content =
  tc_body :: string

record link_content =
  lc_link :: string

record captioned_content = link_content +
  cc_caption :: string

record document_content = captioned_content +
  dc_file_name :: string

record audio_content = captioned_content +
  ac_ptt :: "bool option"
  ac_seconds :: "32 word option"

record message_context =
  mc_id :: string
  mc_message_id :: string
  mc_stanzaId :: string
  mc_stanza_id :: string
  mc_participant :: string
  mc_quoted_text :: string
  mc_mentioned_jid :: "string list"
  mc_mentions :: "string list"

record contact_phone =
  cp_phone :: string
  cp_wa_id :: string

record contact_entry =
  cn_formatted_name :: string
  cn_phones :: "contact_phone list"

record outgoing_message =
  om_messaging_product :: string
  om_type :: string
  om_to :: string
  om_body :: string
  om_text :: "text_content option"
  om_image :: "captioned_content option"
  om_document :: "document_content option"
  om_video :: "captioned_content option"
  om_audio :: "audio_content option"
  om_sticker :: "link_content option"
  om_contacts :: "contact_entry list"
  om_media_url :: string
  om_caption :: string
  om_session_id :: string
  om_message_id :: string
  om_context :: "message_context option"
  om_mentions :: "string list"

end
