(* ===== verification/Caches.thy ===== *)
theory Caches
  imports Jids
begin

text \<open>
  The in-memory caches of internal/provider/caches.go, and the phone-number cache of the client
  manager (internal/provider/resolver.go). Time is \<open>time.Now()\<close> in nanoseconds; a map is a
  partial function; the read/write lock makes each operation one step
  (see the theory \<open>Sharing\<close>).

  The four caches share a contract, the locale \<open>ttl_cache\<close>: what is put is found again until its
  time to live has passed, nothing else is disturbed, nothing that was not put is ever found.
  Each cache is an instance of it.
\<close>

record string_entry =
  se_val :: string
  se_expiry :: int

record jid_entry =
  je_val :: jid
  je_expiry :: int

record pn_cache_item =
  pn_val :: string
  pn_exp :: int

definition nano :: int where "nano = 1000000000"

definition avatar_ttl :: int where "avatar_ttl = 10 * 60 * nano"
definition group_name_ttl :: int where "group_name_ttl = 10 * 60 * nano"
definition lid_map_ttl :: int where "lid_map_ttl = 30 * 60 * nano"
definition pn_ttl :: int where "pn_ttl = 24 * 60 * 60 * nano"

definition cache_get_avatar :: "int \<Rightarrow> (string \<rightharpoonup> string_entry) \<Rightarrow> string \<Rightarrow> string option" where
  "cache_get_avatar now m key =
     (case m key of
        Some e \<Rightarrow> if now < se_expiry e \<and> se_val e \<noteq> [] then Some (se_val e) else None
      | None \<Rightarrow> None)"

definition cache_put_avatar ::
  "int \<Rightarrow> string \<Rightarrow> string \<Rightarrow> (string \<rightharpoonup> string_entry) \<Rightarrow> (string \<rightharpoonup> string_entry)" where
  "cache_put_avatar now key url m = m(key \<mapsto> \<lparr>se_val = url, se_expiry = now + avatar_ttl\<rparr>)"

definition cache_get_group_name :: "int \<Rightarrow> (string \<rightharpoonup> string_entry) \<Rightarrow> string \<Rightarrow> string option" where
  "cache_get_group_name now m key =
     (case m key of
        Some e \<Rightarrow> if now < se_expiry e \<and> se_val e \<noteq> [] then Some (se_val e) else None
      | None \<Rightarrow> None)"

definition cache_put_group_name ::
  "int \<Rightarrow> string \<Rightarrow> string \<Rightarrow> (string \<rightharpoonup> string_entry) \<Rightarrow> (string \<rightharpoonup> string_entry)" where
  "cache_put_group_name now key name m = m(key \<mapsto> \<lparr>se_val = name, se_expiry = now + group_name_ttl\<rparr>)"

definition cache_get_lid :: "int \<Rightarrow> (string \<rightharpoonup> jid_entry) \<Rightarrow> string \<Rightarrow> jid option" where
  "cache_get_lid now m key =
     (case m key of
        Some e \<Rightarrow>
          if now < je_expiry e \<and> j_user (je_val e) \<noteq> [] \<and> j_server (je_val e) \<noteq> []
          then Some (je_val e) else None
      | None \<Rightarrow> None)"

definition cache_put_lid ::
  "int \<Rightarrow> string \<Rightarrow> jid \<Rightarrow> (string \<rightharpoonup> jid_entry) \<Rightarrow> (string \<rightharpoonup> jid_entry)" where
  "cache_put_lid now key v m = m(key \<mapsto> \<lparr>je_val = v, je_expiry = now + lid_map_ttl\<rparr>)"

text \<open>
  The phone-number cache is read and written in place by \<open>resolvePNtoJID\<close> and
  \<open>checkUserExistsOnWhatsApp\<close>; both use these two operations. An item whose text no longer
  parses as a JID counts as absent.
\<close>

definition pn_cache_get :: "jid_lib \<Rightarrow> int \<Rightarrow> (string \<rightharpoonup> pn_cache_item) \<Rightarrow> string \<Rightarrow> jid option" where
  "pn_cache_get L now m key =
     (case m key of
        Some it \<Rightarrow>
          if now < pn_exp it then
            (case parse_jid L (pn_val it) of (j, None) \<Rightarrow> Some j | (_, Some _) \<Rightarrow> None)
          else None
      | None \<Rightarrow> None)"

definition pn_cache_put ::
  "jid_lib \<Rightarrow> int \<Rightarrow> string \<Rightarrow> jid \<Rightarrow> (string \<rightharpoonup> pn_cache_item) \<Rightarrow> (string \<rightharpoonup> pn_cache_item)" where
  "pn_cache_put L now key j m = m(key \<mapsto> \<lparr>pn_val = jid_string L j, pn_exp = now + pn_ttl\<rparr>)"

section \<open>The contract\<close>

locale ttl_cache =
  fixes get :: "int \<Rightarrow> 'm \<Rightarrow> 'k \<Rightarrow> 'v option"
    and put :: "int \<Rightarrow> 'k \<Rightarrow> 'v \<Rightarrow> 'm \<Rightarrow> 'm"
    and empty :: 'm
    and ttl :: int
    and seen :: "'v \<Rightarrow> 'v option"
  assumes get_empty: "get t empty k = None"
    and get_put_same: "get t (put t0 k v m) k = (if t < t0 + ttl then seen v else None)"
    and get_put_other: "k' \<noteq> k \<Longrightarrow> get t (put t0 k v m) k' = get t m k'"
begin

text \<open>
  What a cache holds after a history of puts, the most recent first: an answer is the last
  value put under the key, put less than the time to live ago.
\<close>

lemma get_history:
  "get t (foldr (\<lambda>(t0, k, v). put t0 k v) h empty) key = Some w \<longleftrightarrow>
    (\<exists>h1 t0 v h2. h = h1 @ (t0, key, v) # h2 \<and> key \<notin> (fst \<circ> snd) ` set h1 \<and>
       t < t0 + ttl \<and> seen v = Some w)"
proof (induction h)
  case Nil
  then show ?case by (simp add: get_empty)
next
  case (Cons p h)
  obtain t1 k v1 where p: "p = (t1, k, v1)" by (cases p)
  show ?case
  proof (cases "k = key")
    case True
    have "(\<exists>h1 t0 v h2. p # h = h1 @ (t0, key, v) # h2 \<and> key \<notin> (fst \<circ> snd) ` set h1 \<and>
        t < t0 + ttl \<and> seen v = Some w) \<longleftrightarrow> t < t1 + ttl \<and> seen v1 = Some w"
      (is "?L \<longleftrightarrow> ?R")
    proof
      assume ?L
      then obtain h1 t0 v h2 where h: "p # h = h1 @ (t0, key, v) # h2"
        "key \<notin> (fst \<circ> snd) ` set h1" "t < t0 + ttl" "seen v = Some w" by blast
      with p True show ?R by (cases h1) auto
    next
      assume ?R
      with p True have "p # h = [] @ (t1, key, v1) # h \<and> key \<notin> (fst \<circ> snd) ` set [] \<and>
        t < t1 + ttl \<and> seen v1 = Some w" by simp
      then show ?L by blast
    qed
    with p True show ?thesis by (simp add: get_put_same)
  next
    case False
    have "(\<exists>h1 t0 v h2. p # h = h1 @ (t0, key, v) # h2 \<and> key \<notin> (fst \<circ> snd) ` set h1 \<and>
        t < t0 + ttl \<and> seen v = Some w) \<longleftrightarrow>
      (\<exists>h1 t0 v h2. h = h1 @ (t0, key, v) # h2 \<and> key \<notin> (fst \<circ> snd) ` set h1 \<and>
        t < t0 + ttl \<and> seen v = Some w)" (is "?L \<longleftrightarrow> ?R")
    proof
      assume ?L
      then obtain h1 t0 v h2 where h: "p # h = h1 @ (t0, key, v) # h2"
        "key \<notin> (fst \<circ> snd) ` set h1" "t < t0 + ttl" "seen v = Some w" by blast
      with p False obtain h1' where "h1 = p # h1'" by (cases h1) auto
      with h show ?R by auto
    next
      assume ?R
      then obtain h1 t0 v h2 where "h = h1 @ (t0, key, v) # h2"
        "key \<notin> (fst \<circ> snd) ` set h1" "t < t0 + ttl" "seen v = Some w" by blast
      with p False have "p # h = (p # h1) @ (t0, key, v) # h2 \<and>
        key \<notin> (fst \<circ> snd) ` set (p # h1) \<and> t < t0 + ttl \<and> seen v = Some w" by auto
      then show ?L by blast
    qed
    with p False Cons show ?thesis by (simp add: get_put_other)
  qed
qed

lemma put_then_get:
  "seen v = Some w \<Longrightarrow> t < t0 + ttl \<Longrightarrow> get t (put t0 k v m) k = Some w"
  by (simp add: get_put_same)

end

interpretation avatar: ttl_cache cache_get_avatar cache_put_avatar Map.empty avatar_ttl
    "\<lambda>v. if v \<noteq> [] then Some v else None"
  by unfold_locales (auto simp: cache_get_avatar_def cache_put_avatar_def)

interpretation group_name: ttl_cache cache_get_group_name cache_put_group_name Map.empty group_name_ttl
    "\<lambda>v. if v \<noteq> [] then Some v else None"
  by unfold_locales (auto simp: cache_get_group_name_def cache_put_group_name_def)

interpretation lid: ttl_cache cache_get_lid cache_put_lid Map.empty lid_map_ttl
    "\<lambda>v. if j_user v \<noteq> [] \<and> j_server v \<noteq> [] then Some v else None"
  by unfold_locales (auto simp: cache_get_lid_def cache_put_lid_def)

text \<open>The phone-number cache gives back the JID as its text parses.\<close>

definition reparsed :: "jid_lib \<Rightarrow> jid \<Rightarrow> jid option" where
  "reparsed L j = (case parse_jid L (jid_string L j) of (j', None) \<Rightarrow> Some j' | (_, Some _) \<Rightarrow> None)"

interpretation pn: ttl_cache "pn_cache_get L" "pn_cache_put L" Map.empty pn_ttl "reparsed L" for L
  by unfold_locales (auto simp: pn_cache_get_def pn_cache_put_def reparsed_def)


text \<open>
  After any sequence of stores, the LID cache answers a lookup exactly with the last JID
  stored under that key, and only when it was stored less than thirty minutes ago and has a user
  and a server.
\<close>

lemma lid_cache_fresh:
  "cache_get_lid t (foldr (\<lambda>(t0, k, v). cache_put_lid t0 k v) h Map.empty) key = Some j \<longleftrightarrow>
    (\<exists>h1 t0 h2. h = h1 @ (t0, key, j) # h2 \<and> key \<notin> (fst \<circ> snd) ` set h1 \<and>
       t < t0 + lid_map_ttl \<and> j_user j \<noteq> [] \<and> j_server j \<noteq> [])"
  unfolding lid.get_history by (auto split: if_splits)

end
