(* ===== verification/World.thy ===== *)
theory World
  imports Messages Requests Caches
begin

text \<open>
  The state of the process and its surroundings. The record \<open>sys\<close> holds the fields of the client
  manager (internal/provider/client.go), the package variables of caches.go, qr.go, status.go
  and publisher.go, the event handlers that whatsmeow clients hold, and the goroutines. The record \<open>env\<close> holds what the process cannot determine: the answers of
  WhatsApp, of the brokers, of the web servers and of the operating system, and the clock. Each
  call that leaves the process takes the next \<open>tick\<close>, is answered by a function of that tick
  and of the arguments, and is appended to \<open>effects\<close>; every sequence of answers is the
  behaviour of some \<open>env\<close>, so a theorem about all \<open>env\<close> is one about all surroundings.

  A whatsmeow client is known by a number (its pointer). Log output is not modelled.
\<close>

type_synonym client = nat
type_synonym conn = nat
type_synonym chan = nat

section \<open>Data of the manager\<close>

record client_entry =
  ce_client :: "client option"
  ce_db :: string
  ce_keys_db :: "string option"
  ce_log :: string
  ce_session :: string
  ce_webhook :: string
  ce_presence_cancel :: "nat option"

record session_overrides =
  ov_reject_calls :: "bool option"
  ov_reject_msg :: "string option"
  ov_auto_mark_read :: "bool option"
  ov_ignore_status_broadcast :: "bool option"
  ov_ignore_newsletters :: "bool option"
  ov_always_online :: "bool option"
  ov_always_online_every :: "int option"

definition no_overrides :: session_overrides where
  "no_overrides =
     \<lparr>ov_reject_calls = None, ov_reject_msg = None, ov_auto_mark_read = None,
      ov_ignore_status_broadcast = None, ov_ignore_newsletters = None,
      ov_always_online = None, ov_always_online_every = None\<rparr>"

text \<open>
  The goroutine that refreshes the presence: its client, its period in nanoseconds, whether its
  context has been cancelled, and how far it is. The cancel function of an entry is known by
  the position of its goroutine in \<open>refreshers\<close>.
\<close>

datatype refresher_phase = NotStarted | Running | Ended

record refresher =
  rf_client :: client
  rf_interval :: int
  rf_cancelled :: bool
  rf_phase :: refresher_phase

text \<open>
  The state of a pairing code, and of the webhook publisher: the AMQP URL of its configuration (\<open>None\<close> for a nil configuration), the
  exchange, and the shared connection and channel.
\<close>

record qr_state =
  qr_png_base64 :: string
  qr_updated_at :: int

record publisher =
  pb_amqp_url :: "string option"
  pb_exchange :: string
  pb_conn :: "conn option"
  pb_ch :: "chan option"

record on_whatsapp =
  ow_is_in :: bool
  ow_jid :: jid

record pic_params =
  pp_preview :: bool
  pp_is_community :: bool

record http_response =
  hr_status_code :: int
  hr_status :: string
  hr_header :: "string \<Rightarrow> string"
  hr_body :: "string + bytes"

text \<open>
  A goroutine that \<open>Connect\<close>, \<open>RestoreSavedSessions\<close>, \<open>FakeCall\<close> (with the ring time in
  milliseconds), the event handler or the AMQP consumer has started and that has not ended.
\<close>

datatype goroutine =
    GConnect string client
  | GWatchQr string client
  | GRestore string
  | GEndCall client string jid jid int
  | GMarkRead string client message_info
  | GSend outgoing_message string

section \<open>Effects\<close>

datatype effect =
    ESendMessage client jid wa_message "string option"
  | EUpload client bytes media_type
  | EIsOnWhatsApp client string
  | EPnForLid client jid
  | EGroupInfo client jid
  | EPicture client jid "pic_params option"
  | ERejectCall client jid string
  | EMarkRead client string jid jid
  | EPresence client
  | EConnect client
  | EDisconnect client
  | ECallOffer client string string jid jid
  | ECallTerminate client string string jid jid
  | EMkdir string
  | EOpenStore string
  | ERedisGet string string
  | ESetStatus string string
  | EHttpGet string
  | EHttpPost string json
  | EFfmpeg bytes "string list"
  | EAmqpDial string
  | EAmqpClose conn
  | EAmqpDeclare string string
  | EPublish string string json
  | EChanClose chan
  | EQueueDeclare string
  | EQueueBind string string string
  | EConsume string

section \<open>The process\<close>

record sys =
  tick :: nat
  effects :: "effect list"
  m_clients :: "string \<rightharpoonup> client_entry"
  m_session_store :: string
  m_webhook_base :: string
  m_default_audio_ptt :: bool
  m_reject_calls :: bool
  m_reject_msg :: string
  m_auto_mark_read :: bool
  m_pn_resolver_url :: string
  m_pn_cache :: "string \<rightharpoonup> pn_cache_item"
  m_always_online :: bool
  m_always_online_every :: int
  m_ignore_status_broadcast :: bool
  m_ignore_newsletters :: bool
  m_redis_url :: string
  m_overrides :: "string \<rightharpoonup> session_overrides"
  m_check_user_exists :: bool
  avatar_cache :: "string \<rightharpoonup> string_entry"
  group_name_cache :: "string \<rightharpoonup> string_entry"
  lid_ad_cache :: "string \<rightharpoonup> jid_entry"
  qr_by_session :: "string \<rightharpoonup> qr_state"
  refreshers :: "refresher list"
  handlers :: "(client \<times> string) list"
  goroutines :: "goroutine list"
  status_mgr :: bool
  webhook_pub :: "publisher option"
  webhook_pub_once :: bool

section \<open>The surroundings\<close>

record env =
  env_now :: "nat \<Rightarrow> int"
  env_send_message :: "nat \<Rightarrow> client \<Rightarrow> jid \<Rightarrow> wa_message \<Rightarrow> string option \<Rightarrow> string + string"
  env_upload :: "nat \<Rightarrow> client \<Rightarrow> bytes \<Rightarrow> media_type \<Rightarrow> string + upload_response"
  env_is_on_whatsapp :: "nat \<Rightarrow> client \<Rightarrow> string \<Rightarrow> string + on_whatsapp list"
  env_pn_for_lid :: "nat \<Rightarrow> client \<Rightarrow> jid \<Rightarrow> string + jid"
  env_has_lid_store :: "client \<Rightarrow> bool"
  env_group_name :: "nat \<Rightarrow> client \<Rightarrow> jid \<Rightarrow> string + string option"
  env_picture_url :: "nat \<Rightarrow> client \<Rightarrow> jid \<Rightarrow> pic_params option \<Rightarrow> string + string option"
  env_reject_call :: "nat \<Rightarrow> client \<Rightarrow> jid \<Rightarrow> string \<Rightarrow> string option"
  env_mark_read :: "nat \<Rightarrow> client \<Rightarrow> string \<Rightarrow> jid \<Rightarrow> jid \<Rightarrow> string option"
  env_http_get :: "nat \<Rightarrow> string \<Rightarrow> string + http_response"
  env_request_error :: "string \<Rightarrow> string option"
  env_ffmpeg :: "nat \<Rightarrow> bytes \<Rightarrow> string list \<Rightarrow> bytes \<times> string \<times> string option"
  env_amqp_dial :: "nat \<Rightarrow> string \<Rightarrow> string + conn"
  env_amqp_channel :: "nat \<Rightarrow> conn \<Rightarrow> string + chan"
  env_amqp_declare :: "nat \<Rightarrow> chan \<Rightarrow> string \<Rightarrow> string \<Rightarrow> string option"
  env_amqp_is_closed :: "nat \<Rightarrow> conn \<Rightarrow> bool"
  env_amqp_publish :: "nat \<Rightarrow> chan \<Rightarrow> string \<Rightarrow> string \<Rightarrow> json \<Rightarrow> string option"
  env_queue_declare :: "nat \<Rightarrow> chan \<Rightarrow> string \<Rightarrow> string option"
  env_queue_bind :: "nat \<Rightarrow> chan \<Rightarrow> string \<Rightarrow> string \<Rightarrow> string \<Rightarrow> string option"
  env_consume :: "nat \<Rightarrow> chan \<Rightarrow> string \<Rightarrow> string option"
  env_lookup :: "string \<Rightarrow> string option"
  env_redis_url_error :: "string \<Rightarrow> string option"
  env_redis_get :: "nat \<Rightarrow> string \<Rightarrow> string \<Rightarrow> string + string"
  env_mkdir_all :: "nat \<Rightarrow> string \<Rightarrow> string option"
  env_open_store :: "nat \<Rightarrow> string \<Rightarrow> string option"
  env_first_device :: "nat \<Rightarrow> string \<Rightarrow> string + jid option"
  env_new_client :: "nat \<Rightarrow> client"
  env_qr_channel :: "nat \<Rightarrow> client \<Rightarrow> string option"
  env_connect :: "nat \<Rightarrow> client \<Rightarrow> string option"
  env_is_connected :: "nat \<Rightarrow> client \<Rightarrow> bool"
  env_is_logged_in :: "nat \<Rightarrow> client \<Rightarrow> bool"
  env_store_id :: "nat \<Rightarrow> client \<Rightarrow> jid option"
  env_own_id :: "nat \<Rightarrow> client \<Rightarrow> jid"
  env_message_id :: "nat \<Rightarrow> client \<Rightarrow> string"
  env_send_node :: "nat \<Rightarrow> client \<Rightarrow> string option"
  env_read_dir :: "nat \<Rightarrow> string \<Rightarrow> string + (string \<times> bool) list"
  env_stat :: "nat \<Rightarrow> string \<Rightarrow> string option"
  lib_qr_png :: "string \<Rightarrow> bytes"
  lib_to_non_ad :: "jid \<Rightarrow> jid"
  lib_jid :: jid_lib
  lib_e164 :: "string \<Rightarrow> string \<Rightarrow> string option"
  lib_extensions_by_type :: "string \<Rightarrow> string list"
  lib_detect_content_type :: "bytes \<Rightarrow> string"
  lib_mp3 :: "bytes \<Rightarrow> string + (int \<times> (string + bytes))"
  lib_opus_new :: "string option"
  lib_opus_encode :: "16 word list list \<Rightarrow> 16 word list \<Rightarrow> string + bytes"
  lib_ogg_new :: "string option"
  lib_ogg_write :: "(16 word \<times> 32 word \<times> bytes) list \<Rightarrow> 16 word \<times> 32 word \<times> bytes \<Rightarrow> string option"
  lib_ogg_close :: "(16 word \<times> 32 word \<times> bytes) list \<Rightarrow> string + bytes"

section \<open>Calls that leave the process\<close>

definition log_effect :: "effect \<Rightarrow> sys \<Rightarrow> sys" where
  "log_effect x s = s\<lparr>tick := Suc (tick s), effects := effects s @ [x]\<rparr>"

definition time_now :: "env \<Rightarrow> sys \<Rightarrow> int \<times> sys" where
  "time_now E s = (env_now E (tick s), s\<lparr>tick := Suc (tick s)\<rparr>)"

definition wa_send_message ::
  "env \<Rightarrow> client \<Rightarrow> jid \<Rightarrow> wa_message \<Rightarrow> string option \<Rightarrow> sys \<Rightarrow> (string + string) \<times> sys" where
  "wa_send_message E c j w i s =
     (env_send_message E (tick s) c j w i, log_effect (ESendMessage c j w i) s)"

definition wa_upload ::
  "env \<Rightarrow> client \<Rightarrow> bytes \<Rightarrow> media_type \<Rightarrow> sys \<Rightarrow> (string + upload_response) \<times> sys" where
  "wa_upload E c d t s = (env_upload E (tick s) c d t, log_effect (EUpload c d t) s)"

definition wa_is_on_whatsapp ::
  "env \<Rightarrow> client \<Rightarrow> string \<Rightarrow> sys \<Rightarrow> (string + on_whatsapp list) \<times> sys" where
  "wa_is_on_whatsapp E c n s = (env_is_on_whatsapp E (tick s) c n, log_effect (EIsOnWhatsApp c n) s)"

definition wa_pn_for_lid :: "env \<Rightarrow> client \<Rightarrow> jid \<Rightarrow> sys \<Rightarrow> (string + jid) \<times> sys" where
  "wa_pn_for_lid E c j s = (env_pn_for_lid E (tick s) c j, log_effect (EPnForLid c j) s)"

definition wa_group_name :: "env \<Rightarrow> client \<Rightarrow> jid \<Rightarrow> sys \<Rightarrow> (string + string option) \<times> sys" where
  "wa_group_name E c j s = (env_group_name E (tick s) c j, log_effect (EGroupInfo c j) s)"

definition wa_picture_url ::
  "env \<Rightarrow> client \<Rightarrow> jid \<Rightarrow> pic_params option \<Rightarrow> sys \<Rightarrow> (string + string option) \<times> sys" where
  "wa_picture_url E c j p s = (env_picture_url E (tick s) c j p, log_effect (EPicture c j p) s)"

definition wa_reject_call :: "env \<Rightarrow> client \<Rightarrow> jid \<Rightarrow> string \<Rightarrow> sys \<Rightarrow> string option \<times> sys" where
  "wa_reject_call E c j i s = (env_reject_call E (tick s) c j i, log_effect (ERejectCall c j i) s)"

definition wa_mark_read :: "env \<Rightarrow> client \<Rightarrow> string \<Rightarrow> jid \<Rightarrow> jid \<Rightarrow> sys \<Rightarrow> string option \<times> sys" where
  "wa_mark_read E c i chat sender s =
     (env_mark_read E (tick s) c i chat sender, log_effect (EMarkRead c i chat sender) s)"

definition http_get :: "env \<Rightarrow> string \<Rightarrow> sys \<Rightarrow> (string + http_response) \<times> sys" where
  "http_get E url s = (env_http_get E (tick s) url, log_effect (EHttpGet url) s)"

definition amqp_dial :: "env \<Rightarrow> string \<Rightarrow> sys \<Rightarrow> (string + conn) \<times> sys" where
  "amqp_dial E url s = (env_amqp_dial E (tick s) url, log_effect (EAmqpDial url) s)"

definition amqp_channel :: "env \<Rightarrow> conn \<Rightarrow> sys \<Rightarrow> (string + chan) \<times> sys" where
  "amqp_channel E c s = (env_amqp_channel E (tick s) c, s\<lparr>tick := Suc (tick s)\<rparr>)"

definition amqp_declare :: "env \<Rightarrow> chan \<Rightarrow> string \<Rightarrow> string \<Rightarrow> sys \<Rightarrow> string option \<times> sys" where
  "amqp_declare E c ex kind s =
     (env_amqp_declare E (tick s) c ex kind, log_effect (EAmqpDeclare ex kind) s)"

definition amqp_is_closed :: "env \<Rightarrow> conn \<Rightarrow> sys \<Rightarrow> bool \<times> sys" where
  "amqp_is_closed E c s = (env_amqp_is_closed E (tick s) c, s\<lparr>tick := Suc (tick s)\<rparr>)"

definition amqp_publish ::
  "env \<Rightarrow> chan \<Rightarrow> string \<Rightarrow> string \<Rightarrow> json \<Rightarrow> sys \<Rightarrow> string option \<times> sys" where
  "amqp_publish E c ex rk body s =
     (case env_amqp_publish E (tick s) c ex rk body of
        None \<Rightarrow> (None, log_effect (EPublish ex rk body) s)
      | Some e \<Rightarrow> (Some e, s\<lparr>tick := Suc (tick s)\<rparr>))"

lemmas call_defs =
  log_effect_def time_now_def wa_send_message_def wa_upload_def wa_is_on_whatsapp_def
  wa_pn_for_lid_def wa_group_name_def wa_picture_url_def wa_reject_call_def wa_mark_read_def
  http_get_def amqp_dial_def amqp_channel_def amqp_declare_def amqp_is_closed_def amqp_publish_def


section \<open>The start\<close>

text \<open>
  \<open>NewClientManager\<close>: the settings given, empty maps, no always-online. The package variables
  have their initial values.
\<close>

definition new_client_manager ::
  "string \<Rightarrow> string \<Rightarrow> bool \<Rightarrow> bool \<Rightarrow> string \<Rightarrow> bool \<Rightarrow> string \<Rightarrow> bool \<Rightarrow> bool \<Rightarrow> string \<Rightarrow> bool \<Rightarrow> sys"
  where
  "new_client_manager session_store webhook_base default_audio_ptt reject_calls reject_msg
     auto_mark_read pn_resolver_url ignore_status_broadcast ignore_newsletters redis_url
     check_user_exists =
     \<lparr>tick = 0, effects = [], m_clients = Map.empty, m_session_store = session_store,
      m_webhook_base = webhook_base, m_default_audio_ptt = default_audio_ptt,
      m_reject_calls = reject_calls, m_reject_msg = reject_msg, m_auto_mark_read = auto_mark_read,
      m_pn_resolver_url = pn_resolver_url, m_pn_cache = Map.empty, m_always_online = False,
      m_always_online_every = 0, m_ignore_status_broadcast = ignore_status_broadcast,
      m_ignore_newsletters = ignore_newsletters, m_redis_url = redis_url,
      m_overrides = Map.empty, m_check_user_exists = check_user_exists,
      avatar_cache = Map.empty, group_name_cache = Map.empty, lid_ad_cache = Map.empty,
      qr_by_session = Map.empty, refreshers = [], handlers = [], goroutines = [], status_mgr = False, webhook_pub = None,
      webhook_pub_once = False\<rparr>"

text \<open>A manager with the default settings, and surroundings in which no call succeeds: for examples.\<close>

definition idle_sys :: sys where
  "idle_sys = new_client_manager ''state'' ''http://hook'' True True [] False [] True True [] True"

definition silent_env :: env where
  "silent_env =
     \<lparr>env_now = (\<lambda>t. 0), env_send_message = (\<lambda>t c j w i. Inl ''down''),
      env_upload = (\<lambda>t c d k. Inl ''down''), env_is_on_whatsapp = (\<lambda>t c n. Inl ''down''),
      env_pn_for_lid = (\<lambda>t c j. Inl ''down''), env_has_lid_store = (\<lambda>c. True),
      env_group_name = (\<lambda>t c j. Inl ''down''), env_picture_url = (\<lambda>t c j p. Inl ''down''),
      env_reject_call = (\<lambda>t c j i. Some ''down''), env_mark_read = (\<lambda>t c i j k. Some ''down''),
      env_http_get = (\<lambda>t u. Inl ''down''), env_request_error = (\<lambda>u. None),
      env_ffmpeg = (\<lambda>t d a. ([], [], Some ''down'')), env_amqp_dial = (\<lambda>t u. Inl ''down''),
      env_amqp_channel = (\<lambda>t c. Inl ''down''), env_amqp_declare = (\<lambda>t c x k. Some ''down''),
      env_amqp_is_closed = (\<lambda>t c. False), env_amqp_publish = (\<lambda>t c x r b. Some ''down''),
      env_queue_declare = (\<lambda>t c q. Some ''down''), env_queue_bind = (\<lambda>t c q k x. Some ''down''),
      env_consume = (\<lambda>t c q. Some ''down''), env_lookup = (\<lambda>n. None), env_redis_url_error = (\<lambda>u. None),
      env_redis_get = (\<lambda>t u k. Inl ''down''), env_mkdir_all = (\<lambda>t p. Some ''down''),
      env_open_store = (\<lambda>t p. Some ''down''), env_first_device = (\<lambda>t p. Inl ''down''),
      env_new_client = (\<lambda>t. 0), env_qr_channel = (\<lambda>t c. Some ''down''),
      env_connect = (\<lambda>t c. Some ''down''), env_is_connected = (\<lambda>t c. False),
      env_is_logged_in = (\<lambda>t c. False), env_store_id = (\<lambda>t c. None),
      env_own_id = (\<lambda>t c. empty_jid), env_message_id = (\<lambda>t c. ''ID''),
      env_send_node = (\<lambda>t c. Some ''down''), env_read_dir = (\<lambda>t p. Inl ''down''),
      env_stat = (\<lambda>t p. Some ''down''), lib_qr_png = (\<lambda>c. []), lib_to_non_ad = (\<lambda>j. j),
      lib_jid = plain_jids, lib_e164 = (\<lambda>n r. None), lib_extensions_by_type = (\<lambda>m. []),
      lib_detect_content_type = (\<lambda>d. ''application/octet-stream''),
      lib_mp3 = (\<lambda>d. Inl ''no mp3''), lib_opus_new = None, lib_opus_encode = (\<lambda>h f. Inr []),
      lib_ogg_new = None, lib_ogg_write = (\<lambda>h p. None), lib_ogg_close = (\<lambda>h. Inr [])\<rparr>"

section \<open>What calls leave alone\<close>

text \<open>
  \<open>settled s\<close> is the state without its ticks, effects, publisher and caches: the sessions, the
  settings and the pairing codes. Sending, receiving and delivering never change it.
\<close>

definition settled :: "sys \<Rightarrow> sys" where
  "settled s =
     s\<lparr>tick := 0, effects := [], webhook_pub := None, m_pn_cache := Map.empty,
       avatar_cache := Map.empty, group_name_cache := Map.empty, lid_ad_cache := Map.empty\<rparr>"

lemma settled_updates [world_simps, simp]:
  "settled (s\<lparr>tick := t\<rparr>) = settled s"
  "settled (s\<lparr>effects := es\<rparr>) = settled s"
  "settled (s\<lparr>webhook_pub := p\<rparr>) = settled s"
  "settled (s\<lparr>m_pn_cache := m\<rparr>) = settled s"
  "settled (s\<lparr>avatar_cache := a\<rparr>) = settled s"
  "settled (s\<lparr>group_name_cache := g\<rparr>) = settled s"
  "settled (s\<lparr>lid_ad_cache := l\<rparr>) = settled s"
  by (simp_all add: settled_def)

lemma settled_log_effect [world_simps, simp]: "settled (log_effect x s) = settled s"
  by (simp add: log_effect_def)

lemma settled_eqD:
  assumes "settled s = settled s'"
  shows "m_clients s = m_clients s'" "m_webhook_base s = m_webhook_base s'"
    "m_overrides s = m_overrides s'" "m_reject_calls s = m_reject_calls s'"
    "m_reject_msg s = m_reject_msg s'" "m_auto_mark_read s = m_auto_mark_read s'"
    "m_check_user_exists s = m_check_user_exists s'"
    "m_default_audio_ptt s = m_default_audio_ptt s'"
    "m_ignore_status_broadcast s = m_ignore_status_broadcast s'"
    "m_ignore_newsletters s = m_ignore_newsletters s'"
    "refreshers s = refreshers s'" "status_mgr s = status_mgr s'"
    "qr_by_session s = qr_by_session s'" "m_always_online s = m_always_online s'"
    "handlers s = handlers s'" "goroutines s = goroutines s'"
    "m_session_store s = m_session_store s'" "m_redis_url s = m_redis_url s'"
proof -
  have sel: "m_clients s = m_clients (settled s)" "m_webhook_base s = m_webhook_base (settled s)"
    "m_overrides s = m_overrides (settled s)" "m_reject_calls s = m_reject_calls (settled s)"
    "m_reject_msg s = m_reject_msg (settled s)" "m_auto_mark_read s = m_auto_mark_read (settled s)"
    "m_check_user_exists s = m_check_user_exists (settled s)"
    "m_default_audio_ptt s = m_default_audio_ptt (settled s)"
    "m_ignore_status_broadcast s = m_ignore_status_broadcast (settled s)"
    "m_ignore_newsletters s = m_ignore_newsletters (settled s)"
    "refreshers s = refreshers (settled s)" "status_mgr s = status_mgr (settled s)"
    "qr_by_session s = qr_by_session (settled s)" "m_always_online s = m_always_online (settled s)"
    "handlers s = handlers (settled s)" "goroutines s = goroutines (settled s)"
    "m_session_store s = m_session_store (settled s)" "m_redis_url s = m_redis_url (settled s)" for s :: sys
    by (simp_all add: settled_def)
  show "m_clients s = m_clients s'" "m_webhook_base s = m_webhook_base s'"
    "m_overrides s = m_overrides s'" "m_reject_calls s = m_reject_calls s'"
    "m_reject_msg s = m_reject_msg s'" "m_auto_mark_read s = m_auto_mark_read s'"
    "m_check_user_exists s = m_check_user_exists s'"
    "m_default_audio_ptt s = m_default_audio_ptt s'"
    "m_ignore_status_broadcast s = m_ignore_status_broadcast s'"
    "m_ignore_newsletters s = m_ignore_newsletters s'"
    "refreshers s = refreshers s'" "status_mgr s = status_mgr s'"
    "qr_by_session s = qr_by_session s'" "m_always_online s = m_always_online s'"
    "handlers s = handlers s'" "goroutines s = goroutines s'"
    "m_session_store s = m_session_store s'" "m_redis_url s = m_redis_url s'"
    by (metis sel assms)+
qed

lemma call_settled [world_simps, simp]:
  "settled (snd (time_now E s)) = settled s"
  "settled (snd (wa_send_message E c j w i s)) = settled s"
  "settled (snd (wa_upload E c d t s)) = settled s"
  "settled (snd (wa_is_on_whatsapp E c u s)) = settled s"
  "settled (snd (wa_pn_for_lid E c j s)) = settled s"
  "settled (snd (wa_group_name E c j s)) = settled s"
  "settled (snd (wa_picture_url E c j p s)) = settled s"
  "settled (snd (wa_reject_call E c j k s)) = settled s"
  "settled (snd (wa_mark_read E c k j j' s)) = settled s"
  "settled (snd (http_get E url s)) = settled s"
  "settled (snd (amqp_dial E url s)) = settled s"
  "settled (snd (amqp_channel E n s)) = settled s"
  "settled (snd (amqp_declare E ch ex kind s)) = settled s"
  "settled (snd (amqp_is_closed E n s)) = settled s"
  "settled (snd (amqp_publish E ch ex rk b s)) = settled s"
  by (simp_all add: time_now_def wa_send_message_def wa_upload_def wa_is_on_whatsapp_def
      wa_pn_for_lid_def wa_group_name_def wa_picture_url_def wa_reject_call_def wa_mark_read_def
      http_get_def amqp_dial_def amqp_channel_def amqp_declare_def amqp_is_closed_def
      amqp_publish_def split: option.splits)

end
