(* ===== verification/Audio.thy ===== *)
theory Audio
  imports Go_Float World "HOL-Library.Signed_Division"
begin

text \<open>
  The audio conversions of internal/provider/send.go: PCM helpers, the waveform, the packets of
  the Opus stream, the two ffmpeg conversions and the choice of duration and MIME type. A sample
  (\<open>int16\<close>) is a 16-bit word read with \<open>sint\<close>; \<open>float64\<close> values are rationals rounded by \<open>fl\<close>.
  The decoder, the encoder, the OGG writer and ffmpeg are parameters (fields of \<open>env\<close>); the
  encoder and the writer get what they were given before, since they keep a state.
\<close>

unbundle bit_operations_syntax

type_synonym samples = "16 word list"
type_synonym rtp_packet = "16 word \<times> 32 word \<times> bytes"

section \<open>PCM\<close>

fun bytes_to_int16 :: "bytes \<Rightarrow> samples" where
  "bytes_to_int16 (b0 # b1 # bs) = (of_char b0 OR push_bit 8 (of_char b1)) # bytes_to_int16 bs"
| "bytes_to_int16 _ = []"

definition clip :: "int \<Rightarrow> int" where
  "clip m =
     (let m1 = (if m > 32767 then 32767 else m) in if m1 < - 32768 then - 32768 else m1)"

fun downmix_pairs :: "samples \<Rightarrow> samples" where
  "downmix_pairs (l # r # rest) =
     word_of_int (clip (sint l sdiv 2 + sint r sdiv 2)) # downmix_pairs rest"
| "downmix_pairs _ = []"

definition downmix_stereo_to_mono :: "samples \<Rightarrow> samples" where
  "downmix_stereo_to_mono stereo = (if length stereo < 2 then stereo else downmix_pairs stereo)"

definition sample_at :: "samples \<Rightarrow> int \<Rightarrow> 16 word" where
  "sample_at xs idx =
     (if xs = [] then 0
      else if idx < 0 then xs ! 0
      else if idx \<ge> int (length xs) then xs ! (length xs - 1)
      else xs ! nat idx)"

definition interpolate :: "samples \<Rightarrow> rat \<Rightarrow> nat \<Rightarrow> 16 word" where
  "interpolate xs ratio i =
     (let pos = fl (of_nat i / ratio); j = \<lfloor>pos\<rfloor>; t = fl (pos - of_int j);
          s0 = of_int (sint (sample_at xs j)); s1 = of_int (sint (sample_at xs (j + 1)));
          val = fl (fl (fl (1 - t) * s0) + fl (t * s1));
          val1 = (if val > 32767 then 32767 else val);
          val2 = (if val1 < - 32768 then - 32768 else val1) in
      word_of_int (trunc val2))"

definition resample_linear_int16 :: "samples \<Rightarrow> int \<Rightarrow> int \<Rightarrow> samples" where
  "resample_linear_int16 xs src_rate dst_rate =
     (if src_rate \<le> 0 \<or> dst_rate \<le> 0 \<or> xs = [] \<or> src_rate = dst_rate then xs
      else
        (let ratio = fl (fl (of_int dst_rate) / fl (of_int src_rate));
             n = math_round (fl (fl (of_nat (length xs)) * ratio));
             out_len = (if n < 1 then 1 else n) in
         map (interpolate xs ratio) [0..<nat out_len]))"

definition pad_zeros :: "samples \<Rightarrow> nat \<Rightarrow> samples" where
  "pad_zeros xs want = (if length xs \<ge> want then xs else xs @ replicate (want - length xs) 0)"

section \<open>The waveform\<close>

definition bars :: nat where
  "bars = 64"

definition sum_amplitudes :: "samples \<Rightarrow> rat" where
  "sum_amplitudes xs = foldl (\<lambda>acc w. fl (acc + \<bar>of_int (sint w)\<bar>)) 0 xs"

definition bar_level :: "samples \<Rightarrow> nat \<Rightarrow> nat \<Rightarrow> rat" where
  "bar_level xs block_size i =
     (let start = i * block_size in
      if start \<ge> length xs then 0
      else
        (let end' = min (start + block_size) (length xs);
             chunk = take (end' - start) (drop start xs) in
         if length chunk > 0 then fl (sum_amplitudes chunk / of_nat (length chunk)) else 0))"

definition bar_byte :: "rat \<Rightarrow> rat \<Rightarrow> char" where
  "bar_byte max_amp level =
     (let val = fl (fl (level / max_amp) * 100);
          val1 = (if val < 0 then 0 else val);
          val2 = (if val1 > 100 then 100 else val1) in
      char_of (math_round val2))"

definition build_waveform :: "samples \<Rightarrow> bytes" where
  "build_waveform xs =
     (if xs = [] then []
      else
        (let block_size = (if length xs div bars = 0 then 1 else length xs div bars);
             filtered = map (bar_level xs block_size) [0..<bars];
             max_amp = foldl (\<lambda>m a. if a > m then a else m) 0 filtered in
         if max_amp = 0 then replicate bars (char_of (0 :: nat)) else map (bar_byte max_amp) filtered))"

section \<open>The Opus stream\<close>

definition target_sample_rate :: int where
  "target_sample_rate = 16000"

definition opus_frame_samples :: nat where
  "opus_frame_samples = 320"

text \<open>The frames of the loop over the samples, the last one filled up with zeros.\<close>

function frames :: "samples \<Rightarrow> samples list" where
  "frames xs =
     (if xs = [] then []
      else
        (let frame = take opus_frame_samples xs in
         (if length frame < opus_frame_samples then pad_zeros frame opus_frame_samples else frame)
         # frames (drop opus_frame_samples xs)))"
  by auto
termination
  by (relation "measure length") (auto simp: opus_frame_samples_def)

declare frames.simps [simp del]

fun encode_frames ::
  "env \<Rightarrow> samples list \<Rightarrow> rtp_packet list \<Rightarrow> 16 word \<Rightarrow> 32 word \<Rightarrow> samples list \<Rightarrow>
   (string, rtp_packet list) outcome" where
  "encode_frames E hist pkts sequence timestamp [] = Ok pkts"
| "encode_frames E hist pkts sequence timestamp (f # fs) =
     (case lib_opus_encode E hist f of
        Inl e \<Rightarrow> Err (''opus encode: '' @ e)
      | Inr payload \<Rightarrow>
          (case lib_ogg_write E pkts (sequence, timestamp, payload) of
             Some e \<Rightarrow> Err (''ogg write: '' @ e)
           | None \<Rightarrow> encode_frames E (hist @ [f]) (pkts @ [(sequence, timestamp, payload)])
                      (sequence + 1) (timestamp + of_nat opus_frame_samples) fs))"

definition whole_seconds :: "samples \<Rightarrow> 32 word" where
  "whole_seconds xs =
     (let secs = word_of_int (math_round (fl (fl (of_nat (length xs)) / 16000))) in
      if secs = 0 then 1 else secs)"

text \<open>
  \<open>convertMP3ToOGG\<close> in its two halves: the samples at 16 kHz, at least one frame of them, and the
  stream. The decoder's output counts as stereo when its length is a multiple of four.
\<close>

definition mp3_samples :: "env \<Rightarrow> bytes \<Rightarrow> (string, samples) outcome" where
  "mp3_samples E data =
     (if data = [] then Err ''empty audio payload''
      else
        (case lib_mp3 E data of
           Inl e \<Rightarrow> Err (''mp3 decoder: '' @ e)
         | Inr (src_rate, decoded) \<Rightarrow>
             if src_rate \<le> 0 then Err ''invalid mp3 sample rate''
             else
               (case decoded of
                  Inl e \<Rightarrow> Err (''mp3 decode: '' @ e)
                | Inr pcm \<Rightarrow>
                    if length pcm < 2 then Err ''decoded audio too short''
                    else
                      (let all = bytes_to_int16 pcm;
                           xs = (if length pcm mod 4 = 0 then downmix_stereo_to_mono all else all) in
                       if xs = [] then Err ''no pcm samples''
                       else
                         (let res = resample_linear_int16 xs src_rate target_sample_rate in
                          Ok (if length res < opus_frame_samples
                              then pad_zeros res opus_frame_samples else res))))))"

definition ogg_stream :: "env \<Rightarrow> samples \<Rightarrow> (string, bytes) outcome" where
  "ogg_stream E pcm16k =
     (case lib_ogg_new E of
        Some e \<Rightarrow> Err (''oggwriter: '' @ e)
      | None \<Rightarrow>
          (case lib_opus_new E of
             Some e \<Rightarrow> Err (''opus encoder: '' @ e)
           | None \<Rightarrow>
               obind (encode_frames E [] [] 0 (of_nat opus_frame_samples) (frames pcm16k))
                 (\<lambda>pkts. case lib_ogg_close E pkts of
                    Inl e \<Rightarrow> Err (''ogg close: '' @ e)
                  | Inr out \<Rightarrow> Ok out)))"

definition convert_mp3_to_ogg :: "env \<Rightarrow> bytes \<Rightarrow> (string, bytes \<times> 32 word \<times> bytes) outcome" where
  "convert_mp3_to_ogg E data =
     obind (mp3_samples E data) (\<lambda>pcm16k.
       let secs = whole_seconds pcm16k; waveform = build_waveform pcm16k in
       obind (ogg_stream E pcm16k) (\<lambda>out. Ok (out, secs, waveform)))"

section \<open>ffmpeg\<close>

definition run_ffmpeg :: "env \<Rightarrow> bytes \<Rightarrow> string list \<Rightarrow> sys \<Rightarrow> (bytes \<times> string \<times> string option) \<times> sys" where
  "run_ffmpeg E inp args s = (env_ffmpeg E (tick s) inp args, log_effect (EFfmpeg inp args) s)"

definition pcm_args :: "string list" where
  "pcm_args =
     [''-hide_banner'', ''-loglevel'', ''error'', ''-i'', ''pipe:0'', ''-vn'', ''-ac'', ''1'', ''-ar'',
      ''16000'', ''-f'', ''s16le'', ''pipe:1'']"

definition ogg_args :: "string list" where
  "ogg_args =
     [''-hide_banner'', ''-loglevel'', ''error'', ''-i'', ''pipe:0'', ''-vn'', ''-ac'', ''1'', ''-ar'',
      ''48000'', ''-c:a'', ''libopus'', ''-b:a'', ''24k'', ''-application'', ''voip'',
      ''-avoid_negative_ts'', ''make_zero'', ''-f'', ''ogg'', ''pipe:1'']"

definition convert_to_ogg_opus_ffmpeg :: "env \<Rightarrow> bytes \<Rightarrow> sys \<Rightarrow> (string, bytes) outcome \<times> sys" where
  "convert_to_ogg_opus_ffmpeg E inp s =
     (if inp = [] then (Err ''empty audio payload'', s)
      else
        (case run_ffmpeg E inp ogg_args s of
           ((out, errs, Some e), s1) \<Rightarrow> (Err (''ffmpeg run: '' @ e @ '': '' @ trim_space errs), s1)
         | ((out, errs, None), s1) \<Rightarrow>
             if out = [] then (Err ''ffmpeg produced empty output'', s1) else (Ok out, s1)))"

definition convert_to_ogg_opus_ffmpeg_with_waveform ::
  "env \<Rightarrow> bytes \<Rightarrow> sys \<Rightarrow> (string, bytes \<times> 32 word \<times> bytes) outcome \<times> sys" where
  "convert_to_ogg_opus_ffmpeg_with_waveform E inp s =
     (if inp = [] then (Err ''empty audio payload'', s)
      else
        (case run_ffmpeg E inp pcm_args s of
           ((pcm, errs, Some e), s1) \<Rightarrow> (Err (''ffmpeg pcm: '' @ e @ '': '' @ trim_space errs), s1)
         | ((pcm, errs, None), s1) \<Rightarrow>
             if length pcm < 2 then (Err ''ffmpeg pcm output empty'', s1)
             else
               (let xs = bytes_to_int16 pcm; secs = whole_seconds xs; waveform = build_waveform xs in
                case run_ffmpeg E inp ogg_args s1 of
                  ((ogg, errs2, Some e), s2) \<Rightarrow> (Err (''ffmpeg ogg: '' @ e @ '': '' @ trim_space errs2), s2)
                | ((ogg, errs2, None), s2) \<Rightarrow>
                    if ogg = [] then (Err ''ffmpeg produced empty ogg output'', s2)
                    else (Ok (ogg, secs, waveform), s2))))"

section \<open>Duration and MIME type\<close>

fun header_seconds :: "(string \<Rightarrow> string) \<Rightarrow> string list \<Rightarrow> 32 word" where
  "header_seconds hdr [] = 0"
| "header_seconds hdr (k # ks) =
     (if hdr k \<noteq> [] then
        (case parse_float (hdr k) of
           Some (Finite v) \<Rightarrow> if v > 0 then uint32_of (math_round v) else header_seconds hdr ks
         | Some Infinite \<Rightarrow> 0
         | _ \<Rightarrow> header_seconds hdr ks)
      else header_seconds hdr ks)"

definition duration_headers :: "string list" where
  "duration_headers =
     [''X-Duration-Seconds'', ''X-Content-Duration'', ''Content-Duration'', ''X-Audio-Duration'']"

definition pick_seconds :: "32 word option \<Rightarrow> (string \<Rightarrow> string) \<Rightarrow> bool \<Rightarrow> 32 word" where
  "pick_seconds payload hdr ptt =
     (case payload of
        Some p \<Rightarrow> if p > 0 then p else header_seconds hdr duration_headers
      | None \<Rightarrow> header_seconds hdr duration_headers)"

definition should_send_as_ptt :: "string \<Rightarrow> string \<Rightarrow> bool" where
  "should_send_as_ptt link mime =
     (let l = to_lower link; m = to_lower mime in
      has_suffix l ''.ogg'' \<or> has_suffix l ''.oga'' \<or> has_suffix l ''.opus'' \<or>
      contains m ''audio/ogg'' \<or> contains m ''application/ogg'' \<or> contains m ''opus'')"

definition normalize_audio_mime :: "string \<Rightarrow> string \<Rightarrow> bool \<Rightarrow> string" where
  "normalize_audio_mime link mime ptt =
     (let m = to_lower mime in
      if contains m ''mpga'' then ''audio/mpeg''
      else if ptt then ''audio/ogg; codecs=opus'' else mime)"

section \<open>Facts\<close>

definition int16_to_bytes :: "samples \<Rightarrow> bytes" where
  "int16_to_bytes xs = concat (map (\<lambda>w. [char_of (unat w), char_of (unat (drop_bit 8 w))]) xs)"

lemma of_char_word: "(of_char c :: 'a::len word) = of_nat (of_char c)"
  by (simp only: of_nat_of_char)

lemma sample_bytes:
  "(of_char (char_of (unat w)) OR push_bit 8 (of_char (char_of (unat (drop_bit 8 w)))) :: 16 word) = w"
proof -
  have lo: "(of_char (char_of (unat w)) :: 16 word) = take_bit 8 w"
    unfolding of_char_word by (simp add: take_bit_eq_mod word_arith_nat_mod)
  have hi: "(of_char (char_of (unat (drop_bit 8 w))) :: 16 word) = take_bit 8 (drop_bit 8 w)"
    unfolding of_char_word by (simp add: take_bit_eq_mod word_arith_nat_mod)
  show ?thesis
    unfolding lo hi by (rule bit_word_eqI) (auto simp: bit_simps)
qed

text \<open>
  Reading little-endian PCM is the inverse of writing it, and a trailing odd byte is
  dropped.
\<close>

lemma bytes_to_int16_roundtrip:
  "bytes_to_int16 (int16_to_bytes xs) = xs \<and> bytes_to_int16 (int16_to_bytes xs @ [b]) = xs"
  by (induction xs) (simp_all add: int16_to_bytes_def sample_bytes)

lemma sdiv_2_bounds:
  fixes w :: "16 word"
  shows "- 16384 \<le> sint w sdiv 2" "sint w sdiv 2 \<le> 16383"
  using sint_ge [of w] sint_lt [of w] by (auto simp: signed_divide_int_def sgn_if)

lemma clip_idle: "clip (sint l sdiv 2 + sint (r :: 16 word) sdiv 2) = sint (l :: 16 word) sdiv 2 + sint r sdiv 2"
  using sdiv_2_bounds [of l] sdiv_2_bounds [of r] by (simp add: clip_def)

fun pairs :: "'a list \<Rightarrow> ('a \<times> 'a) list" where
  "pairs (x # y # zs) = (x, y) # pairs zs"
| "pairs _ = []"

lemma sint_word_of_int_16: "- 32768 \<le> i \<Longrightarrow> i < 32768 \<Longrightarrow> sint (word_of_int i :: 16 word) = i"
  by (simp add: sint_sbintrunc' signed_take_bit_int_eq_self)

lemma downmix_pairs_average:
  "map sint (downmix_pairs xs) = map (\<lambda>(l, r). sint l sdiv 2 + sint r sdiv 2) (pairs xs)"
proof (induction xs rule: pairs.induct)
  case (1 l r zs)
  then show ?case
    using sdiv_2_bounds [of l] sdiv_2_bounds [of r]
    by (simp add: clip_idle sint_word_of_int_16 del: of_int_add)
qed simp_all

text \<open>
  C28: Downmixing halves each channel towards zero and adds: the result fits 16 bits, so the
  clamps of the code never act and no conversion wraps.
\<close>

theorem downmix_never_clips:
  assumes "2 \<le> length xs"
  shows "map sint (downmix_stereo_to_mono xs) = map (\<lambda>(l, r). sint l sdiv 2 + sint r sdiv 2) (pairs xs)"
  using assms by (simp add: downmix_stereo_to_mono_def downmix_pairs_average)

theorem downmix_never_clips_witness:
  "map sint (downmix_stereo_to_mono [32767, 32767, -5, 0]) = [32766, -2]"
  by (subst downmix_never_clips) (simp_all add: signed_divide_int_def)

lemma sum_amplitudes_nonneg: "0 \<le> sum_amplitudes xs"
proof -
  have "0 \<le> a \<Longrightarrow> 0 \<le> foldl (\<lambda>acc w. fl (acc + \<bar>of_int (sint w)\<bar>)) a xs" for a
    by (induction xs arbitrary: a) (simp_all add: fl_nonneg)
  then show ?thesis by (simp add: sum_amplitudes_def)
qed

lemma average_nonneg: "0 \<le> fl (sum_amplitudes xs / of_nat n)"
  by (simp add: fl_nonneg sum_amplitudes_nonneg)

lemma bar_level_nonneg: "0 \<le> bar_level xs b i"
  by (simp add: bar_level_def Let_def average_nonneg del: length_take length_drop)

lemma running_max:
  fixes m :: rat
  shows "m \<le> foldl (\<lambda>m a. if a > m then a else m) m ls"
    and "\<forall>a \<in> set ls. a \<le> foldl (\<lambda>m a. if a > m then a else m) m ls"
    and "foldl (\<lambda>m a. if a > m then a else m) m ls \<in> insert m (set ls)"
proof (induction ls arbitrary: m)
  case (Cons a ls)
  {
    case 1
    show ?case using Cons(1) [of a] Cons(1) [of m] by (auto intro: order.trans less_imp_le)
  next
    case 2
    show ?case using Cons(1,2) [of a] Cons(1,2) [of m] by (auto intro: order.trans)
  next
    case 3
    show ?case using Cons(3) [of a] Cons(3) [of m] by auto
  }
qed simp_all

lemma nat_of_char_of_int: "0 \<le> n \<Longrightarrow> n < 256 \<Longrightarrow> (of_char (char_of (n :: int)) :: nat) = nat n"
  by (metis of_char_of of_int_of_char of_nat_of_char of_nat_nat nat_int mod_pos_pos_trivial of_int_of_nat_eq)

lemma of_char_bar_byte:
  assumes "0 \<le> level" "level \<le> m" "0 < m"
  shows "(of_char (bar_byte m level) :: nat) \<le> 100"
    and "level = m \<Longrightarrow> (of_char (bar_byte m level) :: nat) = 100"
proof -
  define v where "v = math_round (fl (fl (level / m) * 100))"
  have "0 \<le> fl (level / m)" "fl (level / m) \<le> 1"
    using assms fl_mono [of "level / m" 1] by (auto intro: fl_nonneg)
  then have q: "0 \<le> fl (fl (level / m) * 100)" "fl (fl (level / m) * 100) \<le> 100"
    using fl_mono [of "fl (level / m) * 100" 100] by (auto intro: fl_nonneg simp: fl_numeral)
  have v: "0 \<le> v" "v \<le> 100"
    using math_round_mono [OF q(1)] math_round_mono [OF q(2)] math_round_int [of 0] math_round_int [of 100]
    by (simp_all add: v_def)
  have b: "(of_char (bar_byte m level) :: nat) = nat v"
    using q v by (simp add: bar_byte_def Let_def v_def [symmetric] not_less nat_of_char_of_int)
  show "(of_char (bar_byte m level) :: nat) \<le> 100" using b v by simp
  show "(of_char (bar_byte m level) :: nat) = 100" if "level = m"
    using b assms that math_round_int [of 100] by (simp add: v_def fl_numeral)
qed


text \<open>
  C29: The waveform of any PCM data that is not empty has 64 bars of at most 100, whatever the
  rounding of the floating-point steps does, and is either silent or reaches 100.
\<close>

theorem waveform_bars:
  assumes "xs \<noteq> []"
  shows "length (build_waveform xs) = 64 \<and>
    list_all (\<lambda>c. (of_char c :: nat) \<le> 100) (build_waveform xs) \<and>
    (build_waveform xs = replicate 64 (char_of (0 :: nat)) \<or>
     list_ex (\<lambda>c. (of_char c :: nat) = 100) (build_waveform xs))"
proof -
  define ls where "ls = map (bar_level xs (if length xs div bars = 0 then 1 else length xs div bars)) [0..<bars]"
  define m where "m = foldl (\<lambda>m a. if a > m then a else m) 0 ls"
  have eq: "build_waveform xs = (if m = 0 then replicate bars (char_of (0 :: nat)) else map (bar_byte m) ls)"
    using assms by (simp add: build_waveform_def Let_def ls_def m_def del: map_map)
  have nonneg: "\<forall>l \<in> set ls. 0 \<le> l" by (auto simp: ls_def bar_level_nonneg)
  have top: "0 \<le> m" "\<forall>l \<in> set ls. l \<le> m" "m \<in> insert 0 (set ls)"
    using running_max [where m = 0 and ls = ls] by (auto simp: m_def)
  show ?thesis
  proof (cases "m = 0")
    case True
    then show ?thesis by (simp add: eq bars_def list_all_iff)
  next
    case False
    with top have "0 < m" "m \<in> set ls" by auto
    then have "list_ex (\<lambda>c. (of_char c :: nat) = 100) (map (bar_byte m) ls)"
      by (auto simp: list_ex_iff of_char_bar_byte intro!: bexI [of _ m])
    moreover have "list_all (\<lambda>c. (of_char c :: nat) \<le> 100) (map (bar_byte m) ls)"
      using nonneg top \<open>0 < m\<close> by (auto simp: list_all_iff of_char_bar_byte)
    moreover have "length ls = 64" by (simp add: ls_def bars_def)
    ultimately show ?thesis by (simp add: eq False)
  qed
qed

theorem waveform_bars_witness:
  "length (build_waveform [0, 5, -7]) = 64"
  using waveform_bars [of "[0, 5, -7]"] by simp

lemma frames_eqs:
  "frames [] = []"
  "xs \<noteq> [] \<Longrightarrow> length xs < 320 \<Longrightarrow> frames xs = [xs @ replicate (320 - length xs) 0]"
  "320 \<le> length xs \<Longrightarrow> frames xs = take 320 xs # frames (drop 320 xs)"
  by (subst frames.simps; force simp: opus_frame_samples_def pad_zeros_def frames.simps Let_def)+

lemma frames_cover:
  "list_all (\<lambda>f. length f = 320) (frames xs) \<and>
   (\<exists>k < 320. concat (frames xs) = xs @ replicate k 0)"
proof (induction xs rule: frames.induct)
  case (1 xs)
  consider "xs = []" | "xs \<noteq> []" "length xs < 320" | "320 \<le> length xs" by linarith
  then show ?case
  proof cases
    case 1
    then show ?thesis by (simp add: frames_eqs)
  next
    case 2
    then have "320 - length xs < 320" by (cases xs) auto
    with 2 show ?thesis by (auto simp: frames_eqs)
  next
    case 3
    then have "xs \<noteq> []" by auto
    from 1 [OF this refl] 3 show ?thesis
      by (auto simp: frames_eqs opus_frame_samples_def)
  qed
qed

lemma encode_frames_packets:
  "encode_frames E hist pkts q t fs = Ok out \<Longrightarrow>
   \<exists>new. out = pkts @ new \<and>
     map fst new = map (\<lambda>i. q + of_nat i) [0..<length fs] \<and>
     map (fst \<circ> snd) new = map (\<lambda>i. t + 320 * of_nat i) [0..<length fs] \<and>
     map (\<lambda>p. Inr (snd (snd p))) new =
       map (\<lambda>i. lib_opus_encode E (hist @ take i fs) (fs ! i)) [0..<length fs]"
proof (induction fs arbitrary: hist pkts q t)
  case (Cons f fs)
  from Cons.prems obtain payload where enc: "lib_opus_encode E hist f = Inr payload"
    and rest: "encode_frames E (hist @ [f]) (pkts @ [(q, t, payload)]) (q + 1) (t + of_nat opus_frame_samples) fs = Ok out"
    by (auto split: sum.splits option.splits)
  from Cons.IH [OF rest] obtain new where out: "out = (pkts @ [(q, t, payload)]) @ new"
    and new: "map fst new = map (\<lambda>i. q + 1 + of_nat i) [0..<length fs]"
    "map (fst \<circ> snd) new = map (\<lambda>i. t + of_nat opus_frame_samples + 320 * of_nat i) [0..<length fs]"
    "map (\<lambda>p. Inr (snd (snd p))) new =
       map (\<lambda>i. lib_opus_encode E ((hist @ [f]) @ take i fs) (fs ! i)) [0..<length fs]"
    by blast
  have up: "[0..<Suc (length fs)] = 0 # map Suc [0..<length fs]"
    by (simp add: upt_conv_Cons map_Suc_upt del: upt_Suc)
  show ?case
    using new enc
    by (intro exI [of _ "(q, t, payload) # new"])
      (simp add: out up comp_def opus_frame_samples_def algebra_simps del: upt_Suc)
qed simp


text \<open>
  C30: The packets of the Opus stream: sequence numbers count from 0 and timestamps from 320 in
  steps of 320, both wrapping at their widths; every frame has 320 samples and is encoded after
  the ones before it; together the frames are the samples with fewer than 320 zeros at the end.
\<close>

theorem opus_stream_framing:
  assumes "encode_frames E [] [] 0 (of_nat opus_frame_samples) (frames xs) = Ok pkts"
  shows "map fst pkts = map of_nat [0..<length (frames xs)] \<and>
    map (fst \<circ> snd) pkts = map (\<lambda>i. 320 * of_nat (Suc i)) [0..<length (frames xs)] \<and>
    map (\<lambda>p. Inr (snd (snd p))) pkts =
      map (\<lambda>i. lib_opus_encode E (take i (frames xs)) (frames xs ! i)) [0..<length (frames xs)] \<and>
    list_all (\<lambda>f. length f = 320) (frames xs) \<and>
    (\<exists>k < 320. concat (frames xs) = xs @ replicate k 0)"
  using encode_frames_packets [OF assms] frames_cover [of xs]
  by (auto simp: opus_frame_samples_def algebra_simps)

theorem opus_stream_framing_witness:
  "frames [1, 2] = [[1, 2] @ replicate 318 0] \<and>
   map fst [(0 :: 16 word, 320 :: 32 word, [] :: bytes)] = map of_nat [0..<length (frames [1, 2])]"
proof -
  have one: "frames [1, 2] = [[1, 2] @ replicate 318 0]" by (simp add: frames_eqs)
  have "encode_frames silent_env [] [] 0 (of_nat opus_frame_samples) (frames [1, 2]) = Ok [(0, 320, [])]"
    by (simp add: one silent_env_def opus_frame_samples_def)
  from opus_stream_framing [OF this] one show ?thesis by blast
qed

lemma whole_seconds_pos: "whole_seconds xs \<noteq> 0"
  by (simp add: whole_seconds_def Let_def)

lemma length_build_waveform: "length (build_waveform xs) = (if xs = [] then 0 else 64)"
  by (simp add: build_waveform_def Let_def bars_def)

lemma bytes_to_int16_nonempty: "2 \<le> length b \<Longrightarrow> bytes_to_int16 b \<noteq> []"
  by (cases b rule: bytes_to_int16.cases) auto

lemma mp3_samples_Ok: "mp3_samples E data = Ok xs \<Longrightarrow> 320 \<le> length xs"
  by (auto simp: mp3_samples_def Let_def pad_zeros_def opus_frame_samples_def
      split: if_splits sum.splits prod.splits)

lemma convert_mp3_to_ogg_Ok:
  assumes "convert_mp3_to_ogg E data = Ok (out, secs, wave)"
  shows "secs \<noteq> 0 \<and> length wave = 64"
proof -
  from assms obtain xs where "mp3_samples E data = Ok xs" "secs = whole_seconds xs" "wave = build_waveform xs"
    by (auto simp: convert_mp3_to_ogg_def Let_def)
  with mp3_samples_Ok [of E data xs] show ?thesis
    by (auto simp: whole_seconds_pos length_build_waveform)
qed

lemma convert_mp3_to_ogg_no_panic: "\<not> is_panic (convert_mp3_to_ogg E data)"
proof -
  have "\<not> is_panic (encode_frames E hist pkts q t fs)" for hist pkts q t fs
    by (induction fs arbitrary: hist pkts q t) (auto split: sum.splits option.splits)
  then have "\<not> is_panic (ogg_stream E xs)" for xs
    by (auto simp: ogg_stream_def is_panic_obind split: sum.splits option.splits)
  moreover have "\<not> is_panic (mp3_samples E data)"
    by (auto simp: mp3_samples_def Let_def split: sum.splits)
  ultimately show ?thesis
    by (auto simp: convert_mp3_to_ogg_def Let_def is_panic_obind)
qed

lemma run_ffmpeg_settled [simp]: "settled (snd (run_ffmpeg E d a s)) = settled s"
  by (simp add: run_ffmpeg_def)

lemma ffmpeg_conversion_Ok:
  assumes "convert_to_ogg_opus_ffmpeg_with_waveform E inp s = (Ok (out, secs, wave), s1)"
  shows "secs \<noteq> 0 \<and> length wave = 64 \<and> out \<noteq> []"
  using assms bytes_to_int16_nonempty [of "fst (env_ffmpeg E (tick s) inp pcm_args)"]
  by (auto simp: convert_to_ogg_opus_ffmpeg_with_waveform_def run_ffmpeg_def Let_def whole_seconds_pos
      length_build_waveform not_less split: if_splits prod.splits option.splits)

lemma ffmpeg_conversion_frame:
  "settled (snd (convert_to_ogg_opus_ffmpeg_with_waveform E inp s)) = settled s \<and>
   \<not> is_panic (fst (convert_to_ogg_opus_ffmpeg_with_waveform E inp s))"
  by (auto simp: convert_to_ogg_opus_ffmpeg_with_waveform_def run_ffmpeg_def Let_def
      split: prod.splits option.splits)


lemma resample_same_rate: "resample_linear_int16 xs r r = xs"
  by (simp add: resample_linear_int16_def)

lemma pick_seconds_payload: "p \<noteq> 0 \<Longrightarrow> pick_seconds (Some p) hdr ptt = p"
  by (simp add: pick_seconds_def word_gt_0)

end
