(* ===== verification/VCard.thy ===== *)
theory VCard
  imports Jids Json Messages Requests
begin

text \<open>
  Contact cards: the vCards that \<open>Send\<close> builds for a contacts message
  (internal/provider/send.go) and \<open>parseVCard\<close>, which reads the cards of incoming messages
  (internal/provider/events.go), with the round trip from the one to the other.
\<close>

section \<open>Building\<close>

definition contact_name :: "contact_entry \<Rightarrow> string" where
  "contact_name c =
     (let name = trim_space (cn_formatted_name c) in if name = [] then ''Contact'' else name)"

fun tel_lines :: "contact_phone list \<Rightarrow> string list" where
  "tel_lines [] = []"
| "tel_lines (p # ps) =
     (let phone = trim_space (cp_phone p); waid = trim_space (cp_wa_id p) in
      if phone = [] then tel_lines ps
      else
        (if waid \<noteq> [] then ''TEL;type=CELL;type=VOICE;waid='' @ waid @ '':'' @ phone
         else ''TEL;type=CELL;type=VOICE:'' @ phone) # tel_lines ps)"

definition newline :: string where
  "newline = [CHR 0x0A]"

definition vcard_text :: "string \<Rightarrow> string list \<Rightarrow> string" where
  "vcard_text name tels =
     ''BEGIN:VCARD'' @ newline @ ''VERSION:3.0'' @ newline @ ''N:'' @ name @ newline @
     join newline tels @ newline @ ''END:VCARD''"

fun contact_messages :: "contact_entry list \<Rightarrow> contact_message list" where
  "contact_messages [] = []"
| "contact_messages (c # cs) =
     (let name = contact_name c; tels = tel_lines (cn_phones c) in
      if tels = [] then contact_messages cs
      else \<lparr>co_display_name = Some name, co_vcard = Some (vcard_text name tels)\<rparr> # contact_messages cs)"

text \<open>The display name is that of the first entry, also when that entry has no telephone number.\<close>

definition contacts_array :: "contact_entry list \<Rightarrow> (string, contacts_array_message) outcome" where
  "contacts_array cs =
     (case cs of
        [] \<Rightarrow> Err ''contacts requires at least one contact entry''
      | c # _ \<Rightarrow>
          if contact_messages cs = [] then Err ''contacts payload has no valid phone entries''
          else Ok \<lparr>ca_display_name = Some (contact_name c), ca_contacts = contact_messages cs\<rparr>)"

section \<open>Parsing\<close>

text \<open>What the lines gave so far: the FN name, the formatted N name, the telephone entries.\<close>

type_synonym vcard_state = "string \<times> string \<times> json list"

definition formatted_name :: "string \<Rightarrow> string" where
  "formatted_name raw =
     (let parts = split_on (CHR '';'') raw;
          family = (if length parts > 1 then trim_space (parts ! 0) else []);
          given = (if length parts > 1 then trim_space (parts ! 1)
                   else if length parts = 1 then trim_space (parts ! 0) else []) in
      if given \<noteq> [] \<and> family \<noteq> [] then trim_space (given @ '' '' @ family)
      else if given \<noteq> [] then given
      else if family \<noteq> [] then family
      else raw)"

text \<open>
  The \<open>waid\<close> parameter: its place is looked up in the lower-cased line and used in the line
  itself, so the slice can lie beyond the end of the line.
\<close>

definition waid_parameter :: "string \<Rightarrow> (string, string) outcome" where
  "waid_parameter s =
     (case index_of (to_lower s) ''waid='' of
        None \<Rightarrow> Ok []
      | Some i \<Rightarrow>
          (case slice_from s (i + 5) of
             None \<Rightarrow> Panic ''slice bounds out of range''
           | Some rest \<Rightarrow>
               (case index_any rest '';:'' of
                  Some j \<Rightarrow> Ok (trim_space (take j rest))
                | None \<Rightarrow> Ok (trim_space rest))))"

definition br_digits :: "string \<Rightarrow> string" where
  "br_digits text =
     (let d = digits_only text in
      if length d \<ge> 2 \<and> has_prefix d ''55'' then jid_to_phone_number_digits d True else d)"

definition tel_entry :: "string \<Rightarrow> string \<Rightarrow> json list" where
  "tel_entry phone waid =
     (let d_phone = br_digits phone; d_waid = br_digits waid;
          number = (if trim_space d_phone = [] \<and> trim_space d_waid \<noteq> [] then d_waid else d_phone) in
      if trim_space number = [] then []
      else [JObj ((''phone'', JStr number) # (if d_waid \<noteq> [] then [(''wa_id'', JStr d_waid)] else []))])"

definition tel_phone :: "string \<Rightarrow> string" where
  "tel_phone s =
     (case last_index_byte s (CHR '':'') of
        Some c \<Rightarrow> if c + 1 < length s then trim_space (drop (c + 1) s) else []
      | None \<Rightarrow> [])"

definition vcard_line :: "vcard_state \<Rightarrow> string \<Rightarrow> (string, vcard_state) outcome" where
  "vcard_line cst line =
     (case cst of
        (fn', nf, phones) \<Rightarrow>
          (let s = trim_space line; upper = to_upper s;
               prop = (case index_of upper '':'' of None \<Rightarrow> upper | Some k \<Rightarrow> take k upper) in
           if s = [] then Ok cst
           else if has_prefix upper ''N:'' then
             Ok (fn', formatted_name (trim_space (drop 2 s)), phones)
           else if has_prefix upper ''FN:'' then Ok (trim_space (drop 3 s), nf, phones)
           else if contains prop ''TEL'' then
             obind (waid_parameter s) (\<lambda>waid. Ok (fn', nf, phones @ tel_entry (tel_phone s) waid))
           else Ok cst))"

fun vcard_lines :: "vcard_state \<Rightarrow> string list \<Rightarrow> (string, vcard_state) outcome" where
  "vcard_lines cst [] = Ok cst"
| "vcard_lines cst (line # rest) = obind (vcard_line cst line) (\<lambda>cst'. vcard_lines cst' rest)"

definition parse_vcard :: "string \<Rightarrow> (string, string \<times> json list) outcome" where
  "parse_vcard v =
     (if trim_space v = [] then Ok ([], [])
      else
        obind (vcard_lines ([], [], []) (split_on (CHR 0x0A) v)) (\<lambda>(fn', nf, phones).
          let name = trim_space fn' in
          Ok (if name = [] then trim_space nf else name, phones)))"

section \<open>The round trip\<close>

text \<open>Telephone numbers as people write them, and names that fit on an N line.\<close>

definition phone_byte :: "char \<Rightarrow> bool" where
  "phone_byte c = (is_digit c \<or> c \<in> set ''+-() '')"

definition phone_text :: "string \<Rightarrow> bool" where
  "phone_text p = (list_all phone_byte p \<and> digits_only p \<noteq> [])"

definition name_text :: "string \<Rightarrow> bool" where
  "name_text n = (trim_space n \<noteq> [] \<and> CHR 0x0A \<notin> set n \<and> CHR '';'' \<notin> set n)"

definition plain_phone :: "contact_phone \<Rightarrow> bool" where
  "plain_phone p = (phone_text (cp_phone p) \<and> list_all is_digit (cp_wa_id p))"

text \<open>The telephone entry that the reader reports for one that the sender wrote.\<close>

definition reported_phone :: "contact_phone \<Rightarrow> json" where
  "reported_phone p =
     JObj ((''phone'', JStr (br_digits (cp_phone p))) #
           (if cp_wa_id p \<noteq> [] then [(''wa_id'', JStr (br_digits (cp_wa_id p)))] else []))"

lemma index_of_fresh:
  "hd sub \<notin> set a \<Longrightarrow> sub \<noteq> [] \<Longrightarrow> index_of (a @ sub @ b) sub = Some (length a)"
proof (induction a)
  case Nil
  then show ?case by (cases sub) (auto simp: has_prefix_def)
next
  case (Cons x a)
  then show ?case by (cases sub) (auto simp: has_prefix_def)
qed

lemma index_of_byte: "c \<notin> set a \<Longrightarrow> index_of (a @ c # b) [c] = Some (length a)"
  using index_of_fresh [of "[c]" a b] by simp

lemma index_of_absent: "hd sub \<notin> set s \<Longrightarrow> sub \<noteq> [] \<Longrightarrow> index_of s sub = None"
  using contains_iff [of s sub] by (cases sub) (auto simp: contains_def)

lemma spaces_all_invisible: "w \<in> set spaces \<Longrightarrow> c \<in> set w \<Longrightarrow> \<not> visible c"
  by (auto simp: spaces_def wide_spaces_def ascii_spaces_def visible_def)

lemma trim_space_marked:
  assumes n: "trim_space n = n" "n \<noteq> []" and a: "list_all visible a" "a \<noteq> []"
  shows "trim_space (a @ n) = a @ n"
proof (rule trim_space_unchanged)
  fix w r
  assume w: "w \<in> set spaces"
  from spaces_not_visible [OF w] a show "a @ n \<noteq> w @ r" by (cases w; cases a) auto
  show "a @ n \<noteq> r @ w"
  proof
    assume "a @ n = r @ w"
    then consider us where "n = us @ w" | us where "a = r @ us" "w = us @ n" "us \<noteq> []"
      by (auto simp: append_eq_append_conv2) (metis append_Nil self_append_conv)
    then show False
    proof cases
      case 1
      with trim_space_back [OF w, of n us] n show False by simp
    next
      case 2
      then obtain c where "c \<in> set us" by (cases us) auto
      with 2 a spaces_all_invisible [OF w, of c] show False by (auto simp: list_all_iff)
    qed
  qed
qed

lemma to_upper_append: "to_upper (a @ b) = to_upper a @ to_upper b"
  by (simp add: to_upper_def)

lemma vcard_line_name:
  assumes "name_text n"
  shows "vcard_line (fn', nf, ph) (''N:'' @ trim_space n) = Ok (fn', trim_space n, ph)"
proof -
  let ?n = "trim_space n"
  have "trim_space (''N:'' @ ?n) = ''N:'' @ ?n"
    using assms by (intro trim_space_marked) (simp_all add: name_text_def visible_def)
  moreover have "split_on (CHR '';'') ?n = [?n]"
    using assms set_trim_space [of n] by (intro split_on_not_mem) (auto simp: name_text_def)
  ultimately show ?thesis
    using assms
    by (simp add: vcard_line_def Let_def to_upper_def upper_byte_def has_prefix_def formatted_name_def name_text_def)
qed

lemma digit_bytes:
  "is_digit c \<Longrightarrow> lower_byte c = c" "is_digit c \<Longrightarrow> is_ascii c" "is_digit c \<Longrightarrow> upper_byte c = c"
  by (simp_all add: is_digit_def lower_byte_def upper_byte_def is_ascii_def Let_def)

lemma phone_byte_lower: "phone_byte c \<Longrightarrow> lower_byte c = c \<and> is_ascii c"
  using digit_bytes [of c] by (auto simp: phone_byte_def lower_byte_def is_ascii_def)

lemma phone_byte_not:
  "\<not> phone_byte (CHR '':'')" "\<not> phone_byte (CHR ''w'')" "\<not> phone_byte (CHR 0x0A)"
  by (simp_all add: phone_byte_def is_digit_def)

lemma not_mem_phone: "list_all phone_byte q \<Longrightarrow> \<not> phone_byte c \<Longrightarrow> c \<notin> set q"
  by (auto simp: list_all_iff)

lemma card_letters:
  "lower_byte (CHR ''T'') = CHR ''t''" "lower_byte (CHR ''E'') = CHR ''e''"
  "lower_byte (CHR ''L'') = CHR ''l''" "lower_byte (CHR ''C'') = CHR ''c''"
  "lower_byte (CHR ''V'') = CHR ''v''" "lower_byte (CHR ''O'') = CHR ''o''"
  "lower_byte (CHR ''I'') = CHR ''i''" "lower_byte (CHR ''t'') = CHR ''t''"
  "lower_byte (CHR ''y'') = CHR ''y''" "lower_byte (CHR ''p'') = CHR ''p''"
  "lower_byte (CHR ''e'') = CHR ''e''" "lower_byte (CHR ''='') = CHR ''=''"
  "lower_byte (CHR '';'') = CHR '';''" "lower_byte (CHR ''w'') = CHR ''w''"
  "lower_byte (CHR ''a'') = CHR ''a''" "lower_byte (CHR ''i'') = CHR ''i''"
  "lower_byte (CHR ''d'') = CHR ''d''" "lower_byte (CHR '':'') = CHR '':''"
  "upper_byte (CHR ''T'') = CHR ''T''" "upper_byte (CHR ''E'') = CHR ''E''"
  "upper_byte (CHR ''L'') = CHR ''L''" "upper_byte (CHR ''C'') = CHR ''C''"
  "upper_byte (CHR ''V'') = CHR ''V''" "upper_byte (CHR ''O'') = CHR ''O''"
  "upper_byte (CHR ''I'') = CHR ''I''" "upper_byte (CHR ''t'') = CHR ''T''"
  "upper_byte (CHR ''y'') = CHR ''Y''" "upper_byte (CHR ''p'') = CHR ''P''"
  "upper_byte (CHR ''e'') = CHR ''E''" "upper_byte (CHR ''='') = CHR ''=''"
  "upper_byte (CHR '';'') = CHR '';''" "upper_byte (CHR ''w'') = CHR ''W''"
  "upper_byte (CHR ''a'') = CHR ''A''" "upper_byte (CHR ''i'') = CHR ''I''"
  "upper_byte (CHR ''d'') = CHR ''D''" "upper_byte (CHR '':'') = CHR '':''"
  by code_simp+

lemma waid_parameter_line:
  assumes q: "list_all phone_byte q" and w: "list_all is_digit w"
  shows "waid_parameter (''TEL;type=CELL;type=VOICE'' @ (if w \<noteq> [] then '';waid='' @ w else []) @ '':'' @ q) = Ok w"
proof -
  have bytes: "list_all is_ascii q" "list_all is_ascii w" "map lower_byte q = q" "map lower_byte w = w"
    using q w phone_byte_lower digit_bytes by (auto simp: list_all_iff intro!: map_idI)
  then have low: "list_all is_ascii (''TEL;type=CELL;type=VOICE'' @ (if w \<noteq> [] then '';waid='' @ w else []) @ '':'' @ q)"
    by (simp add: is_ascii_def)
  from bytes have lower: "to_lower (''TEL;type=CELL;type=VOICE'' @ (if w \<noteq> [] then '';waid='' @ w else []) @ '':'' @ q)
     = ''tel;type=cell;type=voice'' @ (if w \<noteq> [] then '';waid='' @ w else []) @ '':'' @ q"
    unfolding to_lower_ascii [OF low] using bytes by (simp add: card_letters)
  show ?thesis
  proof (cases "w = []")
    case True
    have "index_of (''tel;type=cell;type=voice'' @ '':'' @ q) ''waid='' = None"
      using not_mem_phone [OF q phone_byte_not(2)] by (intro index_of_absent) simp_all
    with True lower show ?thesis by (simp add: waid_parameter_def)
  next
    case False
    have "index_of (''tel;type=cell;type=voice;'' @ ''waid='' @ w @ '':'' @ q) ''waid='' = Some 25"
      by (subst index_of_fresh) simp_all
    moreover have "index_any (w @ CHR '':'' # q) '';:'' = Some (length w)"
      using w by (intro index_any_append) (auto simp: list_all_iff is_digit_def)
    ultimately show ?thesis using False lower w
      by (simp add: waid_parameter_def slice_from_def go_simps)
  qed
qed


lemma digits_of_phone: "list_all is_digit n \<Longrightarrow> list_all is_digit (jid_to_phone_number_digits n b)"
  by (auto simp: jid_to_phone_number_digits_def Let_def is_digit_def list_all_iff
      dest: in_set_takeD in_set_dropD)

lemma phone_digits_Nil: "jid_to_phone_number_digits n b = [] \<longleftrightarrow> n = []"
  by (auto simp: jid_to_phone_number_digits_def Let_def)

lemma br_digits_Nil: "br_digits t = [] \<longleftrightarrow> digits_only t = []"
  by (simp add: br_digits_def Let_def phone_digits_Nil)

lemma trim_br_digits [simp]: "trim_space (br_digits t) = br_digits t"
  by (simp add: br_digits_def Let_def digits_of_phone trim_space_digits)

lemma br_digits_trim: "br_digits (trim_space t) = br_digits t"
  by (simp add: br_digits_def digits_only_trim)

lemma vcard_line_tel:
  assumes s: "trim_space (pre @ CHR '':'' # q) = pre @ CHR '':'' # q"
    and colon: "CHR '':'' \<notin> set (to_upper pre)" and tel: "contains (to_upper pre) ''TEL''"
    and other: "\<not> has_prefix (to_upper (pre @ CHR '':'' # q)) ''N:''"
      "\<not> has_prefix (to_upper (pre @ CHR '':'' # q)) ''FN:''"
    and waid: "waid_parameter (pre @ CHR '':'' # q) = Ok w"
    and q: "CHR '':'' \<notin> set q" "q \<noteq> []" "trim_space q = q"
  shows "vcard_line (fn', nf, ph) (pre @ CHR '':'' # q) = Ok (fn', nf, ph @ tel_entry q w)"
proof -
  have up: "to_upper (pre @ CHR '':'' # q) = to_upper pre @ CHR '':'' # to_upper q"
    by (simp add: to_upper_def card_letters)
  have "index_of (to_upper (pre @ CHR '':'' # q)) '':'' = Some (length (to_upper pre))"
    unfolding up by (rule index_of_byte [OF colon])
  moreover have "tel_phone (pre @ CHR '':'' # q) = q"
    using last_index_byte_append [OF q(1), of pre] q by (simp add: tel_phone_def)
  moreover have "take (length (to_upper pre)) (to_upper (pre @ CHR '':'' # q)) = to_upper pre"
    unfolding up by simp
  ultimately show ?thesis
    using tel other waid by (simp add: vcard_line_def s Let_def)
qed

definition tel_line :: "contact_phone \<Rightarrow> string" where
  "tel_line p = ''TEL;type=CELL;type=VOICE'' @
      (if cp_wa_id p \<noteq> [] then '';waid='' @ cp_wa_id p else []) @ CHR '':'' # trim_space (cp_phone p)"

lemma tel_line_parsed:
  assumes "plain_phone p"
  shows "vcard_line (fn', nf, ph) (tel_line p) =
    Ok (fn', nf, ph @ [reported_phone p])"
proof -
  let ?q = "trim_space (cp_phone p)"
  let ?w = "cp_wa_id p"
  define pre where "pre = ''TEL;type=CELL;type=VOICE'' @ (if ?w \<noteq> [] then '';waid='' @ ?w else [])"
  have w: "list_all is_digit ?w" and digits: "digits_only (cp_phone p) \<noteq> []"
    and bytes: "list_all phone_byte (cp_phone p)"
    using assms by (auto simp: plain_phone_def phone_text_def)
  have q: "list_all phone_byte ?q" using bytes set_trim_space [of "cp_phone p"] by (auto simp: list_all_iff)
  have ne: "?q \<noteq> []" using digits digits_only_trim [of "cp_phone p"] by (auto simp: digits_only_def)
  have "list_all visible (pre @ '':'')"
    using digits_visible [OF w] by (simp add: visible_def pre_def)
  then have s: "trim_space (pre @ CHR '':'' # ?q) = pre @ CHR '':'' # ?q"
    using ne trim_space_marked [of ?q "pre @ '':''"] by simp
  have "to_upper ?w = ?w" using w digit_bytes(3) by (auto simp: to_upper_def list_all_iff intro!: map_idI)
  then have up: "to_upper pre = ''TEL;TYPE=CELL;TYPE=VOICE'' @ (if ?w \<noteq> [] then '';WAID='' @ ?w else [])"
    by (simp add: to_upper_def card_letters pre_def)
  have colon: "CHR '':'' \<notin> set (to_upper pre)"
    unfolding up using w by (auto simp: list_all_iff is_digit_def)
  have tel: "contains (to_upper pre) ''TEL''"
    unfolding contains_iff up by (rule exI [of _ "[]"]) simp
  have other: "\<not> has_prefix (to_upper (pre @ CHR '':'' # ?q)) ''N:''"
    "\<not> has_prefix (to_upper (pre @ CHR '':'' # ?q)) ''FN:''"
    by (simp_all add: to_upper_append up has_prefix_def)
  have waid: "waid_parameter (pre @ CHR '':'' # ?q) = Ok ?w"
    using waid_parameter_line [OF q w] by (simp add: pre_def)
  have entry: "tel_entry ?q ?w = [reported_phone p]"
    using digits w by (simp add: tel_entry_def Let_def reported_phone_def br_digits_trim br_digits_Nil go_simps)
  from vcard_line_tel [OF s colon tel other waid not_mem_phone [OF q phone_byte_not(1)] ne] entry
  show ?thesis by (simp add: pre_def tel_line_def)
qed

lemma tel_lines_plain: "list_all plain_phone ps \<Longrightarrow> tel_lines ps = map tel_line ps"
proof (induction ps)
  case (Cons p ps)
  have "trim_space (cp_phone p) \<noteq> []"
    using Cons.prems digits_only_trim [of "cp_phone p"] by (auto simp: plain_phone_def phone_text_def digits_only_def)
  with Cons show ?case by (simp add: plain_phone_def Let_def go_simps tel_line_def)
qed simp

lemma vcard_lines_append:
  "vcard_lines c (xs @ ys) = obind (vcard_lines c xs) (\<lambda>c'. vcard_lines c' ys)"
proof (induction xs arbitrary: c)
  case (Cons x xs)
  then show ?case by (cases "vcard_line c x") simp_all
qed simp

lemma vcard_lines_tel:
  "list_all plain_phone ps \<Longrightarrow>
   vcard_lines (fn', nf, ph) (map tel_line ps) = Ok (fn', nf, ph @ map reported_phone ps)"
  by (induction ps arbitrary: ph) (simp_all add: tel_line_parsed)

lemma frame_lines:
  "vcard_line c ''BEGIN:VCARD'' = Ok c" "vcard_line c ''VERSION:3.0'' = Ok c"
  "vcard_line c ''END:VCARD'' = Ok c"
proof -
  have "vcard_line (a, b, d) ''BEGIN:VCARD'' = Ok (a, b, d)" "vcard_line (a, b, d) ''VERSION:3.0'' = Ok (a, b, d)"
    "vcard_line (a, b, d) ''END:VCARD'' = Ok (a, b, d)" for a b d
    by code_simp+
  then show "vcard_line c ''BEGIN:VCARD'' = Ok c" "vcard_line c ''VERSION:3.0'' = Ok c"
    "vcard_line c ''END:VCARD'' = Ok c" by (cases c; simp)+
qed

lemma tel_line_no_newline:
  assumes "plain_phone p"
  shows "CHR 0x0A \<notin> set (tel_line p)"
proof -
  have "CHR 0x0A \<notin> set (trim_space (cp_phone p))"
    using assms set_trim_space [of "cp_phone p"] phone_byte_not(3)
    by (auto simp: plain_phone_def phone_text_def list_all_iff)
  with assms show ?thesis
    by (auto simp: tel_line_def plain_phone_def list_all_iff is_digit_def)
qed

lemma vcard_text_lines:
  "tels \<noteq> [] \<Longrightarrow> vcard_text n tels =
   join newline ([''BEGIN:VCARD'', ''VERSION:3.0'', ''N:'' @ n] @ tels @ [''END:VCARD''])"
proof -
  have "join sep (xs @ [y]) = join sep xs @ sep @ y" if "xs \<noteq> []" for sep y and xs :: "string list"
    using that by (induction sep xs rule: join.induct) auto
  then show "tels \<noteq> [] \<Longrightarrow> ?thesis" by (simp add: vcard_text_def join_Cons)
qed

lemma vcard_read_back:
  assumes name: "name_text (cn_formatted_name c)" and phones: "cn_phones c \<noteq> []" "list_all plain_phone (cn_phones c)"
  shows "parse_vcard (vcard_text (contact_name c) (tel_lines (cn_phones c))) =
    Ok (trim_space (cn_formatted_name c), map reported_phone (cn_phones c))"
proof -
  let ?n = "trim_space (cn_formatted_name c)"
  let ?ls = "[''BEGIN:VCARD'', ''VERSION:3.0'', ''N:'' @ ?n] @ tel_lines (cn_phones c) @ [''END:VCARD'']"
  have n: "contact_name c = ?n" using name by (simp add: contact_name_def Let_def name_text_def)
  have tels: "tel_lines (cn_phones c) \<noteq> []" using phones by (simp add: tel_lines_plain)
  have "CHR 0x0A \<notin> set x" if "x \<in> set ?ls" for x
    using that name phones(2) tel_line_no_newline set_trim_space [of "cn_formatted_name c"]
    by (auto simp: tel_lines_plain list_all_iff name_text_def)
  then have ls: "split_on (CHR 0x0A) (vcard_text ?n (tel_lines (cn_phones c))) = ?ls"
    unfolding vcard_text_lines [OF tels] newline_def by (intro split_on_join) auto
  have parsed: "vcard_lines ([], [], []) ?ls = Ok ([], ?n, map reported_phone (cn_phones c))"
    using phones vcard_line_name [OF name] by (simp add: tel_lines_plain frame_lines vcard_lines_append vcard_lines_tel)
  moreover have "trim_space (vcard_text ?n (tel_lines (cn_phones c))) \<noteq> []"
    by (subst trim_space_visible) (simp_all add: vcard_text_def visible_def)
  ultimately show ?thesis using name unfolding parse_vcard_def n ls parsed by (simp add: name_text_def)
qed


definition example_contact :: contact_entry where
  "example_contact = \<lparr>cn_formatted_name = ''Ana Maria'', cn_phones =
     [\<lparr>cp_phone = ''+55 62 8172-8088'', cp_wa_id = ''556281728088''\<rparr>]\<rparr>"

text \<open>A short line that makes the parser panic: its lower case is longer than the line.\<close>

definition growing_card :: string where
  "growing_card = ''TEL;'' @ [CHR 0xC8, CHR 0xBA] @ ''waid=''"

lemma growing_card_panics: "parse_vcard growing_card = Panic ''slice bounds out of range''"
  by code_simp

end
