(* ===== verification/Broker.thy ===== *)
theory Broker
  imports World
begin

text \<open>
  Delivery of webhooks: the publisher of internal/broker/publisher.go (connection and channel
  kept, reconnected on demand), the session status writer of internal/status/status.go, and
  \<open>deliverWebhook\<close> of internal/provider/events.go, which publishes over AMQP and falls back to
  an HTTP post.

  What the emitters of webhooks rely on is the locale \<open>webhook_sink\<close>; \<open>deliver_webhook\<close> is its
  instance.
\<close>

section \<open>Session status\<close>

definition status_init :: "(string \<Rightarrow> bool) \<Rightarrow> string \<Rightarrow> sys \<Rightarrow> sys" where
  \<comment> \<open>\<open>url_ok\<close> is whether \<open>redis.ParseURL\<close> accepts a URL\<close>
  "status_init url_ok redis_url s =
     (if trim_space redis_url = [] then s\<lparr>status_mgr := False\<rparr>
      else if \<not> url_ok redis_url then s\<lparr>status_mgr := False\<rparr>
      else s\<lparr>status_mgr := True\<rparr>)"

definition status_prefix :: string where
  "status_prefix = ''unoapi-status:''"

definition status_set :: "string \<Rightarrow> string \<Rightarrow> sys \<Rightarrow> sys" where
  "status_set session_id val s =
     (if \<not> status_mgr s then s
      else
        (let phone = digits_only session_id in
         if phone = [] then s
         else log_effect (ESetStatus (status_prefix @ phone) (trim_space val)) s))"

section \<open>Marshalling\<close>

text \<open>\<open>json.Marshal\<close> of the values built here fails on a float64 that is not finite only.\<close>

fun float_finite :: "float_value \<Rightarrow> bool" where
  "float_finite (Finite r) = True"
| "float_finite _ = False"

fun marshal_ok :: "json \<Rightarrow> bool" where
  "marshal_ok (JFloat w) = float_finite w"
| "marshal_ok (JArr xs) = list_all marshal_ok xs"
| "marshal_ok (JObj kvs) = list_all (\<lambda>(k, v). marshal_ok v) kvs"
| "marshal_ok _ = True"

section \<open>The publisher\<close>

text \<open>
  \<open>ensure\<close>: an open connection with a channel is kept as it is; otherwise a new connection and
  channel replace them once the exchange has been declared. A failure leaves the old fields.
\<close>

definition reconnect :: "env \<Rightarrow> string \<Rightarrow> publisher \<Rightarrow> sys \<Rightarrow> string option \<times> publisher \<times> sys" where
  "reconnect E url p s =
     (case amqp_dial E url s of
        (Inl e, s1) \<Rightarrow> (Some (''dial amqp: '' @ e), p, s1)
      | (Inr conn, s1) \<Rightarrow>
          (case amqp_channel E conn s1 of
             (Inl e, s2) \<Rightarrow> (Some (''open channel: '' @ e), p, log_effect (EAmqpClose conn) s2)
           | (Inr ch, s2) \<Rightarrow>
               (case amqp_declare E ch (pb_exchange p) ''direct'' s2 of
                  (Some e, s3) \<Rightarrow>
                    (Some (''declare exchange: '' @ e), p, log_effect (EAmqpClose conn) (log_effect (EChanClose ch) s3))
                | (None, s3) \<Rightarrow> (None, p\<lparr>pb_conn := Some conn, pb_ch := Some ch\<rparr>, s3))))"

definition ensure :: "env \<Rightarrow> publisher \<Rightarrow> sys \<Rightarrow> string option \<times> publisher \<times> sys" where
  "ensure E p s =
     (if pb_amqp_url p = None \<or> pb_amqp_url p = Some [] then
        (Some ''AMQP URL not configured'', p, s)
      else
        (case pb_conn p of
           None \<Rightarrow> reconnect E (str_of (pb_amqp_url p)) p s
         | Some c \<Rightarrow>
             (case amqp_is_closed E c s of
                (shut, s1) \<Rightarrow>
                  if \<not> shut \<and> pb_ch p \<noteq> None then (None, p, s1)
                  else reconnect E (str_of (pb_amqp_url p)) p (log_effect (EAmqpClose c) s1))))"

definition init_webhook_publisher ::
  "env \<Rightarrow> string option \<Rightarrow> string \<Rightarrow> sys \<Rightarrow> string option \<times> sys" where
  "init_webhook_publisher E cfg_url exchange s =
     (if webhook_pub_once s then (None, s)
      else
        (let p = \<lparr>pb_amqp_url = cfg_url, pb_exchange = exchange, pb_conn = None, pb_ch = None\<rparr>;
             (err, p', s') = ensure E p (s\<lparr>webhook_pub_once := True\<rparr>) in
         (err, s'\<lparr>webhook_pub := Some p'\<rparr>)))"

definition publish_webhook ::
  "env \<Rightarrow> string \<Rightarrow> json \<Rightarrow> sys \<Rightarrow> (string, unit) outcome \<times> sys" where
  "publish_webhook E routing_key payload s =
     (case webhook_pub s of
        None \<Rightarrow> (Err ''webhook publisher not initialised'', s)
      | Some p \<Rightarrow>
          (case ensure E p s of
             (Some e, p', s1) \<Rightarrow> (Err e, s1\<lparr>webhook_pub := Some p'\<rparr>)
           | (None, p', s1) \<Rightarrow>
               (let s2 = s1\<lparr>webhook_pub := Some p'\<rparr>; body = JObj [(''payload'', payload)] in
                if \<not> marshal_ok body then (Err ''marshal payload'', s2)
                else
                  (case pb_ch p' of
                     None \<Rightarrow> (Panic ''nil channel'', s2)
                   | Some ch \<Rightarrow>
                       (case amqp_publish E ch (pb_exchange p') routing_key body s2 of
                          (Some e, s3) \<Rightarrow> (Err (''publish: '' @ e), s3)
                        | (None, s3) \<Rightarrow> (Ok (), s3))))))"

section \<open>Delivery\<close>

definition webhook_url :: "sys \<Rightarrow> string \<Rightarrow> string" where
  "webhook_url s session_id = trim_right_byte (CHR ''/'') (m_webhook_base s) @ ''/'' @ session_id"

definition deliver_webhook ::
  "env \<Rightarrow> string \<Rightarrow> json \<Rightarrow> sys \<Rightarrow> (string, unit) outcome \<times> sys" where
  "deliver_webhook E session_id payload s =
     (case publish_webhook E (normalize_phone session_id) payload s of
        (Ok _, s1) \<Rightarrow> (Ok (), s1)
      | (Panic r, s1) \<Rightarrow> (Panic r, s1)
      | (Err e, s1) \<Rightarrow>
          if m_webhook_base s1 = [] then (Ok (), s1)
          else
            (let url = webhook_url s1 session_id in
             if \<not> marshal_ok payload then (Err ''marshal'', s1)
             else
               (case env_request_error E url of
                  Some e' \<Rightarrow> (Err e', s1)
                | None \<Rightarrow> (Ok (), log_effect (EHttpPost url payload) s1))))"

text \<open>The webhooks among the effects: transport, address and payload.\<close>

datatype delivery = ByAmqp string string json | ByHttp string json

fun delivery_of :: "effect \<Rightarrow> delivery list" where
  "delivery_of (EPublish ex rk (JObj [(k, p)])) = [ByAmqp ex rk p]"
| "delivery_of (EHttpPost url p) = [ByHttp url p]"
| "delivery_of _ = []"

definition deliveries :: "effect list \<Rightarrow> delivery list" where
  "deliveries es = concat (map delivery_of es)"

lemma deliveries_append [simp]: "deliveries (xs @ ys) = deliveries xs @ deliveries ys"
  by (simp add: deliveries_def)

lemma deliveries_simps [simp]:
  "deliveries [] = []" "deliveries (x # xs) = delivery_of x @ deliveries xs"
  by (simp_all add: deliveries_def)

fun payload_of :: "delivery \<Rightarrow> json" where
  "payload_of (ByAmqp ex rk p) = p"
| "payload_of (ByHttp url p) = p"


section \<open>The sink contract\<close>

text \<open>A delivery reaches the address of its session: the routing key is its digits.\<close>

fun addressed :: "string \<Rightarrow> delivery \<Rightarrow> bool" where
  "addressed session_id (ByAmqp ex rk p) = (rk = digits_only session_id)"
| "addressed session_id (ByHttp url p) = has_suffix url (''/'' @ session_id)"

locale webhook_sink =
  fixes deliver :: "string \<Rightarrow> json \<Rightarrow> 's \<Rightarrow> (string, unit) outcome \<times> 's"
    and sent :: "'s \<Rightarrow> delivery list"
    and core :: "'s \<Rightarrow> 'c"
  assumes no_panic: "\<not> is_panic (fst (deliver sid p s))"
    and core_kept: "core (snd (deliver sid p s)) = core s"
    and at_most_once:
      "\<exists>ds. sent (snd (deliver sid p s)) = sent s @ ds \<and> length ds \<le> 1 \<and>
         (\<forall>d \<in> set ds. payload_of d = p \<and> addressed sid d)"
begin

text \<open>Payloads delivered one after the other, errors ignored.\<close>

primrec deliver_all :: "string \<Rightarrow> json list \<Rightarrow> 's \<Rightarrow> 's" where
  "deliver_all sid [] s = s"
| "deliver_all sid (p # ps) s = deliver_all sid ps (snd (deliver sid p s))"

lemma deliver_all_core: "core (deliver_all sid ps s) = core s"
  by (induction ps arbitrary: s) (simp_all add: core_kept)

lemma deliver_all_in_order:
  "\<exists>ds. sent (deliver_all sid ps s) = sent s @ ds \<and> subseq (map payload_of ds) ps \<and>
     (\<forall>d \<in> set ds. addressed sid d)"
proof (induction ps arbitrary: s)
  case Nil
  then show ?case by simp
next
  case (Cons p ps)
  obtain ds1 where 1: "sent (snd (deliver sid p s)) = sent s @ ds1" "length ds1 \<le> 1"
    "\<forall>d \<in> set ds1. payload_of d = p \<and> addressed sid d" using at_most_once by blast
  obtain ds2 where 2: "sent (deliver_all sid ps (snd (deliver sid p s))) =
      sent (snd (deliver sid p s)) @ ds2" "subseq (map payload_of ds2) ps"
    "\<forall>d \<in> set ds2. addressed sid d" using Cons.IH by blast
  have "subseq (map payload_of (ds1 @ ds2)) (p # ps)"
    using 1(2,3) 2(2) by (cases ds1) auto
  moreover have "\<forall>d \<in> set (ds1 @ ds2). addressed sid d" using 1(3) 2(3) by auto
  ultimately show ?case using 1(1) 2(1) by (intro exI [of _ "ds1 @ ds2"]) simp
qed

end

section \<open>The publisher and the delivery meet the contract\<close>

lemma reconnect_props [simp]:
  "settled (snd (snd (reconnect E url p s))) = settled s"
  "deliveries (effects (snd (snd (reconnect E url p s)))) = deliveries (effects s)"
  "pb_exchange (fst (snd (reconnect E url p s))) = pb_exchange p"
  "pb_amqp_url (fst (snd (reconnect E url p s))) = pb_amqp_url p"
  by (simp_all add: reconnect_def call_defs split: sum.split option.split)

lemma reconnect_ok: "fst (reconnect E url p s) = None \<Longrightarrow> pb_ch (fst (snd (reconnect E url p s))) \<noteq> None"
  by (auto simp: reconnect_def call_defs split: sum.splits option.splits)

lemma ensure_settled [simp]: "settled (snd (snd (ensure E p s))) = settled s"
  by (simp add: ensure_def amqp_is_closed_def split: option.split)

lemma ensure_keeps [simp]:
  "deliveries (effects (snd (snd (ensure E p s)))) = deliveries (effects s)"
  "pb_exchange (fst (snd (ensure E p s))) = pb_exchange p"
  "pb_amqp_url (fst (snd (ensure E p s))) = pb_amqp_url p"
  by (simp_all add: ensure_def amqp_is_closed_def log_effect_def split: option.split)

lemma ensure_ok: "ensure E p s = (None, p', s') \<Longrightarrow> pb_ch p' \<noteq> None"
proof -
  have "fst (ensure E p s) = None \<Longrightarrow> pb_ch (fst (snd (ensure E p s))) \<noteq> None"
    using reconnect_ok by (auto simp: ensure_def amqp_is_closed_def split: option.splits if_splits)
  then show "ensure E p s = (None, p', s') \<Longrightarrow> pb_ch p' \<noteq> None" by simp
qed

lemma publish_webhook_no_panic: "\<not> is_panic (fst (publish_webhook E rk p s))"
proof (cases "webhook_pub s")
  case None
  then show ?thesis by (simp add: publish_webhook_def)
next
  case (Some pb)
  obtain e p' s1 where en: "ensure E pb s = (e, p', s1)" by (cases "ensure E pb s")
  then have "e = None \<Longrightarrow> pb_ch p' \<noteq> None" using ensure_ok by blast
  with Some en show ?thesis
    by (cases e) (auto simp: publish_webhook_def Let_def amqp_publish_def split: option.splits)
qed

lemma publish_webhook_settled [simp]: "settled (snd (publish_webhook E rk p s)) = settled s"
proof (cases "webhook_pub s")
  case None
  then show ?thesis by (simp add: publish_webhook_def)
next
  case (Some pb)
  obtain e p' s1 where en: "ensure E pb s = (e, p', s1)" by (cases "ensure E pb s")
  then have "settled s1 = settled s" using ensure_settled [of E pb s] by simp
  with Some en show ?thesis
    by (auto simp: publish_webhook_def Let_def amqp_publish_def split: option.splits)
qed

definition exchange_of :: "sys \<Rightarrow> string" where
  "exchange_of s = (case webhook_pub s of None \<Rightarrow> [] | Some p \<Rightarrow> pb_exchange p)"

lemma publish_webhook_deliveries:
  "deliveries (effects (snd (publish_webhook E rk p s))) =
     deliveries (effects s) @
     (case fst (publish_webhook E rk p s) of Ok _ \<Rightarrow> [ByAmqp (exchange_of s) rk p] | _ \<Rightarrow> [])"
proof (cases "webhook_pub s")
  case None
  then show ?thesis by (simp add: publish_webhook_def)
next
  case (Some pb)
  obtain e p' s1 where en: "ensure E pb s = (e, p', s1)" by (cases "ensure E pb s")
  then have "deliveries (effects s1) = deliveries (effects s)" "pb_exchange p' = pb_exchange pb"
    using ensure_keeps [of E pb s] by simp_all
  with Some en show ?thesis
    by (auto simp: publish_webhook_def Let_def amqp_publish_def log_effect_def exchange_of_def
        split: option.splits)
qed

lemma webhook_url_settled: "settled s = settled s' \<Longrightarrow> webhook_url s sid = webhook_url s' sid"
  unfolding webhook_url_def by (drule settled_eqD(2)) simp

lemma deliver_webhook_eqs:
  "publish_webhook E (normalize_phone sid) p s = (Ok u, s1) \<Longrightarrow>
     deliver_webhook E sid p s = (Ok (), s1)"
  "publish_webhook E (normalize_phone sid) p s = (Panic r, s1) \<Longrightarrow>
     deliver_webhook E sid p s = (Panic r, s1)"
  "publish_webhook E (normalize_phone sid) p s = (Err e, s1) \<Longrightarrow>
     deliver_webhook E sid p s =
       (if m_webhook_base s1 = [] then (Ok (), s1)
        else if \<not> marshal_ok p then (Err ''marshal'', s1)
        else (case env_request_error E (webhook_url s1 sid) of
                Some e' \<Rightarrow> (Err e', s1)
              | None \<Rightarrow> (Ok (), log_effect (EHttpPost (webhook_url s1 sid) p) s1)))"
  by (simp_all add: deliver_webhook_def Let_def)

lemma deliver_webhook_props:
  "settled (snd (deliver_webhook E sid p s)) = settled s \<and>
   \<not> is_panic (fst (deliver_webhook E sid p s)) \<and>
   deliveries (effects (snd (deliver_webhook E sid p s))) =
     deliveries (effects s) @
     (case fst (publish_webhook E (digits_only sid) p s) of
        Ok _ \<Rightarrow> [ByAmqp (exchange_of s) (digits_only sid) p]
      | _ \<Rightarrow> if m_webhook_base s = [] \<or> \<not> marshal_ok p \<or>
               env_request_error E (webhook_url s sid) \<noteq> None
            then [] else [ByHttp (webhook_url s sid) p])"
proof -
  obtain r s1 where pub: "publish_webhook E (normalize_phone sid) p s = (r, s1)"
    by (cases "publish_webhook E (normalize_phone sid) p s")
  have st: "settled s1 = settled s"
    using publish_webhook_settled [of E "normalize_phone sid" p s] pub by simp
  have np: "\<not> is_panic r"
    using publish_webhook_no_panic [of E "normalize_phone sid" p s] pub by simp
  have ds: "deliveries (effects s1) = deliveries (effects s) @
      (case r of Ok _ \<Rightarrow> [ByAmqp (exchange_of s) (digits_only sid) p] | _ \<Rightarrow> [])"
    using publish_webhook_deliveries [of E "digits_only sid" p s] pub
    by (simp add: normalize_phone_def)
  note same = settled_eqD(2) [OF st] webhook_url_settled [OF st, of sid]
  show ?thesis
  proof (cases r)
    case (Ok u)
    with pub ds st show ?thesis by (simp add: deliver_webhook_eqs(1) normalize_phone_def)
  next
    case (Err e)
    with pub ds st same show ?thesis
      by (simp add: deliver_webhook_eqs(3) normalize_phone_def log_effect_def split: option.split)
  next
    case (Panic r')
    with np show ?thesis by simp
  qed
qed

lemma deliver_webhook_settled [simp]: "settled (snd (deliver_webhook E sid p s)) = settled s"
  using deliver_webhook_props by blast

interpretation sink: webhook_sink "deliver_webhook E" "\<lambda>s. deliveries (effects s)" settled for E
proof unfold_locales
  fix sid p s
  show "\<exists>ds. deliveries (effects (snd (deliver_webhook E sid p s))) = deliveries (effects s) @ ds \<and>
      length ds \<le> 1 \<and> (\<forall>d \<in> set ds. payload_of d = p \<and> addressed sid d)"
    using deliver_webhook_props [of E sid p s]
    by (cases "fst (publish_webhook E (digits_only sid) p s)") (auto simp: webhook_url_def)
qed (use deliver_webhook_props in blast)+


text \<open>
  C31: Delivering a webhook uses exactly one transport. When the publication succeeds the payload
  goes to the webhook exchange under the digits of the session and nothing is posted; when it
  fails the payload is posted once to the session's URL below the webhook base, or dropped when
  there is no base, the payload cannot be marshalled or the URL is refused. It never panics and
  never touches a session, a setting or a pairing code.
\<close>

theorem deliver_webhook_one_transport:
  "settled (snd (deliver_webhook E sid p s)) = settled s \<and>
   \<not> is_panic (fst (deliver_webhook E sid p s)) \<and>
   deliveries (effects (snd (deliver_webhook E sid p s))) =
     deliveries (effects s) @
     (case fst (publish_webhook E (digits_only sid) p s) of
        Ok _ \<Rightarrow> [ByAmqp (exchange_of s) (digits_only sid) p]
      | _ \<Rightarrow> if m_webhook_base s \<noteq> [] \<and> marshal_ok p \<and> env_request_error E (webhook_url s sid) = None
            then [ByHttp (webhook_url s sid) p] else [])"
  using deliver_webhook_props [of E sid p s]
  by (cases "fst (publish_webhook E (digits_only sid) p s)") auto

lemma ensure_open:
  assumes "pb_amqp_url p = Some url" "url \<noteq> []" "pb_conn p = Some c" "pb_ch p = Some ch"
    and "\<not> env_amqp_is_closed E (tick s) c"
  shows "ensure E p s = (None, p, s\<lparr>tick := Suc (tick s)\<rparr>)"
  using assms by (simp add: ensure_def amqp_is_closed_def)

lemma publish_open_failing:
  assumes "webhook_pub s = Some p" "pb_amqp_url p = Some url" "url \<noteq> []"
    and "pb_conn p = Some c" "pb_ch p = Some ch"
    and "\<And>t. \<not> env_amqp_is_closed E t c"
    and "\<And>t rk b. env_amqp_publish E t ch (pb_exchange p) rk b \<noteq> None"
  shows "\<exists>e s'. publish_webhook E rk v s = (Err e, s') \<and> webhook_pub s' = Some p"
proof -
  have en: "ensure E p s = (None, p, s\<lparr>tick := Suc (tick s)\<rparr>)"
    using assms by (intro ensure_open) auto
  obtain x where "env_amqp_publish E (Suc (tick s)) ch (pb_exchange p) rk (JObj [(''payload'', v)]) = Some x"
    using assms(7) by blast
  with assms(1,5) en show ?thesis
    by (cases "marshal_ok v") (auto simp: publish_webhook_def Let_def amqp_publish_def)
qed

text \<open>
  C32: A channel that the broker has closed while the connection stays open is never replaced:
  from then on every publication fails, however many are made, and each leaves the publisher
  with the same dead channel, because \<open>ensure\<close> asks the connection only whether it is closed.
\<close>

theorem dead_channel_never_replaced:
  assumes "webhook_pub s = Some p" "pb_amqp_url p = Some url" "url \<noteq> []"
    and "pb_conn p = Some c" "pb_ch p = Some ch"
    and "\<And>t. \<not> env_amqp_is_closed E t c"
    and "\<And>t rk b. env_amqp_publish E t ch (pb_exchange p) rk b \<noteq> None"
  shows "webhook_pub (foldl (\<lambda>s (rk, v). snd (publish_webhook E rk v s)) s ps) = Some p \<and>
    (\<forall>rk v. \<exists>e. fst (publish_webhook E rk v
        (foldl (\<lambda>s (rk, v). snd (publish_webhook E rk v s)) s ps)) = Err e)"
  using assms
proof (induction ps arbitrary: s)
  case Nil
  then show ?case using publish_open_failing [OF Nil] by (metis fst_conv foldl_Nil)
next
  case (Cons q ps)
  obtain rk v where q: "q = (rk, v)" by (cases q)
  obtain e s' where "publish_webhook E rk v s = (Err e, s')" "webhook_pub s' = Some p"
    using publish_open_failing [OF Cons.prems] by blast
  with Cons.IH [of s'] Cons.prems q show ?case by simp
qed

theorem dead_channel_never_replaced_witness:
  "webhook_pub (foldl (\<lambda>s (rk, v). snd (publish_webhook silent_env rk v s))
      (idle_sys\<lparr>webhook_pub := Some
        \<lparr>pb_amqp_url = Some ''amqp'', pb_exchange = ''unoapi.brigde'', pb_conn = Some 1, pb_ch = Some 2\<rparr>\<rparr>)
      [(''55'', JNull), (''55'', JNull)]) =
    Some \<lparr>pb_amqp_url = Some ''amqp'', pb_exchange = ''unoapi.brigde'', pb_conn = Some 1, pb_ch = Some 2\<rparr>"
  using dead_channel_never_replaced [of "idle_sys\<lparr>webhook_pub := Some
        \<lparr>pb_amqp_url = Some ''amqp'', pb_exchange = ''unoapi.brigde'', pb_conn = Some 1, pb_ch = Some 2\<rparr>\<rparr>"
      "\<lparr>pb_amqp_url = Some ''amqp'', pb_exchange = ''unoapi.brigde'', pb_conn = Some 1, pb_ch = Some 2\<rparr>"
      "''amqp''" 1 2 silent_env "[(''55'', JNull), (''55'', JNull)]"]
  by (simp add: silent_env_def)

end
