(* ===== verification/Cloud.thy ===== *)
theory Cloud
  imports Broker
begin

text \<open>
  The Cloud-API webhooks of internal/provider/events.go: the envelope, the status events (sent,
  failed, deleted, receipts) and the outgoing-text event. The emitters write into the value
  object they find by the path entry[0].changes[0].value of the envelope, with Go type
  assertions: a wrong shape there would panic.
\<close>

section \<open>The envelope\<close>

definition cloud_value :: "string \<Rightarrow> (string \<times> json) list" where
  "cloud_value phone =
     [(''messaging_product'', JStr ''whatsapp''),
      (''metadata'', JObj [(''display_phone_number'', JStr phone), (''phone_number_id'', JStr phone)]),
      (''messages'', JArr []), (''contacts'', JArr []), (''statuses'', JArr []), (''errors'', JArr [])]"

definition cloud_envelope :: "string \<Rightarrow> json" where
  "cloud_envelope raw =
     (let phone = remove_byte (CHR ''+'') raw;
          change = JObj [(''field'', JStr ''messages''), (''value'', JObj (cloud_value phone))];
          entry = JObj [(''id'', JStr phone), (''changes'', JArr [change])] in
      JObj [(''object'', JStr ''whatsapp_business_account''), (''entry'', JArr [entry])])"

text \<open>
  Assignments to the value object in place; \<open>None\<close> when a type assertion or an index on the
  path fails.
\<close>

fun update_value ::
  "((string \<times> json) list \<Rightarrow> (string \<times> json) list) \<Rightarrow> json \<Rightarrow> json option" where
  "update_value f payload =
     (case payload of
        JObj kvs \<Rightarrow>
          (case map_of kvs ''entry'' of
             Some (JArr (JObj entry # entries)) \<Rightarrow>
               (case map_of entry ''changes'' of
                  Some (JArr (JObj change # changes)) \<Rightarrow>
                    (case map_of change ''value'' of
                       Some (JObj val) \<Rightarrow>
                         Some (JObj (put ''entry''
                           (JArr (JObj (put ''changes''
                              (JArr (JObj (put ''value'' (JObj (f val)) change) # changes))
                              entry) # entries)) kvs))
                     | _ \<Rightarrow> None)
                | _ \<Rightarrow> None)
           | _ \<Rightarrow> None)
      | _ \<Rightarrow> None)"

definition deliver_with ::
  "env \<Rightarrow> string \<Rightarrow> ((string \<times> json) list \<Rightarrow> (string \<times> json) list) \<Rightarrow> sys \<Rightarrow>
     (string, unit) outcome \<times> sys" where
  "deliver_with E session_id f s =
     (case update_value f (cloud_envelope (normalize_phone session_id)) of
        None \<Rightarrow> (Panic ''interface conversion'', s)
      | Some payload \<Rightarrow> deliver_webhook E session_id payload s)"

section \<open>Events of whatsmeow\<close>

text \<open>
  The receipt event, beside the metadata of a message event (\<open>message_info\<close>). A time is its
  nanoseconds since the Unix epoch, \<open>None\<close> for Go's zero time, whose \<open>Unix()\<close> is the number
  below.
\<close>

datatype receipt_type =
  ReceiptDelivered | ReceiptRead | ReceiptPlayed | ReceiptSender | ReceiptOther string

record receipt_event =
  rc_message_ids :: "string list"
  rc_type :: receipt_type
  rc_chat :: jid
  rc_sender :: jid
  rc_timestamp :: "int option"

definition unix_of :: "int option \<Rightarrow> int" where
  "unix_of t = (case t of None \<Rightarrow> - 62135596800 | Some ns \<Rightarrow> ns div nano)"

definition unix_text :: "int option \<Rightarrow> json" where
  "unix_text t = JStr (int_dec (unix_of t))"

fun map_receipt_status :: "receipt_type \<Rightarrow> string" where
  "map_receipt_status ReceiptDelivered = ''delivered''"
| "map_receipt_status ReceiptRead = ''read''"
| "map_receipt_status ReceiptPlayed = ''played''"
| "map_receipt_status ReceiptSender = ''sent''"
| "map_receipt_status (ReceiptOther t) = []"

section \<open>Status events\<close>

definition conversation_of :: "jid_lib \<Rightarrow> jid \<Rightarrow> json" where
  "conversation_of L j = JObj [(''id'', JStr (jid_string L j))]"

text \<open>The recipient: the user of the chat, or of the sender when that is empty.\<close>

definition event_recipient :: "jid_lib \<Rightarrow> jid \<Rightarrow> jid \<Rightarrow> string" where
  "event_recipient L chat sender =
     (let r = (if chat \<noteq> empty_jid then jid_to_phone_number_if_user L (ArgJid chat) else []) in
      if r = [] \<and> sender \<noteq> empty_jid then jid_to_phone_number_if_user L (ArgJid sender) else r)"

text \<open>A status entry with the optional timestamp and conversation of the event.\<close>

definition status_entry :: "jid_lib \<Rightarrow> string \<Rightarrow> string \<Rightarrow> string \<Rightarrow> int option \<Rightarrow> jid \<Rightarrow> json" where
  "status_entry L msg_id recipient status ts chat =
     JObj
       ([(''id'', JStr msg_id), (''recipient_id'', JStr (remove_byte (CHR ''+'') recipient)),
         (''status'', JStr status)]
        @ (case ts of None \<Rightarrow> [] | Some ns \<Rightarrow> [(''timestamp'', unix_text (Some ns))])
        @ (if chat \<noteq> empty_jid then [(''conversation'', conversation_of L chat)] else []))"

definition emit_cloud_receipt ::
  "env \<Rightarrow> string \<Rightarrow> receipt_event \<Rightarrow> sys \<Rightarrow> (string, unit) outcome \<times> sys" where
  "emit_cloud_receipt E session_id ev s =
     (let L = lib_jid E; status = map_receipt_status (rc_type ev);
          recipient = event_recipient L (rc_chat ev) (rc_sender ev);
          states = map (\<lambda>i. status_entry L i recipient status (rc_timestamp ev) (rc_chat ev))
                     (rc_message_ids ev) in
      if rc_message_ids ev = [] then (Ok (), s)
      else if status = [] then (Ok (), s)
      else deliver_with E session_id (put ''statuses'' (JArr states)) s)"

definition emit_cloud_deleted ::
  "env \<Rightarrow> string \<Rightarrow> message_info \<Rightarrow> string \<Rightarrow> sys \<Rightarrow> (string, unit) outcome \<times> sys" where
  "emit_cloud_deleted E session_id info revoked_id s =
     (let L = lib_jid E; recipient = event_recipient L (mi_chat info) (mi_sender info);
          st = status_entry L revoked_id recipient ''deleted'' (mi_timestamp info) (mi_chat info) in
      deliver_with E session_id (put ''statuses'' (JArr [st])) s)"

definition emit_cloud_sent ::
  "env \<Rightarrow> string \<Rightarrow> jid \<Rightarrow> string \<Rightarrow> sys \<Rightarrow> (string, unit) outcome \<times> sys" where
  "emit_cloud_sent E session_id to msg_id s =
     (let recipient = jid_to_phone_number_if_user (lib_jid E) (ArgJid to);
          (now, s1) = time_now E s;
          st = JObj [(''id'', JStr msg_id),
                     (''recipient_id'', JStr (remove_byte (CHR ''+'') recipient)),
                     (''status'', JStr ''sent''), (''timestamp'', unix_text (Some now)),
                     (''conversation'', conversation_of (lib_jid E) to)] in
      deliver_with E session_id (put ''statuses'' (JArr [st])) s1)"

definition emit_cloud_failed ::
  "env \<Rightarrow> string \<Rightarrow> string \<Rightarrow> string \<Rightarrow> int \<Rightarrow> string \<Rightarrow> sys \<Rightarrow> (string, unit) outcome \<times> sys" where
  "emit_cloud_failed E session_id to message_id code title s =
     (let digits = digits_only (remove_byte (CHR ''+'') (trim_space to));
          recipient = (if digits = [] then trim_space to else digits);
          given = trim_space message_id;
          (msg_id, s1) =
            (if given = [] then
               (let (ns, s') = time_now E s in (''WARN-'' @ int_dec ns, s'))
             else (given, s));
          (now, s2) = time_now E s1;
          st = JObj
            ([(''id'', JStr msg_id), (''recipient_id'', JStr recipient),
              (''status'', JStr ''failed''), (''timestamp'', unix_text (Some now))]
             @ (if code \<noteq> 0 \<or> trim_space title \<noteq> []
                then [(''errors'', JArr [JObj [(''code'', JInt code), (''title'', JStr title)]])]
                else [])) in
      deliver_with E session_id (put ''statuses'' (JArr [st])) s2)"

definition emit_cloud_outgoing_text ::
  "env \<Rightarrow> string \<Rightarrow> jid \<Rightarrow> string \<Rightarrow> string \<Rightarrow> sys \<Rightarrow> (string, unit) outcome \<times> sys" where
  "emit_cloud_outgoing_text E session_id to msg_id body s =
     (let phone = normalize_phone session_id;
          recipient = jid_to_phone_number_if_user (lib_jid E) (ArgJid to);
          (now, s1) = time_now E s;
          wire = JObj [(''from'', JStr (remove_byte (CHR ''+'') phone)), (''id'', JStr msg_id),
                       (''timestamp'', unix_text (Some now)), (''type'', JStr ''text''),
                       (''text'', JObj [(''body'', JStr body)])];
          contact = JObj
            ([(''profile'', JObj [(''name'', JStr recipient)]), (''wa_id'', JStr recipient)]
             @ (if is_group_jid to then [(''group_id'', JStr (jid_string (lib_jid E) to))] else [])) in
      deliver_with E session_id
        (\<lambda>v. put ''messages'' (JArr [wire]) (put ''contacts'' (JArr [contact]) v)) s1)"

section \<open>What the consumer of the webhooks reads\<close>

definition value_of :: "json \<Rightarrow> json option" where
  "value_of p =
     Option.bind (jget p ''entry'') (\<lambda>es. Option.bind (jitem es 0) (\<lambda>e.
       Option.bind (jget e ''changes'') (\<lambda>cs. Option.bind (jitem cs 0) (\<lambda>c. jget c ''value''))))"

definition field_of :: "string \<Rightarrow> json \<Rightarrow> json option" where
  "field_of k p = Option.bind (value_of p) (\<lambda>v. jget v k)"

text \<open>
  A well-formed webhook of a session: a Cloud object with distinct keys throughout, whose entry
  and metadata carry the digits of the session.
\<close>

definition cloud_wf :: "string \<Rightarrow> json \<Rightarrow> bool" where
  "cloud_wf session_id p \<longleftrightarrow>
     jwf p \<and>
     jget p ''object'' = Some (JStr ''whatsapp_business_account'') \<and>
     Option.bind (jget p ''entry'') (\<lambda>es. Option.bind (jitem es 0) (\<lambda>e. jget e ''id'')) =
       Some (JStr (digits_only session_id)) \<and>
     field_of ''messaging_product'' p = Some (JStr ''whatsapp'') \<and>
     Option.bind (field_of ''metadata'' p) (\<lambda>m. jget m ''phone_number_id'') =
       Some (JStr (digits_only session_id))"

definition webhook :: "string \<Rightarrow> (string \<times> json) list \<Rightarrow> json" where
  "webhook phone val =
     JObj [(''object'', JStr ''whatsapp_business_account''),
           (''entry'', JArr [JObj [(''id'', JStr phone),
              (''changes'', JArr [JObj [(''field'', JStr ''messages''), (''value'', JObj val)]])]])]"

lemma plus_not_digit [simp]: "remove_byte (CHR ''+'') (digits_only s) = digits_only s"
  by (rule remove_byte_not_mem) (auto simp: digits_only_def is_digit_def)

lemma update_cloud_envelope:
  "update_value f (cloud_envelope (normalize_phone sid)) =
     Some (webhook (digits_only sid) (f (cloud_value (digits_only sid))))"
  by (simp add: cloud_envelope_def normalize_phone_def webhook_def Let_def)

lemma deliver_with_eq [simp]:
  "deliver_with E sid f s =
     deliver_webhook E sid (webhook (digits_only sid) (f (cloud_value (digits_only sid)))) s"
  by (simp add: deliver_with_def update_cloud_envelope del: update_value.simps)

lemma field_of_webhook [simp]: "field_of k (webhook ph val) = map_of val k"
  by (simp add: field_of_def value_of_def webhook_def)

lemma jwf_cloud_value: "jwf (JObj (cloud_value ph))"
  by (simp add: cloud_value_def)

lemma jwf_webhook: "jwf (JObj val) \<Longrightarrow> jwf (webhook ph val)"
  by (simp add: webhook_def)

lemma cloud_wf_webhook:
  assumes "jwf (JObj val)" and "map_of val ''messaging_product'' = Some (JStr ''whatsapp'')"
    and "map_of val ''metadata'' = map_of (cloud_value (digits_only sid)) ''metadata''"
  shows "cloud_wf sid (webhook (digits_only sid) val)"
  using assms jwf_webhook [OF assms(1), of "digits_only sid"]
  by (simp add: cloud_wf_def) (simp add: webhook_def cloud_value_def)

lemma cloud_wf_put:
  assumes "jwf v" and "k \<notin> {''messaging_product'', ''metadata''}"
  shows "cloud_wf sid (webhook (digits_only sid) (put k v (cloud_value (digits_only sid))))"
  using assms jwf_put [OF jwf_cloud_value assms(1)]
  by (intro cloud_wf_webhook) (auto simp: cloud_value_def)

lemma jwf_status_entry: "jwf (status_entry L i r st ts chat)"
  by (auto simp: status_entry_def unix_text_def conversation_of_def split: option.splits)

lemma jwf_map_status_entry: "jwf (JArr (map (\<lambda>i. status_entry L i r st ts chat) ids))"
  by (simp add: jwf_status_entry list_all_iff)


section \<open>What the emitters promise\<close>

text \<open>
  An emission: it does not panic, leaves the settled state alone, and adds at most one
  delivery, which is addressed to the session and carries a well-formed webhook of it.
\<close>

definition emits_webhook :: "string \<Rightarrow> sys \<Rightarrow> (string, unit) outcome \<times> sys \<Rightarrow> bool" where
  "emits_webhook sid s r \<longleftrightarrow>
     \<not> is_panic (fst r) \<and> settled (snd r) = settled s \<and>
     (\<exists>ds. deliveries (effects (snd r)) = deliveries (effects s) @ ds \<and> length ds \<le> 1 \<and>
        list_all (\<lambda>d. addressed sid d \<and> cloud_wf sid (payload_of d)) ds)"

lemma emits_nothing [simp]: "emits_webhook sid s (Ok (), s)"
  by (simp add: emits_webhook_def)

lemma emits_delivered:
  assumes "cloud_wf sid p" and "settled s0 = settled s" and "deliveries (effects s0) = deliveries (effects s)"
  shows "emits_webhook sid s (deliver_webhook E sid p s0)"
proof -
  obtain ds where "deliveries (effects (snd (deliver_webhook E sid p s0))) = deliveries (effects s0) @ ds"
    "length ds \<le> 1" "\<forall>d \<in> set ds. payload_of d = p \<and> addressed sid d"
    using sink.at_most_once by blast
  with assms sink.no_panic [of E sid p s0] show ?thesis
    by (auto simp: emits_webhook_def list_all_iff)
qed

lemma time_now_deliveries [simp]: "deliveries (effects (snd (time_now E s))) = deliveries (effects s)"
  by (simp add: time_now_def)

lemma emit_cloud_receipt_emits: "emits_webhook sid s (emit_cloud_receipt E sid ev s)"
  by (auto simp: emit_cloud_receipt_def Let_def intro!: emits_delivered cloud_wf_put jwf_map_status_entry
      simp del: jwf.simps)

lemma emit_cloud_deleted_emits: "emits_webhook sid s (emit_cloud_deleted E sid info r s)"
  by (auto simp: emit_cloud_deleted_def Let_def jwf_status_entry intro!: emits_delivered cloud_wf_put)

lemma emit_cloud_sent_emits: "emits_webhook sid s (emit_cloud_sent E sid to i s)"
  by (auto simp: emit_cloud_sent_def Let_def time_now_def unix_text_def conversation_of_def
      intro!: emits_delivered cloud_wf_put)

lemma emit_cloud_failed_emits: "emits_webhook sid s (emit_cloud_failed E sid to i c t s)"
  by (auto simp: emit_cloud_failed_def Let_def time_now_def unix_text_def conversation_of_def
      intro!: emits_delivered cloud_wf_put)

lemma emit_cloud_outgoing_text_emits: "emits_webhook sid s (emit_cloud_outgoing_text E sid to i b s)"
  by (auto simp: emit_cloud_outgoing_text_def Let_def time_now_def unix_text_def cloud_value_def
      intro!: emits_delivered cloud_wf_webhook)

text \<open>
  C12: Every status and outgoing-text emitter keeps the webhook contract: it never panics (the
  type assertions into the envelope hold), changes no session state, and adds at most one
  delivery, addressed to the digits of the session and carrying a well-formed Cloud webhook of
  that session.
\<close>

theorem emitters_keep_contract:
  "emits_webhook sid s (emit_cloud_receipt E sid ev s) \<and>
   emits_webhook sid s (emit_cloud_sent E sid to msg_id s) \<and>
   emits_webhook sid s (emit_cloud_failed E sid dest msg_id code title s) \<and>
   emits_webhook sid s (emit_cloud_deleted E sid info revoked s) \<and>
   emits_webhook sid s (emit_cloud_outgoing_text E sid to msg_id body s)"
  by (simp add: emit_cloud_receipt_emits emit_cloud_sent_emits emit_cloud_failed_emits
      emit_cloud_deleted_emits emit_cloud_outgoing_text_emits)

text \<open>
  C37: A receipt of a known type becomes one webhook with one status entry per message id, in
  the order of the ids, each with the receipt's status and the recipient of the event, and with
  no message in it.
\<close>

theorem receipt_one_status_per_id:
  assumes "rc_message_ids ev \<noteq> []" and "map_receipt_status (rc_type ev) = st" and "st \<noteq> []"
  shows "\<exists>p sts. emit_cloud_receipt E sid ev s = deliver_webhook E sid p s \<and> cloud_wf sid p \<and>
    field_of ''messages'' p = Some (JArr []) \<and> field_of ''statuses'' p = Some (JArr sts) \<and>
    map (\<lambda>x. jget x ''id'') sts = map (\<lambda>i. Some (JStr i)) (rc_message_ids ev) \<and>
    list_all (\<lambda>x. jget x ''status'' = Some (JStr st) \<and>
      jget x ''recipient_id'' = Some (JStr (remove_byte (CHR ''+'')
        (event_recipient (lib_jid E) (rc_chat ev) (rc_sender ev))))) sts"
proof -
  let ?sts = "map (\<lambda>i. status_entry (lib_jid E) i (event_recipient (lib_jid E) (rc_chat ev) (rc_sender ev))
      st (rc_timestamp ev) (rc_chat ev)) (rc_message_ids ev)"
  let ?p = "webhook (digits_only sid) (put ''statuses'' (JArr ?sts) (cloud_value (digits_only sid)))"
  have "emit_cloud_receipt E sid ev s = deliver_webhook E sid ?p s"
    using assms by (simp add: emit_cloud_receipt_def Let_def)
  moreover have "cloud_wf sid ?p"
    by (intro cloud_wf_put jwf_map_status_entry) simp
  ultimately show ?thesis
    by (intro exI [of _ ?p] exI [of _ ?sts])
      (simp add: cloud_value_def list_all_iff status_entry_def comp_def)
qed

definition example_receipt :: receipt_event where
  "example_receipt =
     \<lparr>rc_message_ids = [''A'', ''B''], rc_type = ReceiptRead,
      rc_chat = empty_jid\<lparr>j_user := ''5562'', j_server := ''s.whatsapp.net''\<rparr>,
      rc_sender = empty_jid, rc_timestamp = None\<rparr>"

theorem receipt_one_status_per_id_witness:
  "\<exists>p sts. emit_cloud_receipt silent_env ''+55'' example_receipt idle_sys =
      deliver_webhook silent_env ''+55'' p idle_sys \<and> field_of ''statuses'' p = Some (JArr sts) \<and>
    map (\<lambda>x. jget x ''id'') sts = [Some (JStr ''A''), Some (JStr ''B'')]"
  using receipt_one_status_per_id [of example_receipt "''read''" silent_env "''+55''" idle_sys]
  by (fastforce simp: example_receipt_def)

end
