(* ===== verification/Resolver.thy ===== *)
theory Resolver
  imports World
begin

text \<open>
  The phone-number resolver of internal/provider/resolver.go: \<open>resolvePNtoJID\<close> and
  \<open>checkUserExistsOnWhatsApp\<close>, which ask WhatsApp about each candidate number in turn and cache
  the first registered JID for a day. Both loops are structural over the candidates.
\<close>

text \<open>The key of the cache: the E.164 form of the number, or the text given when it has none.\<close>

definition pn_key :: "env \<Rightarrow> string \<Rightarrow> string" where
  "pn_key E phone =
     (let e164 = normalize_e164_local (lib_e164 E) phone in if e164 = [] then phone else e164)"

text \<open>An answer that settles a candidate: registered, on the user server, with a user.\<close>

definition usable :: "on_whatsapp \<Rightarrow> bool" where
  "usable info =
     (ow_is_in info \<and> j_server (ow_jid info) = default_user_server \<and> j_user (ow_jid info) \<noteq> [])"

definition pn_lookup :: "env \<Rightarrow> string \<Rightarrow> sys \<Rightarrow> jid option \<times> sys" where
  \<comment> \<open>the map read comes before the clock is read, which happens only when there is an item\<close>
  "pn_lookup E key s =
     (case m_pn_cache s key of
        None \<Rightarrow> (None, s)
      | Some it \<Rightarrow>
          (case time_now E s of (now, s1) \<Rightarrow> (pn_cache_get (lib_jid E) now (m_pn_cache s1) key, s1)))"

definition pn_store :: "env \<Rightarrow> string \<Rightarrow> jid \<Rightarrow> sys \<Rightarrow> sys" where
  "pn_store E key j s =
     (case time_now E s of
        (now, s1) \<Rightarrow> s1\<lparr>m_pn_cache := pn_cache_put (lib_jid E) now key j (m_pn_cache s1)\<rparr>)"

fun resolve_candidates :: "env \<Rightarrow> client \<Rightarrow> string \<Rightarrow> string list \<Rightarrow> sys \<Rightarrow> jid option \<times> sys" where
  "resolve_candidates E cli key [] s = (None, s)"
| "resolve_candidates E cli key (cand # cands) s =
     (case wa_is_on_whatsapp E cli cand s of
        (Inr (info # _), s1) \<Rightarrow>
          if usable info then (Some (ow_jid info), pn_store E key (ow_jid info) s1)
          else resolve_candidates E cli key cands s1
      | (_, s1) \<Rightarrow> resolve_candidates E cli key cands s1)"

definition resolve_pn_to_jid :: "env \<Rightarrow> client \<Rightarrow> string \<Rightarrow> sys \<Rightarrow> jid option \<times> sys" where
  "resolve_pn_to_jid E cli phone s =
     (let key = pn_key E phone in
      case pn_lookup E key s of
        (Some j, s1) \<Rightarrow> (Some j, s1)
      | (None, s1) \<Rightarrow> resolve_candidates E cli key (candidates_br key) s1)"

text \<open>
  The outcome of the existence check: an error (the caller may go on), a JID, or \<open>Ok None\<close> for
  a number that is not registered.
\<close>

definition failed_check :: "string \<Rightarrow> string \<Rightarrow> string" where
  "failed_check cand e =
     ''failed to check if number '' @ cand @ '' exists on WhatsApp: '' @ e"

definition empty_response :: "string \<Rightarrow> string" where
  "empty_response cand = ''number '' @ cand @ '' not found in WhatsApp response''"

fun check_candidates ::
  "env \<Rightarrow> client \<Rightarrow> string \<Rightarrow> string option \<Rightarrow> string list \<Rightarrow> sys \<Rightarrow> (string, jid option) outcome \<times> sys"
  where
  "check_candidates E cli key last_err [] s =
     (case last_err of Some e \<Rightarrow> (Err e, s) | None \<Rightarrow> (Ok None, s))"
| "check_candidates E cli key last_err (cand # cands) s =
     (case wa_is_on_whatsapp E cli cand s of
        (Inl e, s1) \<Rightarrow> check_candidates E cli key (Some (failed_check cand e)) cands s1
      | (Inr [], s1) \<Rightarrow> check_candidates E cli key (Some (empty_response cand)) cands s1
      | (Inr (info # _), s1) \<Rightarrow>
          if \<not> ow_is_in info then check_candidates E cli key last_err cands s1
          else if j_server (ow_jid info) = default_user_server \<and> j_user (ow_jid info) \<noteq> [] then
            (Ok (Some (ow_jid info)), pn_store E key (ow_jid info) s1)
          else check_candidates E cli key last_err cands s1)"

definition check_user_exists ::
  "env \<Rightarrow> client \<Rightarrow> string \<Rightarrow> sys \<Rightarrow> (string, jid option) outcome \<times> sys" where
  "check_user_exists E cli phone s =
     (let key = pn_key E phone in
      case pn_lookup E key s of
        (Some j, s1) \<Rightarrow> (Ok (Some j), s1)
      | (None, s1) \<Rightarrow> check_candidates E cli key None (candidates_br key) s1)"

section \<open>Frames\<close>

lemma pn_lookup_settled [simp]: "settled (snd (pn_lookup E key s)) = settled s"
  by (simp add: pn_lookup_def time_now_def split: option.split)

lemma pn_store_settled [simp]: "settled (pn_store E key j s) = settled s"
  by (simp add: pn_store_def time_now_def)

lemma resolve_candidates_settled [simp]:
  "settled (snd (resolve_candidates E cli key cands s)) = settled s"
  by (induction cands arbitrary: s) (auto simp: wa_is_on_whatsapp_def split: sum.splits list.splits)

lemma check_candidates_settled [simp]:
  "settled (snd (check_candidates E cli key le cands s)) = settled s"
  by (induction cands arbitrary: s le)
    (auto simp: wa_is_on_whatsapp_def split: sum.splits list.splits option.splits)

lemma resolve_pn_to_jid_settled [simp]: "settled (snd (resolve_pn_to_jid E cli phone s)) = settled s"
proof -
  obtain r s1 where "pn_lookup E (pn_key E phone) s = (r, s1)" by (cases "pn_lookup E (pn_key E phone) s")
  then show ?thesis using pn_lookup_settled [of E "pn_key E phone" s]
    by (cases r) (simp_all add: resolve_pn_to_jid_def Let_def)
qed

lemma check_user_exists_settled [simp]: "settled (snd (check_user_exists E cli phone s)) = settled s"
proof -
  obtain r s1 where "pn_lookup E (pn_key E phone) s = (r, s1)" by (cases "pn_lookup E (pn_key E phone) s")
  then show ?thesis using pn_lookup_settled [of E "pn_key E phone" s]
    by (cases r) (simp_all add: check_user_exists_def Let_def)
qed

section \<open>The verdict on a number\<close>

text \<open>
  The specification, from the comments in \<open>checkUserExistsOnWhatsApp\<close>: what the answers of WhatsApp to the
  candidates, in order, say of a number. It is registered when some answer is usable, under the
  first usable JID; it is unknown when all candidates failed, with an error or an empty response;
  otherwise it is unregistered.
\<close>

datatype verdict = Registered jid | Unregistered | Unknown

fun answer_jid :: "string + on_whatsapp list \<Rightarrow> jid option" where
  "answer_jid (Inr (info # _)) = (if usable info then Some (ow_jid info) else None)"
| "answer_jid _ = None"

fun answered :: "string + on_whatsapp list \<Rightarrow> bool" where
  "answered (Inr (info # _)) = True"
| "answered _ = False"

definition documented_verdict :: "(string + on_whatsapp list) list \<Rightarrow> verdict" where
  "documented_verdict rs =
     (case first_some answer_jid rs of
        Some j \<Rightarrow> Registered j
      | None \<Rightarrow> if rs \<noteq> [] \<and> list_all (Not \<circ> answered) rs then Unknown else Unregistered)"

text \<open>No usable answer, and of the candidates some were answered and some failed.\<close>

definition mixed_answers :: "(string + on_whatsapp list) list \<Rightarrow> bool" where
  "mixed_answers rs \<longleftrightarrow>
     first_some answer_jid rs = None \<and> list_ex answered rs \<and> list_ex (Not \<circ> answered) rs"

fun verdict_of :: "(string, jid option) outcome \<Rightarrow> verdict" where
  "verdict_of (Ok (Some j)) = Registered j"
| "verdict_of (Ok None) = Unregistered"
| "verdict_of _ = Unknown"

text \<open>The answers that the surroundings give when asked from a tick on.\<close>

fun answers :: "env \<Rightarrow> client \<Rightarrow> nat \<Rightarrow> string list \<Rightarrow> (string + on_whatsapp list) list" where
  "answers E cli t [] = []"
| "answers E cli t (c # cs) = env_is_on_whatsapp E t cli c # answers E cli (Suc t) cs"

lemma tick_wa_is_on_whatsapp:
  "wa_is_on_whatsapp E cli c s = (r, s1) \<Longrightarrow> r = env_is_on_whatsapp E (tick s) cli c \<and> tick s1 = Suc (tick s)"
  by (auto simp: wa_is_on_whatsapp_def log_effect_def)

lemma check_candidates_verdict_gen:
  "verdict_of (fst (check_candidates E cli key le cands s)) =
     (case first_some answer_jid (answers E cli (tick s) cands) of
        Some j \<Rightarrow> Registered j
      | None \<Rightarrow> if le = None \<and> list_all answered (answers E cli (tick s) cands)
               then Unregistered else Unknown)"
proof (induction cands arbitrary: s le)
  case Nil
  then show ?case by (cases le) auto
next
  case (Cons c cs)
  obtain r s1 where q: "wa_is_on_whatsapp E cli c s = (r, s1)" by (cases "wa_is_on_whatsapp E cli c s")
  from tick_wa_is_on_whatsapp [OF q] have r: "env_is_on_whatsapp E (tick s) cli c = r" "tick s1 = Suc (tick s)"
    by simp_all
  show ?case
  proof (cases r)
    case (Inl e)
    with q r Cons [of "Some (failed_check c e)" s1] show ?thesis by (auto split: option.splits)
  next
    case (Inr infos)
    show ?thesis
    proof (cases infos)
      case Nil
      with Inr q r Cons [of "Some (empty_response c)" s1] show ?thesis by (auto split: option.splits)
    next
      case (Cons info rest)
      with Inr q r Cons.IH [of le s1] show ?thesis by (auto simp: usable_def split: option.splits)
    qed
  qed
qed

text \<open>
  C13: The existence check computes the documented verdict on the answers it gets, except on mixed
  ones, and there it always differs: when a query of one candidate failed and another candidate
  was answered as not registered, the comment says unregistered, while the code returns the
  error of the failed query, so that the caller goes on and sends.
\<close>

theorem check_candidates_verdict:
  "let rs = answers E cli (tick s) cands; v = verdict_of (fst (check_candidates E cli key None cands s)) in
   v = (if mixed_answers rs then Unknown else documented_verdict rs) \<and>
   (v = documented_verdict rs) = (\<not> mixed_answers rs)"
proof -
  let ?rs = "answers E cli (tick s) cands"
  have all: "list_all answered ?rs = (\<not> list_ex (Not \<circ> answered) ?rs)"
    "list_all (Not \<circ> answered) ?rs = (\<not> list_ex answered ?rs)"
    by (auto simp: list_all_iff list_ex_iff)
  show ?thesis
    unfolding Let_def check_candidates_verdict_gen documented_verdict_def mixed_answers_def all
    by (cases ?rs) (auto split: option.split)
qed

lemma resolve_candidates_first:
  "fst (resolve_candidates E cli key cands s) = first_some answer_jid (answers E cli (tick s) cands)"
proof (induction cands arbitrary: s)
  case (Cons c cs)
  obtain r s1 where q: "wa_is_on_whatsapp E cli c s = (r, s1)" by (cases "wa_is_on_whatsapp E cli c s")
  from tick_wa_is_on_whatsapp [OF q] have r: "env_is_on_whatsapp E (tick s) cli c = r" "tick s1 = Suc (tick s)"
    by simp_all
  show ?case
  proof (cases r)
    case (Inr infos)
    with q r Cons [of s1] show ?thesis by (cases infos) auto
  qed (use q r Cons [of s1] in auto)
qed simp

text \<open>
  C36: A number that WhatsApp reports as registered, but under a JID of the LID server for every
  candidate, is reported as not registered.
\<close>

theorem registered_under_lid_is_refused:
  assumes "list_all (\<lambda>a. \<exists>info. a = Inr [info] \<and> ow_is_in info \<and> is_lid_jid (ow_jid info))
             (answers E cli (tick s) cands)"
  shows "fst (check_candidates E cli key None cands s) = Ok None"
proof -
  have "first_some answer_jid (answers E cli (tick s) cands) = None"
    using assms by (auto simp: first_some_eq_None list_all_iff usable_def is_lid_jid_def default_user_server_def)
  moreover have "list_all answered (answers E cli (tick s) cands)"
    using assms by (auto simp: list_all_iff)
  ultimately have "verdict_of (fst (check_candidates E cli key None cands s)) = Unregistered"
    by (simp add: check_candidates_verdict_gen)
  then show ?thesis by (cases "fst (check_candidates E cli key None cands s)" rule: verdict_of.cases) auto
qed

theorem registered_under_lid_is_refused_witness:
  "fst (check_candidates
      (silent_env\<lparr>env_is_on_whatsapp := \<lambda>t c n. Inr [\<lparr>ow_is_in = True,
          ow_jid = empty_jid\<lparr>j_user := ''77'', j_server := ''lid''\<rparr>\<rparr>]\<rparr>)
      1 ''+5562'' None [''+5562''] idle_sys) = Ok None"
  by (rule registered_under_lid_is_refused) (simp add: is_lid_jid_def)

section \<open>The cache saves the second query\<close>

lemma pn_lookup_hit:
  assumes "pn_cache_get (lib_jid E) (env_now E (tick s)) (m_pn_cache s) key = Some j"
  shows "pn_lookup E key s = (Some j, s\<lparr>tick := Suc (tick s)\<rparr>)"
  using assms by (auto simp: pn_lookup_def time_now_def pn_cache_get_def split: option.splits)

lemma resolve_cold:
  assumes "m_pn_cache s (pn_key E phone) = None"
  shows "resolve_pn_to_jid E cli phone s =
    resolve_candidates E cli (pn_key E phone) (candidates_br (pn_key E phone)) s"
  using assms by (simp add: resolve_pn_to_jid_def pn_lookup_def Let_def)

lemma resolve_candidates_stores:
  assumes "fst (resolve_candidates E cli key cands s) = Some j"
  shows "\<exists>t m. m_pn_cache (snd (resolve_candidates E cli key cands s)) =
    pn_cache_put (lib_jid E) (env_now E t) key j m"
  using assms
proof (induction cands arbitrary: s)
  case (Cons c cs)
  then show ?case
    by (auto simp: wa_is_on_whatsapp_def pn_store_def time_now_def split: sum.splits list.splits if_splits)
qed simp

text \<open>
  Once a number has been resolved, resolving it again while the answer is less than a day
  old gives the same JID without asking WhatsApp: the effects stay as they are.
\<close>

lemma resolved_number_is_cached:
  assumes cold: "m_pn_cache s (pn_key E phone) = None"
    and found: "resolve_pn_to_jid E cli phone s = (Some j, s1)"
    and again: "parse_jid (lib_jid E) (jid_string (lib_jid E) j) = (j, None)"
    and day: "\<And>t t'. env_now E t' < env_now E t + pn_ttl"
  shows "resolve_pn_to_jid E cli phone s1 = (Some j, s1\<lparr>tick := Suc (tick s1)\<rparr>)"
proof -
  have "resolve_candidates E cli (pn_key E phone) (candidates_br (pn_key E phone)) s = (Some j, s1)"
    using resolve_cold [OF cold] found by simp
  with resolve_candidates_stores [of E cli "pn_key E phone" "candidates_br (pn_key E phone)" s j]
  obtain t m where m: "m_pn_cache s1 = pn_cache_put (lib_jid E) (env_now E t) (pn_key E phone) j m"
    by auto
  have "pn_cache_get (lib_jid E) (env_now E (tick s1)) (m_pn_cache s1) (pn_key E phone) = Some j"
    unfolding m by (rule pn.put_then_get) (simp_all add: reparsed_def again day)
  from pn_lookup_hit [OF this] show ?thesis by (simp add: resolve_pn_to_jid_def Let_def)
qed

end
