(* ===== verification/Settings.thy ===== *)
theory Settings
  imports World
begin

text \<open>
  The effective settings of a session (internal/provider/client.go): each getter takes the
  session's override when there is one and the manager's value otherwise. \<open>get_client\<close> is
  \<open>GetClient\<close>, and \<open>must_have\<close> is \<open>mustHave\<close>.
\<close>

section \<open>Clients\<close>

definition get_client :: "string \<Rightarrow> sys \<Rightarrow> client option" where
  "get_client sid s = (case m_clients s sid of None \<Rightarrow> None | Some ent \<Rightarrow> ce_client ent)"

definition must_have :: "string \<Rightarrow> sys \<Rightarrow> (string, client_entry) outcome" where
  "must_have sid s =
     (case m_clients s sid of
        Some ent \<Rightarrow> if ce_client ent \<noteq> None then Ok ent else Err ''session not connected''
      | None \<Rightarrow> Err ''session not connected'')"

section \<open>Getters\<close>

definition get_reject_calls :: "string \<Rightarrow> sys \<Rightarrow> bool" where
  "get_reject_calls sid s =
     (case m_overrides s sid of
        Some ov \<Rightarrow> (case ov_reject_calls ov of Some b \<Rightarrow> b | None \<Rightarrow> m_reject_calls s)
      | None \<Rightarrow> m_reject_calls s)"

definition get_reject_msg :: "string \<Rightarrow> sys \<Rightarrow> string" where
  "get_reject_msg sid s =
     (case m_overrides s sid of
        Some ov \<Rightarrow> (case ov_reject_msg ov of Some t \<Rightarrow> t | None \<Rightarrow> m_reject_msg s)
      | None \<Rightarrow> m_reject_msg s)"

definition get_auto_mark_read :: "string \<Rightarrow> sys \<Rightarrow> bool" where
  "get_auto_mark_read sid s =
     (case m_overrides s sid of
        Some ov \<Rightarrow> (case ov_auto_mark_read ov of Some b \<Rightarrow> b | None \<Rightarrow> m_auto_mark_read s)
      | None \<Rightarrow> m_auto_mark_read s)"

definition get_ignore_status_broadcast :: "string \<Rightarrow> sys \<Rightarrow> bool" where
  "get_ignore_status_broadcast sid s =
     (case m_overrides s sid of
        Some ov \<Rightarrow>
          (case ov_ignore_status_broadcast ov of Some b \<Rightarrow> b | None \<Rightarrow> m_ignore_status_broadcast s)
      | None \<Rightarrow> m_ignore_status_broadcast s)"

definition get_ignore_newsletters :: "string \<Rightarrow> sys \<Rightarrow> bool" where
  "get_ignore_newsletters sid s =
     (case m_overrides s sid of
        Some ov \<Rightarrow>
          (case ov_ignore_newsletters ov of Some b \<Rightarrow> b | None \<Rightarrow> m_ignore_newsletters s)
      | None \<Rightarrow> m_ignore_newsletters s)"

definition get_check_user_exists :: "string \<Rightarrow> sys \<Rightarrow> bool" where
  "get_check_user_exists sid s = m_check_user_exists s"

text \<open>
  Whether a session is kept always online, and how often (in nanoseconds): an override of the
  period counts only when it is positive.
\<close>

definition should_be_online :: "string \<Rightarrow> sys \<Rightarrow> bool" where
  "should_be_online sid s =
     (case m_overrides s sid of
        Some ov \<Rightarrow> (case ov_always_online ov of Some b \<Rightarrow> b | None \<Rightarrow> m_always_online s)
      | None \<Rightarrow> m_always_online s)"

definition online_every :: "string \<Rightarrow> sys \<Rightarrow> int" where
  "online_every sid s =
     (case m_overrides s sid of
        Some ov \<Rightarrow>
          (case ov_always_online_every ov of
             Some d \<Rightarrow> if d > 0 then d else m_always_online_every s
           | None \<Rightarrow> m_always_online_every s)
      | None \<Rightarrow> m_always_online_every s)"

definition enable_always_online :: "int \<Rightarrow> sys \<Rightarrow> sys" where
  "enable_always_online interval s =
     s\<lparr>m_always_online := True,
       m_always_online_every := (if interval \<le> 0 then 60 * nano else interval)\<rparr>"

definition set_overrides :: "string \<Rightarrow> session_overrides \<Rightarrow> sys \<Rightarrow> sys" where
  \<comment> \<open>\<open>m.overrides[sessionID] = ov\<close>\<close>
  "set_overrides sid ov s = s\<lparr>m_overrides := (m_overrides s)(sid \<mapsto> ov)\<rparr>"

lemma m_overrides_set [simp]: "m_overrides (set_overrides sid ov s) = (m_overrides s)(sid \<mapsto> ov)"
  by (simp add: set_overrides_def)

lemma set_overrides_else [simp]:
  "m_reject_calls (set_overrides sid ov s) = m_reject_calls s"
  "m_reject_msg (set_overrides sid ov s) = m_reject_msg s"
  "m_auto_mark_read (set_overrides sid ov s) = m_auto_mark_read s"
  "m_ignore_status_broadcast (set_overrides sid ov s) = m_ignore_status_broadcast s"
  "m_ignore_newsletters (set_overrides sid ov s) = m_ignore_newsletters s"
  "m_always_online (set_overrides sid ov s) = m_always_online s"
  "m_always_online_every (set_overrides sid ov s) = m_always_online_every s"
  by (simp_all add: set_overrides_def)

section \<open>The contract of a getter\<close>

text \<open>
  A setting of a session: an optional field of the overrides, the manager's value, and a getter
  that puts the field before the value. From the law it follows what a session without overrides
  gets, that the overrides of one session do not reach another, and that the getter depends on
  the settled state only when the manager's value does.
\<close>

locale setting =
  fixes field :: "session_overrides \<Rightarrow> 'a option"
    and default :: "sys \<Rightarrow> 'a"
    and get :: "string \<Rightarrow> sys \<Rightarrow> 'a"
  assumes law: "get sid s =
      (case Option.bind (m_overrides s sid) field of Some v \<Rightarrow> v | None \<Rightarrow> default s)"
    and default_settled: "settled s = settled s' \<Longrightarrow> default s = default s'"
    and default_overrides: "default (set_overrides sid ov s) = default s"
begin

lemma without_override: "m_overrides s sid = None \<Longrightarrow> get sid s = default s"
  by (simp add: law)

lemma with_override: "m_overrides s sid = Some ov \<Longrightarrow> field ov = Some v \<Longrightarrow> get sid s = v"
  by (simp add: law)

lemma of_settled: "settled s = settled s' \<Longrightarrow> get sid s = get sid s'"
  by (frule settled_eqD(3), drule default_settled) (simp add: law split: option.split)

lemma isolated:
  "sid' \<noteq> sid \<Longrightarrow> get sid' (set_overrides sid ov s) = get sid' s"
  by (simp add: law default_overrides split: option.split)

end

lemma bind_case: "(case Option.bind x f of Some v \<Rightarrow> g v | None \<Rightarrow> d) =
    (case x of Some y \<Rightarrow> (case f y of Some v \<Rightarrow> g v | None \<Rightarrow> d) | None \<Rightarrow> d)"
  by (cases x) simp_all

interpretation reject_calls: setting ov_reject_calls m_reject_calls get_reject_calls
  by (unfold_locales; (erule settled_eqD)?; simp add: get_reject_calls_def bind_case)

interpretation reject_msg: setting ov_reject_msg m_reject_msg get_reject_msg
  by (unfold_locales; (erule settled_eqD)?; simp add: get_reject_msg_def bind_case)

interpretation mark_read: setting ov_auto_mark_read m_auto_mark_read get_auto_mark_read
  by (unfold_locales; (erule settled_eqD)?; simp add: get_auto_mark_read_def bind_case)

interpretation status_filter: setting ov_ignore_status_broadcast m_ignore_status_broadcast
    get_ignore_status_broadcast
  by (unfold_locales; (erule settled_eqD)?; simp add: get_ignore_status_broadcast_def bind_case)

interpretation newsletter_filter: setting ov_ignore_newsletters m_ignore_newsletters
    get_ignore_newsletters
  by (unfold_locales; (erule settled_eqD)?; simp add: get_ignore_newsletters_def bind_case)

lemma settled_always_online: "settled s = settled s' \<Longrightarrow> m_always_online s = m_always_online s'"
proof -
  have "m_always_online (settled s) = m_always_online s" for s :: sys by (simp add: settled_def)
  then show "settled s = settled s' \<Longrightarrow> ?thesis" by metis
qed

interpretation online: setting ov_always_online m_always_online should_be_online
  by (unfold_locales; (erule settled_always_online)?; simp add: should_be_online_def bind_case)

lemma get_client_settled: "settled s = settled s' \<Longrightarrow> get_client sid s = get_client sid s'"
  using settled_eqD(1) [of s s'] by (simp add: get_client_def)

text \<open>
  The settings of a session are isolated: new overrides of one session leave every effective
  setting of every other session as it was.
\<close>

lemma overrides_are_isolated:
  assumes "sid' \<noteq> sid"
  shows "get_reject_calls sid' (set_overrides sid ov s) = get_reject_calls sid' s \<and>
    get_reject_msg sid' (set_overrides sid ov s) = get_reject_msg sid' s \<and>
    get_auto_mark_read sid' (set_overrides sid ov s) = get_auto_mark_read sid' s \<and>
    get_ignore_status_broadcast sid' (set_overrides sid ov s) = get_ignore_status_broadcast sid' s \<and>
    get_ignore_newsletters sid' (set_overrides sid ov s) = get_ignore_newsletters sid' s \<and>
    should_be_online sid' (set_overrides sid ov s) = should_be_online sid' s \<and>
    online_every sid' (set_overrides sid ov s) = online_every sid' s"
  using assms
  by (simp add: reject_calls.isolated reject_msg.isolated mark_read.isolated
      status_filter.isolated newsletter_filter.isolated online.isolated online_every_def
      split: option.split)

end
