(* ===== verification/Frames.thy ===== *)
theory Frames
  imports Cloud Resolver Settings
begin

text \<open>
  Which effects an operation can have. \<open>calm s s'\<close> says that the process went from \<open>s\<close> to \<open>s'\<close>
  without touching the settled state (sessions, settings, pairing codes, goroutines) and without
  putting a LID into the LID cache; \<open>extends K s s'\<close> says moreover that the effects it added all
  satisfy \<open>K\<close>. The lemmas give it for the primitive calls, the
  webhook broker, the emitters and the resolver; the components above compose them.
\<close>

text \<open>What the LID cache is to hold: phone-number JIDs, no LID.\<close>

definition lids_resolved :: "sys \<Rightarrow> bool" where
  "lids_resolved s \<longleftrightarrow> (\<forall>k e. lid_ad_cache s k = Some e \<longrightarrow> \<not> is_lid_jid (je_val e))"

definition calm :: "sys \<Rightarrow> sys \<Rightarrow> bool" where
  "calm s s' \<longleftrightarrow> settled s' = settled s \<and> (lids_resolved s \<longrightarrow> lids_resolved s')"

definition extends :: "(effect \<Rightarrow> bool) \<Rightarrow> sys \<Rightarrow> sys \<Rightarrow> bool" where
  "extends K s s' \<longleftrightarrow> calm s s' \<and> (\<exists>new. effects s' = effects s @ new \<and> list_all K new)"

lemma lids_resolved_cache: "lid_ad_cache s' = lid_ad_cache s \<Longrightarrow> lids_resolved s' = lids_resolved s"
  by (simp add: lids_resolved_def)

lemma calm_refl [simp, intro]: "calm s s"
  by (simp add: calm_def)

lemma calm_trans [trans]: "calm s s1 \<Longrightarrow> calm s1 s2 \<Longrightarrow> calm s s2"
  by (simp add: calm_def)

lemma calm_settled: "calm s s' \<Longrightarrow> settled s' = settled s"
  by (simp add: calm_def)

lemma calm_lids: "calm s s' \<Longrightarrow> lids_resolved s \<Longrightarrow> lids_resolved s'"
  by (simp add: calm_def)

lemma calmI: "settled s' = settled s \<Longrightarrow> lid_ad_cache s' = lid_ad_cache s \<Longrightarrow> calm s s'"
  by (simp add: calm_def lids_resolved_def)

lemma calm_update [simp]:
  "calm s (s'\<lparr>tick := t\<rparr>) = calm s s'"
  "calm s (s'\<lparr>effects := es\<rparr>) = calm s s'"
  "calm s (s'\<lparr>webhook_pub := p\<rparr>) = calm s s'"
  "calm s (s'\<lparr>m_pn_cache := m\<rparr>) = calm s s'"
  "calm s (s'\<lparr>avatar_cache := a\<rparr>) = calm s s'"
  "calm s (s'\<lparr>group_name_cache := g\<rparr>) = calm s s'"
  by (simp_all add: calm_def lids_resolved_def)

lemma calm_log [simp]: "calm s (log_effect e s') = calm s s'"
  by (simp add: log_effect_def)

named_theorems frames \<open>what the operations add to the effects\<close>

lemma extends_refl [simp, intro]: "extends K s s"
  by (simp add: extends_def)

lemma extends_trans [trans]: "extends K s s1 \<Longrightarrow> extends K s1 s2 \<Longrightarrow> extends K s s2"
  unfolding extends_def by (metis append.assoc list_all_append calm_trans)

lemma extends_mono: "extends K s s' \<Longrightarrow> (\<And>e. K e \<Longrightarrow> L e) \<Longrightarrow> extends L s s'"
  unfolding extends_def by (metis list.pred_mono_strong)

lemma extends_calm: "extends K s s' \<Longrightarrow> calm s s'"
  by (simp add: extends_def)

lemma extends_settled: "extends K s s' \<Longrightarrow> settled s' = settled s"
  by (simp add: extends_def calm_settled)

lemma extends_log: "K e \<Longrightarrow> extends K s (log_effect e s)"
  by (simp add: extends_def) (simp add: log_effect_def)

lemma extends_update [simp]:
  "extends K s (s'\<lparr>tick := t\<rparr>) = extends K s s'"
  "extends K s (s'\<lparr>webhook_pub := p\<rparr>) = extends K s s'"
  "extends K s (s'\<lparr>m_pn_cache := m\<rparr>) = extends K s s'"
  "extends K s (s'\<lparr>avatar_cache := a\<rparr>) = extends K s s'"
  "extends K s (s'\<lparr>group_name_cache := g\<rparr>) = extends K s s'"
  by (simp_all add: extends_def)

lemma extends_then_log: "extends K s s' \<Longrightarrow> K e \<Longrightarrow> extends K s (log_effect e s')"
  by (rule extends_trans [OF _ extends_log])

section \<open>Primitive calls\<close>

lemma extends_time_now [frames]: "extends K s (snd (time_now E s))"
  by (simp add: time_now_def)

lemma extends_calls [frames]:
  "K (ESendMessage c j w i) \<Longrightarrow> extends K s (snd (wa_send_message E c j w i s))"
  "K (EUpload c d m) \<Longrightarrow> extends K s (snd (wa_upload E c d m s))"
  "K (EIsOnWhatsApp c n) \<Longrightarrow> extends K s (snd (wa_is_on_whatsapp E c n s))"
  "K (EPnForLid c j) \<Longrightarrow> extends K s (snd (wa_pn_for_lid E c j s))"
  "K (EGroupInfo c j) \<Longrightarrow> extends K s (snd (wa_group_name E c j s))"
  "K (EPicture c j p) \<Longrightarrow> extends K s (snd (wa_picture_url E c j p s))"
  "K (ERejectCall c j k) \<Longrightarrow> extends K s (snd (wa_reject_call E c j k s))"
  "K (EMarkRead c k j j') \<Longrightarrow> extends K s (snd (wa_mark_read E c k j j' s))"
  "K (EHttpGet url) \<Longrightarrow> extends K s (snd (http_get E url s))"
  by (simp_all add: wa_send_message_def wa_upload_def wa_is_on_whatsapp_def wa_pn_for_lid_def
      wa_group_name_def wa_picture_url_def wa_reject_call_def wa_mark_read_def http_get_def extends_log)

section \<open>The broker\<close>

fun by_broker :: "effect \<Rightarrow> bool" where
  "by_broker (EAmqpDial u) = True"
| "by_broker (EAmqpClose c) = True"
| "by_broker (EAmqpDeclare x k) = True"
| "by_broker (EPublish x r p) = True"
| "by_broker (EHttpPost u p) = True"
| "by_broker (EChanClose c) = True"
| "by_broker _ = False"

lemma reconnect_extends: "extends by_broker s (snd (snd (reconnect E url p s)))"
  by (auto simp: reconnect_def amqp_dial_def amqp_channel_def amqp_declare_def
      intro!: extends_then_log split: sum.split option.split)

lemma ensure_extends: "extends by_broker s (snd (snd (ensure E p s)))"
proof -
  have "extends by_broker s
      (snd (snd (reconnect E url p (log_effect (EAmqpClose c) (s\<lparr>tick := t\<rparr>)))))" for url c t
    by (rule extends_trans [OF extends_then_log reconnect_extends]) simp_all
  then show ?thesis
    by (auto simp: ensure_def amqp_is_closed_def reconnect_extends split: option.split)
qed

lemma publish_webhook_extends: "extends by_broker s (snd (publish_webhook E rk p s))"
proof (cases "webhook_pub s")
  case None
  then show ?thesis by (simp add: publish_webhook_def)
next
  case (Some pb)
  obtain e p' s1 where en: "ensure E pb s = (e, p', s1)" by (cases "ensure E pb s")
  then have "extends by_broker s s1" using ensure_extends [of s E pb] by simp
  with Some en show ?thesis
    by (auto simp: publish_webhook_def Let_def amqp_publish_def
        intro!: extends_then_log split: option.split)
qed

lemma deliver_webhook_extends [frames]: "extends by_broker s (snd (deliver_webhook E sid p s))"
proof -
  obtain r s1 where pub: "publish_webhook E (normalize_phone sid) p s = (r, s1)"
    by (cases "publish_webhook E (normalize_phone sid) p s")
  have "extends by_broker s s1"
    using publish_webhook_extends [of s E "normalize_phone sid" p] pub by simp
  with pub show ?thesis
    by (cases r) (auto simp: deliver_webhook_eqs intro!: extends_then_log split: option.split)
qed

lemma deliver_after_clock [frames]:
  "extends by_broker s s1 \<Longrightarrow> extends by_broker s (snd (deliver_webhook E sid p s1))"
  by (rule extends_trans [OF _ deliver_webhook_extends])

section \<open>The emitters and the resolver\<close>

lemma emitters_extend [frames]:
  "extends by_broker s (snd (emit_cloud_receipt E sid ev s))"
  "extends by_broker s (snd (emit_cloud_deleted E sid info i s))"
  "extends by_broker s (snd (emit_cloud_sent E sid j i s))"
  "extends by_broker s (snd (emit_cloud_failed E sid to i c t s))"
  "extends by_broker s (snd (emit_cloud_outgoing_text E sid j i b s))"
  by (auto simp: emit_cloud_receipt_def emit_cloud_deleted_def emit_cloud_sent_def
      emit_cloud_failed_def emit_cloud_outgoing_text_def Let_def time_now_def intro!: frames)

fun by_query :: "effect \<Rightarrow> bool" where
  "by_query (EIsOnWhatsApp c n) = True"
| "by_query _ = False"

lemma pn_lookup_extends: "extends K s (snd (pn_lookup E key s))"
  by (simp add: pn_lookup_def time_now_def split: option.split)

lemma pn_store_extends: "extends K s (pn_store E key j s)"
  by (simp add: pn_store_def time_now_def)

lemma resolve_candidates_extends: "extends by_query s (snd (resolve_candidates E cli key cands s))"
proof (induction cands arbitrary: s)
  case (Cons c cs)
  have step: "extends by_query s (log_effect (EIsOnWhatsApp cli c) s)" by (rule extends_log) simp
  show ?case
    by (auto simp: wa_is_on_whatsapp_def
        intro: extends_trans [OF step Cons] extends_trans [OF step pn_store_extends]
        split: sum.split list.split)
qed simp

lemma check_candidates_extends: "extends by_query s (snd (check_candidates E cli key le cands s))"
proof (induction cands arbitrary: s le)
  case (Cons c cs)
  have step: "extends by_query s (log_effect (EIsOnWhatsApp cli c) s)" by (rule extends_log) simp
  show ?case
    by (auto simp: wa_is_on_whatsapp_def
        intro: extends_trans [OF step Cons] extends_trans [OF step pn_store_extends]
        split: sum.split list.split)
qed (simp split: option.split)

lemma resolver_extends [frames]:
  "extends by_query s (snd (resolve_pn_to_jid E cli phone s))"
  "extends by_query s (snd (check_user_exists E cli phone s))"
proof -
  obtain r s1 where look: "pn_lookup E (pn_key E phone) s = (r, s1)"
    by (cases "pn_lookup E (pn_key E phone) s")
  then have s1: "extends by_query s s1" using pn_lookup_extends [of by_query s E "pn_key E phone"] by simp
  from look s1 show "extends by_query s (snd (resolve_pn_to_jid E cli phone s))"
    by (cases r) (auto simp: resolve_pn_to_jid_def Let_def
        intro: extends_trans [OF _ resolve_candidates_extends])
  from look s1 show "extends by_query s (snd (check_user_exists E cli phone s))"
    by (cases r) (auto simp: check_user_exists_def Let_def
        intro: extends_trans [OF _ check_candidates_extends])
qed

end
