(* ===== verification/Send.thy ===== *)
theory Send
  imports Audio VCard Frames
begin

text \<open>
  \<open>Send\<close> of internal/provider/send.go: the choice of the session and of the destination, the
  reply and mention context, one branch per message type, and the status webhook of a message
  sent. The whatsmeow client, the web servers and ffmpeg answer through \<open>env\<close>; a returned error
  is a value of \<open>send_error\<close>, which names the branch it came from and carries its text.
\<close>

section \<open>Errors\<close>

datatype send_error =
    MissingSession
  | NotConnected string
  | NotRegistered string
  | InvalidRecipient string jid_error
  | EmptyTextBody
  | LinkRequired string
  | DownloadFailed string
  | AudioNotHttp
  | AudioFetch string
  | AudioConversion string
  | UploadFailed string
  | ContactsInvalid string
  | SendFailed string
  | WebhookFailed string
  | UnsupportedType string

type_synonym send_result = "(send_error, unit) outcome \<times> sys"

section \<open>Session and destination\<close>

definition send_with_id ::
  "env \<Rightarrow> client \<Rightarrow> jid \<Rightarrow> wa_message \<Rightarrow> string \<Rightarrow> sys \<Rightarrow> (string + string) \<times> sys" where
  "send_with_id E cli j w i s =
     (if trim_space i \<noteq> [] then wa_send_message E cli j w (Some i) s
      else wa_send_message E cli j w None s)"

text \<open>The session: the one of the context (the routing key), when it has a string that is not blank.\<close>

definition session_of :: "string option \<Rightarrow> outgoing_message \<Rightarrow> string" where
  "session_of ctx msg =
     (case ctx of
        Some t \<Rightarrow> if trim_space t \<noteq> [] then trim_space t else trim_space (om_session_id msg)
      | None \<Rightarrow> trim_space (om_session_id msg))"

definition should_check :: "string \<Rightarrow> string \<Rightarrow> sys \<Rightarrow> bool" where
  "should_check sid raw_to s =
     (get_check_user_exists sid s \<and>
      \<not> (contains raw_to ''@g.us'' \<or> contains raw_to ''@broadcast'' \<or> contains raw_to ''@lid''))"

text \<open>
  The legacy resolution: the server's answer when it knows the number, and otherwise the JID in
  the text or the one of its normalised digits.
\<close>

definition legacy_destination ::
  "env \<Rightarrow> client \<Rightarrow> outgoing_message \<Rightarrow> sys \<Rightarrow> (send_error, jid) outcome \<times> sys" where
  "legacy_destination E cli msg s =
     (let raw_to = trim_space (om_to msg) in
      case resolve_pn_to_jid E cli raw_to s of
        (Some j, s1) \<Rightarrow> (Ok j, s1)
      | (None, s1) \<Rightarrow>
          (case (if contains raw_to ''@'' then to_jid (lib_jid E) raw_to
                 else to_user_jid (lib_jid E) (phone_number_to_jid_digits raw_to)) of
             Ok j \<Rightarrow> (Ok j, s1)
           | Err e \<Rightarrow> (Err (InvalidRecipient (om_to msg) e), s1)
           | Panic r \<Rightarrow> (Panic r, s1)))"

text \<open>
  The destination: a number known not to be registered is reported as failed to the webhook,
  whose own error only goes to the log, and is an error; a failed check is ignored. A checked
  JID that is the zero JID counts as not found.
\<close>

definition destination ::
  "env \<Rightarrow> client \<Rightarrow> string \<Rightarrow> outgoing_message \<Rightarrow> sys \<Rightarrow> (send_error, jid) outcome \<times> sys" where
  "destination E cli sid msg s =
     (let raw_to = trim_space (om_to msg) in
      if \<not> should_check sid raw_to s then legacy_destination E cli msg s
      else
        (case check_user_exists E cli raw_to s of
           (Ok (Some j), s1) \<Rightarrow>
             if j = empty_jid then legacy_destination E cli msg s1 else (Ok j, s1)
         | (Ok None, s1) \<Rightarrow>
             (case emit_cloud_failed E sid raw_to (om_message_id msg) 2
                (''The phone number '' @ raw_to @ '' does not have WhatsApp account!'') s1 of
                (Panic r, s2) \<Rightarrow> (Panic r, s2)
              | (_, s2) \<Rightarrow> (Err (NotRegistered raw_to), s2))
         | (Err e, s1) \<Rightarrow> legacy_destination E cli msg s1
         | (Panic r, s1) \<Rightarrow> (Panic r, s1)))"

section \<open>The reply and mention context\<close>

definition stanza_of :: "message_context \<Rightarrow> string" where
  "stanza_of c =
     (if mc_stanzaId c \<noteq> [] then mc_stanzaId c
      else if mc_stanza_id c \<noteq> [] then mc_stanza_id c
      else if mc_id c \<noteq> [] then mc_id c
      else mc_message_id c)"

fun mentioned_jids :: "jid_lib \<Rightarrow> string list \<Rightarrow> string list" where
  "mentioned_jids L [] = []"
| "mentioned_jids L (m # ms) =
     (let mnt = trim_space m in
      if mnt = [] then mentioned_jids L ms
      else (case to_user_jid L mnt of
              Ok j \<Rightarrow> jid_string L j # mentioned_jids L ms
            | _ \<Rightarrow> mentioned_jids L ms))"

definition reply_participant :: "jid_lib \<Rightarrow> jid \<Rightarrow> message_context \<Rightarrow> string option" where
  "reply_participant L dest c =
     (let given = (if mc_participant c \<noteq> [] then
                     (case to_user_jid L (mc_participant c) of
                        Ok j \<Rightarrow> Some (jid_string L j) | _ \<Rightarrow> None)
                   else None) in
      if (given = None \<or> given = Some []) \<and> \<not> is_group_jid dest
      then Some (jid_string L dest) else given)"

text \<open>
  The context of the message; \<open>Ok None\<close> when it has none. A log call between the two steps
  reads the fields of the request's context also when there are only mentions, and so panics on
  the nil context.
\<close>

definition build_context :: "jid_lib \<Rightarrow> jid \<Rightarrow> outgoing_message \<Rightarrow> (send_error, context_info option) outcome" where
  "build_context L dest msg =
     (case om_context msg of
        None \<Rightarrow>
          if om_mentions msg = [] then Ok None
          else Panic ''invalid memory address or nil pointer dereference''
      | Some c \<Rightarrow>
          (let stanza = stanza_of c;
               mentioned = mentioned_jids L (mc_mentioned_jid c @ mc_mentions c @ om_mentions msg) in
           if stanza = [] \<and> mentioned = [] then Ok None
           else if stanza = [] then Ok (Some (empty_context\<lparr>ci_mentioned := mentioned\<rparr>))
           else
             Ok (Some
               \<lparr>ci_stanza_id = Some stanza, ci_participant = reply_participant L dest c,
                ci_is_forwarded = False,
                ci_quoted = Some \<lparr>q_conversation = Some (trim_space (mc_quoted_text c))\<rparr>,
                ci_mentioned = mentioned\<rparr>)))"

section \<open>Media\<close>

definition download_bytes :: "env \<Rightarrow> string \<Rightarrow> sys \<Rightarrow> (string, bytes \<times> string) outcome \<times> sys" where
  "download_bytes E url s =
     (case env_request_error E url of
        Some e \<Rightarrow> (Err e, s)
      | None \<Rightarrow>
          (case http_get E url s of
             (Inl e, s1) \<Rightarrow> (Err e, s1)
           | (Inr resp, s1) \<Rightarrow>
               if hr_status_code resp \<noteq> 200
               then (Err (''failed to download media, status: '' @ hr_status resp), s1)
               else (case hr_body resp of
                       Inl e \<Rightarrow> (Err e, s1)
                     | Inr data \<Rightarrow> (Ok (data, lib_detect_content_type E data), s1))))"

definition download_bytes_with_header ::
  "env \<Rightarrow> string \<Rightarrow> sys \<Rightarrow> (string, bytes \<times> string \<times> (string \<Rightarrow> string)) outcome \<times> sys" where
  "download_bytes_with_header E url s =
     (case env_request_error E url of
        Some e \<Rightarrow> (Err e, s)
      | None \<Rightarrow>
          (case http_get E url s of
             (Inl e, s1) \<Rightarrow> (Err e, s1)
           | (Inr resp, s1) \<Rightarrow>
               if hr_status_code resp \<noteq> 200
               then (Err (''failed to download media, status: '' @ hr_status resp), s1)
               else (case hr_body resp of
                       Inl e \<Rightarrow> (Err e, s1)
                     | Inr data \<Rightarrow>
                         (let ct = hr_header resp ''Content-Type'' in
                          (Ok (data, if ct \<noteq> [] \<and> ct \<noteq> ''application/octet-stream'' then ct
                                     else lib_detect_content_type E data, hr_header resp), s1)))))"

text \<open>The link and caption of a media message, with the fields of the message itself behind them.\<close>

definition first_nonempty :: "string \<Rightarrow> string \<Rightarrow> string" where
  "first_nonempty a b = (if trim_space a = [] then trim_space b else trim_space a)"

definition media_link :: "'a link_content_scheme option \<Rightarrow> outgoing_message \<Rightarrow> string" where
  "media_link c msg =
     first_nonempty (case c of None \<Rightarrow> [] | Some x \<Rightarrow> lc_link x) (om_media_url msg)"

definition media_caption :: "'a captioned_content_scheme option \<Rightarrow> outgoing_message \<Rightarrow> string" where
  "media_caption c msg =
     first_nonempty (case c of None \<Rightarrow> [] | Some x \<Rightarrow> cc_caption x) (om_caption msg)"

text \<open>The file name of a document: the one given, or the last part of the link.\<close>

definition document_name :: "document_content option \<Rightarrow> string \<Rightarrow> string" where
  "document_name c link =
     (let given = (case c of None \<Rightarrow> [] | Some x \<Rightarrow> trim_space (dc_file_name x)) in
      if given = [] then last (split_on (CHR ''/'') (trim_right_byte (CHR ''/'') link)) else given)"

definition nonempty :: "string \<Rightarrow> string option" where
  "nonempty t = (if t = [] then None else Some t)"

text \<open>The message of each media type from the file, its MIME type, the upload, caption and context.\<close>

definition file_length :: "bytes \<Rightarrow> 64 word option" where
  "file_length data = Some (of_nat (length data))"

definition captioned ::
  "bytes \<Rightarrow> string \<Rightarrow> upload_response \<Rightarrow> string \<Rightarrow> context_info option \<Rightarrow> captioned_message" where
  "captioned data mime up caption ctx =
     \<lparr>mm_url = Some (up_url up), mm_direct_path = Some (up_direct_path up),
      mm_media_key = up_media_key up, mm_file_enc_sha256 = up_file_enc_sha256 up,
      mm_file_sha256 = up_file_sha256 up, mm_file_length = file_length data,
      mm_mimetype = Some mime, mm_context = ctx, cm_caption = nonempty caption\<rparr>"

definition image_message ::
  "string \<Rightarrow> context_info option \<Rightarrow> bytes \<Rightarrow> string \<Rightarrow> upload_response \<Rightarrow> wa_message" where
  "image_message caption ctx data mime up =
     empty_message\<lparr>wm_image := Some (captioned data mime up caption ctx)\<rparr>"

definition video_message ::
  "string \<Rightarrow> context_info option \<Rightarrow> bytes \<Rightarrow> string \<Rightarrow> upload_response \<Rightarrow> wa_message" where
  "video_message caption ctx data mime up =
     empty_message\<lparr>wm_video := Some (captioned data mime up caption ctx)\<rparr>"

definition document_wire ::
  "string \<Rightarrow> string \<Rightarrow> context_info option \<Rightarrow> bytes \<Rightarrow> string \<Rightarrow> upload_response \<Rightarrow> wa_message" where
  "document_wire caption filename ctx data mime up =
     empty_message\<lparr>wm_document := Some (captioned_message.extend (captioned data mime up caption ctx)
       (document_message.fields (Some filename) None))\<rparr>"

definition sticker_message ::
  "context_info option \<Rightarrow> bytes \<Rightarrow> string \<Rightarrow> upload_response \<Rightarrow> wa_message" where
  "sticker_message ctx data mime up =
     empty_message\<lparr>wm_sticker := Some (media_message.truncate (captioned data mime up [] ctx))\<rparr>"

definition audio_wire ::
  "bool \<Rightarrow> 32 word \<Rightarrow> bytes \<Rightarrow> context_info option \<Rightarrow> bytes \<Rightarrow> string \<Rightarrow> upload_response \<Rightarrow> wa_message" where
  "audio_wire ptt secs waveform ctx data mime up =
     empty_message\<lparr>wm_audio := Some (media_message.extend
       (media_message.truncate (captioned data mime up [] ctx))
       (audio_message.fields (Some ptt) (if secs > 0 then Some secs else None) waveform))\<rparr>"

section \<open>Sending\<close>

definition sbind ::
  "('e, 'a) outcome \<times> sys \<Rightarrow> ('a \<Rightarrow> sys \<Rightarrow> ('e, 'b) outcome \<times> sys) \<Rightarrow> ('e, 'b) outcome \<times> sys" where
  "sbind m f =
     (case m of (Ok v, s) \<Rightarrow> f v s | (Err e, s) \<Rightarrow> (Err e, s) | (Panic r, s) \<Rightarrow> (Panic r, s))"

definition relabel :: "('e \<Rightarrow> 'f) \<Rightarrow> ('e, 'a) outcome \<times> sys \<Rightarrow> ('f, 'a) outcome \<times> sys" where
  "relabel g m = map_prod (map_outcome g id) id m"

definition of_sum :: "(string + 'a) \<times> sys \<Rightarrow> (string, 'a) outcome \<times> sys" where
  "of_sum m = (case m of (Inl e, s) \<Rightarrow> (Err e, s) | (Inr v, s) \<Rightarrow> (Ok v, s))"

text \<open>The end of every branch: the message goes out, and its id to the webhook.\<close>

definition dispatch ::
  "env \<Rightarrow> string \<Rightarrow> client \<Rightarrow> jid \<Rightarrow> outgoing_message \<Rightarrow> wa_message \<Rightarrow> sys \<Rightarrow> send_result" where
  "dispatch E sid cli dest msg wire s =
     sbind (relabel SendFailed (of_sum (send_with_id E cli dest wire (om_message_id msg) s)))
       (\<lambda>wa_id s1. relabel WebhookFailed (emit_cloud_sent E sid dest wa_id s1))"

definition send_text ::
  "env \<Rightarrow> string \<Rightarrow> client \<Rightarrow> jid \<Rightarrow> context_info option \<Rightarrow> outgoing_message \<Rightarrow> sys \<Rightarrow> send_result" where
  "send_text E sid cli dest ctx msg s =
     (let body = first_nonempty (om_body msg) (case om_text msg of None \<Rightarrow> [] | Some t \<Rightarrow> tc_body t) in
      if body = [] then (Err EmptyTextBody, s)
      else
        dispatch E sid cli dest msg
          (case ctx of
             Some ci \<Rightarrow> empty_message\<lparr>wm_extended_text := Some \<lparr>et_text = Some body, et_context = Some ci\<rparr>\<rparr>
           | None \<Rightarrow> empty_message\<lparr>wm_conversation := Some body\<rparr>) s)"

text \<open>Image, document, video and sticker: download, upload, send.\<close>

definition send_media ::
  "env \<Rightarrow> string \<Rightarrow> client \<Rightarrow> jid \<Rightarrow> outgoing_message \<Rightarrow> string \<Rightarrow> media_type \<Rightarrow> string \<Rightarrow>
   (bytes \<Rightarrow> string \<Rightarrow> upload_response \<Rightarrow> wa_message) \<Rightarrow> sys \<Rightarrow> send_result" where
  "send_media E sid cli dest msg kind mtype link build s =
     (if link = [] then (Err (LinkRequired kind), s)
      else
        sbind (relabel DownloadFailed (download_bytes E link s)) (\<lambda>(data, mime) s1.
          sbind (relabel UploadFailed (of_sum (wa_upload E cli data mtype s1))) (\<lambda>up s2.
            dispatch E sid cli dest msg (build data mime up) s2)))"

definition http_url :: "string \<Rightarrow> bool" where
  "http_url src = (has_prefix src ''http://'' \<or> has_prefix src ''https://'')"

text \<open>The audio file as fetched, with the headers of the response.\<close>

definition fetch_audio ::
  "env \<Rightarrow> string \<Rightarrow> sys \<Rightarrow> (string, bytes \<times> (string \<Rightarrow> string)) outcome \<times> sys" where
  "fetch_audio E src s =
     (case env_request_error E src of
        Some e \<Rightarrow> (Err e, s)
      | None \<Rightarrow>
          (case http_get E src s of
             (Inl e, s1) \<Rightarrow> (Err e, s1)
           | (Inr resp, s1) \<Rightarrow>
               if hr_status_code resp \<noteq> 200
               then (Err (''failed to fetch audio: '' @ hr_status resp), s1)
               else (case hr_body resp of
                       Inl e \<Rightarrow> (Err (''reading audio content: '' @ e), s1)
                     | Inr data \<Rightarrow> (Ok (data, hr_header resp), s1))))"

text \<open>A voice note is converted by ffmpeg, or by the decoder and encoder in Go when that fails.\<close>

definition convert_voice :: "env \<Rightarrow> bytes \<Rightarrow> sys \<Rightarrow> (string, bytes \<times> 32 word \<times> bytes) outcome \<times> sys" where
  "convert_voice E original s =
     (case convert_to_ogg_opus_ffmpeg_with_waveform E original s of
        (Err e, s1) \<Rightarrow> (convert_mp3_to_ogg E original, s1)
      | r \<Rightarrow> r)"

definition audio_mime :: "env \<Rightarrow> string \<Rightarrow> bool \<Rightarrow> bytes \<Rightarrow> (string \<Rightarrow> string) \<Rightarrow> string" where
  "audio_mime E src ptt data hdr =
     (if ptt then ''audio/ogg; codecs=opus''
      else
        (let ct = hdr ''Content-Type'';
             mime = (if ct = [] \<or> ct = ''application/octet-stream'' then lib_detect_content_type E data
                     else ct) in
         normalize_audio_mime src mime ptt))"

definition wants_ptt :: "outgoing_message \<Rightarrow> sys \<Rightarrow> bool" where
  "wants_ptt msg s =
     (case om_audio msg of
        Some a \<Rightarrow> (case ac_ptt a of Some b \<Rightarrow> b | None \<Rightarrow> m_default_audio_ptt s)
      | None \<Rightarrow> m_default_audio_ptt s)"

text \<open>The second half of the audio branch, from the converted data on, and the conversion before it.\<close>

definition send_audio_data ::
  "env \<Rightarrow> string \<Rightarrow> client \<Rightarrow> jid \<Rightarrow> context_info option \<Rightarrow> outgoing_message \<Rightarrow> (string \<Rightarrow> string) \<Rightarrow>
   bool \<Rightarrow> bytes \<times> 32 word \<times> bytes \<Rightarrow> sys \<Rightarrow> send_result" where
  "send_audio_data E sid cli dest ctx msg hdr ptt converted s =
     (case converted of
        (data, secs0, waveform) \<Rightarrow>
          (let secs = (if secs0 = 0
                       then pick_seconds (Option.bind (om_audio msg) ac_seconds) hdr ptt else secs0);
               mime = audio_mime E (media_link (om_audio msg) msg) ptt data hdr in
           sbind (relabel UploadFailed (of_sum (wa_upload E cli data MediaAudio s))) (\<lambda>up s1.
             dispatch E sid cli dest msg (audio_wire ptt secs waveform ctx data mime up) s1)))"

definition send_fetched_audio ::
  "env \<Rightarrow> string \<Rightarrow> client \<Rightarrow> jid \<Rightarrow> context_info option \<Rightarrow> outgoing_message \<Rightarrow>
   bytes \<times> (string \<Rightarrow> string) \<Rightarrow> sys \<Rightarrow> send_result" where
  "send_fetched_audio E sid cli dest ctx msg fetched s =
     (case fetched of
        (original, hdr) \<Rightarrow>
          if wants_ptt msg s
          then sbind (relabel AudioConversion (convert_voice E original s))
                 (send_audio_data E sid cli dest ctx msg hdr True)
          else send_audio_data E sid cli dest ctx msg hdr False (original, 0, []) s)"

definition send_audio ::
  "env \<Rightarrow> string \<Rightarrow> client \<Rightarrow> jid \<Rightarrow> context_info option \<Rightarrow> outgoing_message \<Rightarrow> sys \<Rightarrow> send_result" where
  "send_audio E sid cli dest ctx msg s =
     (let src = media_link (om_audio msg) msg in
      if src = [] then (Err (LinkRequired ''audio''), s)
      else if \<not> http_url src then (Err AudioNotHttp, s)
      else sbind (relabel AudioFetch (fetch_audio E src s)) (send_fetched_audio E sid cli dest ctx msg))"

definition send_contacts ::
  "env \<Rightarrow> string \<Rightarrow> client \<Rightarrow> jid \<Rightarrow> outgoing_message \<Rightarrow> sys \<Rightarrow> send_result" where
  "send_contacts E sid cli dest msg s =
     sbind (relabel ContactsInvalid (contacts_array (om_contacts msg), s)) (\<lambda>arr s1.
       dispatch E sid cli dest msg (empty_message\<lparr>wm_contacts := Some arr\<rparr>) s1)"

definition send_by_type ::
  "env \<Rightarrow> string \<Rightarrow> client \<Rightarrow> jid \<Rightarrow> context_info option \<Rightarrow> outgoing_message \<Rightarrow> sys \<Rightarrow> send_result" where
  "send_by_type E sid cli dest ctx msg s =
     (let kind = to_lower (om_type msg) in
      if kind = ''text'' then send_text E sid cli dest ctx msg s
      else if kind = ''image'' then
        send_media E sid cli dest msg kind MediaImage (media_link (om_image msg) msg)
          (image_message (media_caption (om_image msg) msg) ctx) s
      else if kind = ''document'' then
        (let link = media_link (om_document msg) msg in
         send_media E sid cli dest msg kind MediaDocument link
           (document_wire (media_caption (om_document msg) msg)
              (document_name (om_document msg) link) ctx) s)
      else if kind = ''video'' then
        send_media E sid cli dest msg kind MediaVideo (media_link (om_video msg) msg)
          (video_message (media_caption (om_video msg) msg) ctx) s
      else if kind = ''audio'' then send_audio E sid cli dest ctx msg s
      else if kind = ''sticker'' then
        send_media E sid cli dest msg kind MediaStickerPack (media_link (om_sticker msg) msg)
          (sticker_message ctx) s
      else if kind = ''contacts'' then send_contacts E sid cli dest msg s
      else (Err (UnsupportedType (om_type msg)), s))"

definition send :: "env \<Rightarrow> string option \<Rightarrow> outgoing_message \<Rightarrow> sys \<Rightarrow> send_result" where
  "send E session_ctx msg s =
     (let sid = session_of session_ctx msg in
      if sid = [] then (Err MissingSession, s)
      else
        (case get_client sid s of
           None \<Rightarrow> (Err (NotConnected sid), s)
         | Some cli \<Rightarrow>
             sbind (destination E cli sid msg s) (\<lambda>dest s1.
               sbind (build_context (lib_jid E) dest msg, s1) (\<lambda>ctx s2.
                 send_by_type E sid cli dest ctx msg s2))))"

section \<open>What is sent\<close>

fun send_of :: "effect \<Rightarrow> (client \<times> jid \<times> wa_message \<times> string option) list" where
  "send_of (ESendMessage c j w i) = [(c, j, w, i)]"
| "send_of _ = []"

definition sends :: "effect list \<Rightarrow> (client \<times> jid \<times> wa_message \<times> string option) list" where
  "sends es = concat (map send_of es)"

definition quiet :: "effect \<Rightarrow> bool" where
  "quiet e = (send_of e = [])"

lemma sends_append [simp]: "sends (xs @ ys) = sends xs @ sends ys"
  by (simp add: sends_def)

lemma extends_sends: "extends quiet s s' \<Longrightarrow> sends (effects s') = sends (effects s)"
  by (auto simp: extends_def quiet_def list_all_iff sends_def)

lemma by_broker_quiet: "by_broker e \<Longrightarrow> quiet e"
  by (cases e) (simp_all add: quiet_def)

lemma by_query_quiet: "by_query e \<Longrightarrow> quiet e"
  by (cases e) (simp_all add: quiet_def)

lemma broker_quiet: "extends by_broker s s' \<Longrightarrow> extends quiet s s'"
  by (erule extends_mono) (rule by_broker_quiet)

lemma query_quiet: "extends by_query s s' \<Longrightarrow> extends quiet s s'"
  by (erule extends_mono) (rule by_query_quiet)

lemmas quiet_frames =
  broker_quiet [OF deliver_webhook_extends] broker_quiet [OF emitters_extend(4)]
  query_quiet [OF resolver_extends(1)] query_quiet [OF resolver_extends(2)]

lemma extends_chain: "extends K s s1 \<Longrightarrow> m = (r, s2) \<Longrightarrow> extends K s1 (snd m) \<Longrightarrow> extends K s s2"
  by (auto intro: extends_trans)

lemma legacy_destination_quiet: "extends quiet s (snd (legacy_destination E cli msg s))"
proof -
  obtain r s1 where "resolve_pn_to_jid E cli (trim_space (om_to msg)) s = (r, s1)"
    by (cases "resolve_pn_to_jid E cli (trim_space (om_to msg)) s")
  with quiet_frames(3) [of s E cli "trim_space (om_to msg)"] show ?thesis
    by (auto simp: legacy_destination_def Let_def split: option.split outcome.split)
qed

lemma destination_quiet: "extends quiet s (snd (destination E cli sid msg s))"
proof -
  let ?to = "trim_space (om_to msg)"
  obtain r s1 where chk: "check_user_exists E cli ?to s = (r, s1)"
    by (cases "check_user_exists E cli ?to s")
  then have s1: "extends quiet s s1" using quiet_frames(4) [of s E cli ?to] by simp
  let ?title = "''The phone number '' @ ?to @ '' does not have WhatsApp account!''"
  obtain r2 s2 where failed: "emit_cloud_failed E sid ?to (om_message_id msg) 2 ?title s1 = (r2, s2)"
    by (cases "emit_cloud_failed E sid ?to (om_message_id msg) 2 ?title s1")
  then have "extends quiet s1 s2"
    using quiet_frames(2) [of s1 E sid ?to "om_message_id msg" 2 ?title] by simp
  with s1 have s2: "extends quiet s s2" by (rule extends_trans)
  note legacy = extends_trans [OF s1 legacy_destination_quiet]
  show ?thesis
  proof (cases "should_check sid ?to s")
    case False
    then show ?thesis by (simp add: destination_def legacy_destination_quiet)
  next
    case True
    with chk failed s1 s2 show ?thesis
      by (cases r; cases r2) (auto simp: destination_def Let_def legacy split: option.split)
  qed
qed

lemma sbind_quiet:
  assumes "extends K s (snd m)" and "\<And>v s1. extends K s s1 \<Longrightarrow> extends K s (snd (f v s1))"
  shows "extends K s (snd (sbind m f))"
  using assms by (cases m) (auto simp: sbind_def split: outcome.split)

lemma snd_relabel [simp]: "snd (relabel g m) = snd m"
  by (simp add: relabel_def)

lemma snd_of_sum [simp]: "snd (of_sum m) = snd m"
  by (auto simp: of_sum_def split: prod.split sum.split)

lemma download_quiet: "extends quiet s (snd (download_bytes E link s))"
  by (auto simp: download_bytes_def http_get_def quiet_def intro!: extends_then_log
      split: option.split sum.split)

lemma fetch_audio_quiet: "extends quiet s (snd (fetch_audio E link s))"
  by (auto simp: fetch_audio_def http_get_def quiet_def intro!: extends_then_log
      split: option.split sum.split)

lemma upload_quiet: "extends quiet s (snd (wa_upload E cli d m s))"
  by (rule extends_calls) (simp add: quiet_def)

lemma run_ffmpeg_quiet: "extends quiet s (snd (run_ffmpeg E d a s))"
  by (simp add: run_ffmpeg_def quiet_def extends_log)

lemma convert_voice_quiet: "extends quiet s (snd (convert_voice E d s))"
proof -
  obtain r1 s1 where 1: "run_ffmpeg E d pcm_args s = (r1, s1)" by (cases "run_ffmpeg E d pcm_args s")
  obtain r2 s2 where 2: "run_ffmpeg E d ogg_args s1 = (r2, s2)" by (cases "run_ffmpeg E d ogg_args s1")
  have s1: "extends quiet s s1" using run_ffmpeg_quiet [of s E d pcm_args] 1 by simp
  have "extends quiet s1 s2" using run_ffmpeg_quiet [of s1 E d ogg_args] 2 by simp
  with s1 have s2: "extends quiet s s2" by (rule extends_trans)
  obtain a b c where r1: "r1 = (a, b, c)" by (cases r1)
  obtain a' b' c' where r2: "r2 = (a', b', c')" by (cases r2)
  have "extends quiet s (snd (convert_to_ogg_opus_ffmpeg_with_waveform E d s))"
    using 1 2 s1 s2
    by (cases c; cases c') (auto simp: convert_to_ogg_opus_ffmpeg_with_waveform_def r1 r2 Let_def)
  then show ?thesis
    by (auto simp: convert_voice_def split: prod.split outcome.split)
qed


text \<open>What the last step of every branch does: one attempt to send, then the webhook if it worked.\<close>

definition request_id :: "outgoing_message \<Rightarrow> string option" where
  "request_id msg = (if trim_space (om_message_id msg) \<noteq> [] then Some (om_message_id msg) else None)"

lemma dispatch_sends:
  "calm s (snd (dispatch E sid cli dest msg w s)) \<and>
   sends (effects (snd (dispatch E sid cli dest msg w s))) =
     sends (effects s) @ [(cli, dest, w, request_id msg)]"
proof -
  have eq: "send_with_id E cli dest w (om_message_id msg) s = wa_send_message E cli dest w (request_id msg) s"
    by (simp add: send_with_id_def request_id_def)
  let ?s1 = "log_effect (ESendMessage cli dest w (request_id msg)) s"
  have s1: "calm s ?s1" "sends (effects ?s1) = sends (effects s) @ [(cli, dest, w, request_id msg)]"
    by simp (simp add: log_effect_def sends_def)
  have sent: "calm s (snd (emit_cloud_sent E sid dest i ?s1)) \<and>
    sends (effects (snd (emit_cloud_sent E sid dest i ?s1))) = sends (effects ?s1)" for i
    using broker_quiet [OF emitters_extend(3), of ?s1 E sid dest i] extends_sends calm_trans [OF s1(1) extends_calm] by blast
  then show ?thesis
    using s1
    by (simp add: dispatch_def eq wa_send_message_def of_sum_def relabel_def sbind_def split: sum.split)
qed

definition sends_one :: "string \<Rightarrow> client \<Rightarrow> outgoing_message \<Rightarrow> (wa_message \<Rightarrow> bool) \<Rightarrow> jid \<Rightarrow> sys \<Rightarrow> send_result \<Rightarrow> bool" where
  "sends_one sid cli msg P dest s r \<longleftrightarrow>
     calm s (snd r) \<and> \<not> is_panic (fst r) \<and>
     (sends (effects (snd r)) = sends (effects s) \<and> (\<exists>e. fst r = Err e) \<or>
      (\<exists>w. P w \<and> sends (effects (snd r)) = sends (effects s) @ [(cli, dest, w, request_id msg)]))"

lemma is_panic_map_outcome [simp]: "is_panic (map_outcome f g m) = is_panic m"
  by (cases m) simp_all

lemma is_panic_relabel [simp]: "is_panic (fst (relabel g m)) = is_panic (fst m)"
  by (cases "fst m") (simp_all add: relabel_def)

lemma is_panic_of_sum [simp]: "\<not> is_panic (fst (of_sum m))"
  by (auto simp: of_sum_def split: prod.split sum.split)

lemma sends_one_error: "extends quiet s s' \<Longrightarrow> sends_one sid cli msg P dest s (Err e, s')"
  by (auto simp: sends_one_def extends_calm extends_sends)

lemma sends_one_dispatch:
  assumes "extends quiet s s1" and "P w"
  shows "sends_one sid cli msg P dest s (dispatch E sid cli dest msg w s1)"
proof -
  have "\<not> is_panic (fst (emit_cloud_sent E sid dest i s2))" for i s2
    using emit_cloud_sent_emits [of sid s2 E dest i] by (simp add: emits_webhook_def)
  then have "\<not> is_panic (fst (dispatch E sid cli dest msg w s1))"
    by (auto simp: dispatch_def sbind_def of_sum_def relabel_def split: prod.split sum.split)
  then show ?thesis
    using dispatch_sends [of s1 E sid cli dest msg w] assms extends_sends [of s s1] calm_trans [OF extends_calm [of quiet s s1]]
    by (auto simp: sends_one_def)
qed

lemma sends_one_sbind:
  assumes "extends quiet s (snd m)" and "\<not> is_panic (fst m)"
    and "\<And>v s1. fst m = Ok v \<Longrightarrow> extends quiet s s1 \<Longrightarrow> sends_one sid cli msg P dest s (f v s1)"
  shows "sends_one sid cli msg P dest s (sbind m f)"
  using assms by (cases m; cases "fst m") (auto simp: sbind_def sends_one_error)

lemma send_text_one:
  assumes "extends quiet s s1" and "\<And>t. P (empty_message\<lparr>wm_conversation := Some t\<rparr>)"
    and "\<And>x. P (empty_message\<lparr>wm_extended_text := Some x\<rparr>)"
  shows "sends_one sid cli msg P dest s (send_text E sid cli dest ctx msg s1)"
  using assms
  by (auto simp: send_text_def Let_def intro!: sends_one_error sends_one_dispatch split: option.split)

lemma download_no_panic [simp]: "\<not> is_panic (fst (download_bytes E link s))"
  by (auto simp: download_bytes_def split: option.split prod.split sum.split)

lemma fetch_audio_no_panic [simp]: "\<not> is_panic (fst (fetch_audio E link s))"
  by (auto simp: fetch_audio_def split: option.split prod.split sum.split)

lemma send_media_one:
  assumes "extends quiet s s1" and "\<And>d m u. P (build d m u)"
  shows "sends_one sid cli msg P dest s (send_media E sid cli dest msg kind mtype link build s1)"
  unfolding send_media_def
  using assms
  by (auto intro!: sends_one_error sends_one_sbind sends_one_dispatch download_no_panic
      intro: extends_trans [OF _ download_quiet] extends_trans [OF _ upload_quiet])

definition voice_note :: "wa_message \<Rightarrow> bool" where
  "voice_note w \<longleftrightarrow>
     (case wm_audio w of
        None \<Rightarrow> False
      | Some a \<Rightarrow> am_ptt a = Some True \<and> mm_mimetype a = Some ''audio/ogg; codecs=opus'' \<and>
          am_seconds a \<noteq> None \<and> am_seconds a \<noteq> Some 0 \<and> length (am_waveform a) = 64)"

definition audio_of :: "outgoing_message \<Rightarrow> sys \<Rightarrow> wa_message \<Rightarrow> bool" where
  "audio_of msg s w = (if wants_ptt msg s then voice_note w else wm_audio w \<noteq> None)"

lemma convert_voice_Ok: "fst (convert_voice E d s) = Ok (out, secs, wave) \<Longrightarrow> secs \<noteq> 0 \<and> length wave = 64"
  using ffmpeg_conversion_Ok [of E d s] convert_mp3_to_ogg_Ok [of E d]
  by (auto simp: convert_voice_def split: prod.splits outcome.splits)

lemma convert_voice_no_panic [simp]: "\<not> is_panic (fst (convert_voice E d s))"
  using ffmpeg_conversion_frame [of E d s] convert_mp3_to_ogg_no_panic [of E d]
  by (auto simp: convert_voice_def split: prod.splits outcome.splits)

lemma send_audio_data_one:
  assumes "extends quiet s s1" and "ptt \<Longrightarrow> fst (snd conv) \<noteq> 0 \<and> length (snd (snd conv)) = 64"
  shows "sends_one sid cli msg (\<lambda>w. if ptt then voice_note w else wm_audio w \<noteq> None) dest s
    (send_audio_data E sid cli dest ctx msg hdr ptt conv s1)"
  unfolding send_audio_data_def Let_def
  using assms
  by (auto intro!: sends_one_sbind sends_one_dispatch intro: extends_trans [OF _ upload_quiet]
      split: prod.split)
    (auto simp: audio_wire_def voice_note_def audio_mime_def captioned_def media_message.defs
      audio_message.defs word_gt_0)

lemma wants_ptt_settled: "extends quiet s s1 \<Longrightarrow> wants_ptt msg s1 = wants_ptt msg s"
  using settled_eqD(8) [OF extends_settled, of quiet s s1] by (auto simp: wants_ptt_def split: option.split)

lemma send_fetched_audio_one:
  assumes "extends quiet s s1"
  shows "sends_one sid cli msg (audio_of msg s) dest s
    (send_fetched_audio E sid cli dest ctx msg fetched s1)"
proof (cases "wants_ptt msg s")
  case True
  then have P: "audio_of msg s = voice_note" by (auto simp: audio_of_def)
  obtain d hdr where f: "fetched = (d, hdr)" by (cases fetched)
  have "sends_one sid cli msg voice_note dest s
      (sbind (relabel AudioConversion (convert_voice E d s1)) (send_audio_data E sid cli dest ctx msg hdr True))"
  proof (rule sends_one_sbind)
    show "extends quiet s (snd (relabel AudioConversion (convert_voice E d s1)))"
      using extends_trans [OF assms convert_voice_quiet] by simp
    fix v s2
    assume v: "fst (relabel AudioConversion (convert_voice E d s1)) = Ok v" and s2: "extends quiet s s2"
    have "fst (convert_voice E d s1) = Ok v"
      using v by (cases "fst (convert_voice E d s1)") (auto simp: relabel_def)
    then have "fst (snd v) \<noteq> 0 \<and> length (snd (snd v)) = 64"
      using convert_voice_Ok [of E d s1] by (cases v) auto
    with send_audio_data_one [OF s2, of True v]
    show "sends_one sid cli msg voice_note dest s (send_audio_data E sid cli dest ctx msg hdr True v s2)"
      by simp
  qed simp
  with True f wants_ptt_settled [OF assms] show ?thesis by (simp add: send_fetched_audio_def P)
next
  case False
  then have P: "audio_of msg s = (\<lambda>w. wm_audio w \<noteq> None)" by (auto simp: audio_of_def)
  from False show ?thesis
    using send_audio_data_one [OF assms, of False] wants_ptt_settled [OF assms]
    by (simp add: send_fetched_audio_def P split: prod.split)
qed

lemma send_audio_one:
  assumes "extends quiet s s1"
  shows "sends_one sid cli msg (audio_of msg s) dest s
    (send_audio E sid cli dest ctx msg s1)"
  unfolding send_audio_def Let_def
  using assms
  by (auto simp del: split_paired_All intro!: sends_one_error sends_one_sbind send_fetched_audio_one
      intro: extends_trans [OF _ fetch_audio_quiet])

lemma send_contacts_one:
  assumes "extends quiet s s1"
    and "\<And>arr. P (empty_message\<lparr>wm_contacts := Some arr\<rparr>)"
  shows "sends_one sid cli msg P dest s (send_contacts E sid cli dest msg s1)"
  unfolding send_contacts_def
  using assms
  by (auto simp: contacts_array_def intro!: sends_one_sbind sends_one_dispatch split: list.split)


text \<open>The content that a message of each type carries.\<close>

definition fits :: "outgoing_message \<Rightarrow> sys \<Rightarrow> wa_message \<Rightarrow> bool" where
  "fits msg s w =
     (let kind = to_lower (om_type msg) in
      if kind = ''text'' then wm_conversation w \<noteq> None \<or> wm_extended_text w \<noteq> None
      else if kind = ''image'' then wm_image w \<noteq> None
      else if kind = ''document'' then wm_document w \<noteq> None
      else if kind = ''video'' then wm_video w \<noteq> None
      else if kind = ''audio'' then audio_of msg s w
      else if kind = ''sticker'' then wm_sticker w \<noteq> None
      else kind = ''contacts'' \<and> wm_contacts w \<noteq> None)"

lemma sends_one_mono: "sends_one sid cli msg P dest s r \<Longrightarrow> (\<And>w. P w \<Longrightarrow> Q w) \<Longrightarrow> sends_one sid cli msg Q dest s r"
  by (auto simp: sends_one_def)

lemma send_by_type_one:
  assumes "extends quiet s s1"
  shows "sends_one sid cli msg (fits msg s) dest s (send_by_type E sid cli dest ctx msg s1)"
proof -
  have "sends_one sid cli msg (fits msg s) dest s (send_audio E sid cli dest ctx msg s1)"
    if "to_lower (om_type msg) = ''audio''"
    using sends_one_mono [OF send_audio_one [OF assms]] that by (simp add: fits_def)
  then show ?thesis
    unfolding send_by_type_def Let_def
    by (auto intro!: sends_one_error send_media_one send_text_one send_contacts_one assms)
      (simp_all add: fits_def image_message_def video_message_def document_wire_def sticker_message_def)
qed


lemma destination_no_panic: "\<not> is_panic (fst (destination E cli sid msg s))"
proof -
  have to_user: "\<not> is_panic (to_user_jid L t)" and to_jid: "\<not> is_panic (to_jid L t)" for L t
    by (auto simp: to_user_jid_def to_jid_def parse_recipient_def Let_def is_panic_obind
        split: prod.split option.split)
  then have "to_user_jid L t \<noteq> Panic r" "to_jid L t \<noteq> Panic r" for L t r
    by (metis is_panic.simps(1))+
  then have legacy: "\<not> is_panic (fst (legacy_destination E cli msg s))" for s
    by (auto simp: legacy_destination_def Let_def split: prod.split option.split outcome.split)
  have check: "\<not> is_panic (fst (check_candidates E cli key le cands s))" for key le cands s
    by (induction cands arbitrary: s le) (auto split: prod.split sum.split list.split option.split)
  have exists: "fst (check_user_exists E cli phone s) \<noteq> Panic r" for phone s r
    using check by (auto simp: check_user_exists_def Let_def split: prod.split option.split)
      (metis fst_conv is_panic.simps(1))
  have emit: "fst (emit_cloud_failed E sid to i c t s) \<noteq> Panic r" for to i c t s r
    using emit_cloud_failed_emits [of sid s E to i c t] by (auto simp: emits_webhook_def)
  show ?thesis
    using legacy exists emit
    by (auto simp: destination_def Let_def split: prod.split outcome.split option.split) (metis fst_conv)+
qed

text \<open>A text message to a number, and a process with one connected session, for examples.\<close>

definition example_message :: outgoing_message where
  "example_message =
     \<lparr>om_messaging_product = ''whatsapp'', om_type = ''text'', om_to = ''123'', om_body = ''hi'',
      om_text = None, om_image = None, om_document = None, om_video = None, om_audio = None,
      om_sticker = None, om_contacts = [], om_media_url = [], om_caption = [],
      om_session_id = ''5562'', om_message_id = ''M1'', om_context = None, om_mentions = []\<rparr>"

definition connected_sys :: sys where
  "connected_sys = idle_sys\<lparr>m_clients := [''5562'' \<mapsto>
     \<lparr>ce_client = Some 1, ce_db = ''session.db'', ce_keys_db = None, ce_log = ''Client'', ce_session = ''5562'',
       ce_webhook = ''http://hook'', ce_presence_cancel = None\<rparr>]\<rparr>"

definition unknown_numbers_env :: env where
  "unknown_numbers_env = silent_env\<lparr>env_is_on_whatsapp :=
     \<lambda>t c n. Inr [\<lparr>ow_is_in = False, ow_jid = empty_jid\<rparr>]\<rparr>"

lemma send_eqs:
  "session_of ctx msg = [] \<Longrightarrow> send E ctx msg s = (Err MissingSession, s)"
  "session_of ctx msg \<noteq> [] \<Longrightarrow> get_client (session_of ctx msg) s = None \<Longrightarrow>
     send E ctx msg s = (Err (NotConnected (session_of ctx msg)), s)"
  "session_of ctx msg \<noteq> [] \<Longrightarrow> get_client (session_of ctx msg) s = Some cli \<Longrightarrow>
     destination E cli (session_of ctx msg) msg s = (Err e, s1) \<Longrightarrow> send E ctx msg s = (Err e, s1)"
  "session_of ctx msg \<noteq> [] \<Longrightarrow> get_client (session_of ctx msg) s = Some cli \<Longrightarrow>
     destination E cli (session_of ctx msg) msg s = (Ok dest, s1) \<Longrightarrow>
     build_context (lib_jid E) dest msg = Ok ci \<Longrightarrow>
     send E ctx msg s = send_by_type E (session_of ctx msg) cli dest ci msg s1"
  "session_of ctx msg \<noteq> [] \<Longrightarrow> get_client (session_of ctx msg) s = Some cli \<Longrightarrow>
     destination E cli (session_of ctx msg) msg s = (Ok dest, s1) \<Longrightarrow>
     build_context (lib_jid E) dest msg = Panic r \<Longrightarrow> send E ctx msg s = (Panic r, s1)"
  by (simp_all add: send_def Let_def sbind_def)

lemma build_context_panic:
  "build_context L dest msg = Panic r \<longleftrightarrow>
     r = ''invalid memory address or nil pointer dereference'' \<and> om_context msg = None \<and> om_mentions msg \<noteq> []"
  "build_context L dest msg \<noteq> Err e"
  by (auto simp: build_context_def Let_def split: option.split)

lemma send_cases:
  obtains (error) e s1 where "send E ctx msg s = (Err e, s1)" "extends quiet s s1"
  | (panic) r s1 cli dest where "send E ctx msg s = (Panic r, s1)" "extends quiet s s1"
      "session_of ctx msg \<noteq> []" "get_client (session_of ctx msg) s = Some cli"
      "fst (destination E cli (session_of ctx msg) msg s) = Ok dest"
      "om_context msg = None" "om_mentions msg \<noteq> []"
  | (sent) cli dest ci s1 where "session_of ctx msg \<noteq> []" "get_client (session_of ctx msg) s = Some cli"
      "fst (destination E cli (session_of ctx msg) msg s) = Ok dest" "extends quiet s s1"
      "build_context (lib_jid E) dest msg = Ok ci"
      "send E ctx msg s = send_by_type E (session_of ctx msg) cli dest ci msg s1"
proof (cases "session_of ctx msg = []")
  case True
  then show ?thesis using send_eqs(1) by (intro error) auto
next
  case session: False
  show ?thesis
  proof (cases "get_client (session_of ctx msg) s")
    case None
    with session show ?thesis using send_eqs(2) by (intro error) auto
  next
    case (Some cli)
    obtain r s1 where d: "destination E cli (session_of ctx msg) msg s = (r, s1)"
      by (cases "destination E cli (session_of ctx msg) msg s")
    then have s1: "extends quiet s s1" using destination_quiet [of s E cli "session_of ctx msg" msg] by simp
    show ?thesis
    proof (cases r)
      case (Ok dest)
      show ?thesis
      proof (cases "build_context (lib_jid E) dest msg")
        case (Ok ci)
        with session Some d s1 \<open>r = Ok dest\<close> show ?thesis using send_eqs(4) by (intro sent) auto
      next
        case (Err e)
        then show ?thesis by (simp add: build_context_panic)
      next
        case (Panic p)
        with session Some d s1 \<open>r = Ok dest\<close> show ?thesis
          using send_eqs(5) by (intro panic) (auto simp: build_context_panic)
      qed
    next
      case (Err e)
      with session Some d s1 show ?thesis using send_eqs(3) by (intro error) auto
    next
      case (Panic p)
      with d show ?thesis using destination_no_panic [of E cli "session_of ctx msg" msg s] by simp
    qed
  qed
qed

text \<open>
  C10: One request sends at most one message, and exactly one when it returns without an error;
  what it sends goes through the client of the request's session, carries the content of the
  request's type (a voice note with its MIME type, a duration and a 64-bar waveform) and the
  request's id; and no request changes a session, a setting or a pairing code.
\<close>

theorem send_at_most_once:
  "settled (snd (send E ctx msg s)) = settled s \<and>
   (\<exists>ms. sends (effects (snd (send E ctx msg s))) = sends (effects s) @ ms \<and>
      length ms \<le> (case fst (send E ctx msg s) of Panic r \<Rightarrow> 0 | _ \<Rightarrow> 1) \<and>
      length ms \<ge> (case fst (send E ctx msg s) of Ok _ \<Rightarrow> 1 | _ \<Rightarrow> 0) \<and>
      list_all (\<lambda>(c, j, w, i). get_client (session_of ctx msg) s = Some c \<and> fits msg s w \<and>
        i = request_id msg) ms)"
proof (cases rule: send_cases [of E ctx msg s])
  case (error e s1)
  then show ?thesis by (auto simp: extends_settled extends_sends)
next
  case (panic r s1 cli dest)
  then show ?thesis by (auto simp: extends_settled extends_sends)
next
  case (sent cli dest ci s1)
  have "sends_one (session_of ctx msg) cli msg (fits msg s) dest s (send E ctx msg s)"
    using send_by_type_one [OF sent(4)] sent(6) by simp
  with sent(2) show ?thesis
    by (cases "fst (send E ctx msg s)") (auto simp: sends_one_def calm_settled)
qed

text \<open>
  \<open>Send\<close> panics on exactly the requests that carry mentions and no context, once their session is
  connected and their destination is resolved.
\<close>

lemma send_panic_iff:
  "is_panic (fst (send E ctx msg s)) =
     (session_of ctx msg \<noteq> [] \<and> om_context msg = None \<and> om_mentions msg \<noteq> [] \<and>
      (\<exists>cli dest. get_client (session_of ctx msg) s = Some cli \<and>
        fst (destination E cli (session_of ctx msg) msg s) = Ok dest))"
proof (cases rule: send_cases [of E ctx msg s])
  case (error e s1)
  have "\<not> (\<exists>cli dest. get_client (session_of ctx msg) s = Some cli \<and>
        fst (destination E cli (session_of ctx msg) msg s) = Ok dest)"
    if "session_of ctx msg \<noteq> []" "om_context msg = None" "om_mentions msg \<noteq> []"
  proof
    assume "\<exists>cli dest. get_client (session_of ctx msg) s = Some cli \<and>
        fst (destination E cli (session_of ctx msg) msg s) = Ok dest"
    then obtain cli dest s2 where "get_client (session_of ctx msg) s = Some cli"
      "destination E cli (session_of ctx msg) msg s = (Ok dest, s2)" by (metis prod.collapse)
    with that error send_eqs(5) [of ctx msg s cli E dest s2] show False
      by (auto simp: build_context_panic)
  qed
  with error show ?thesis by auto
next
  case (panic r s1 cli dest)
  then show ?thesis by auto
next
  case (sent cli dest ci s1)
  have "sends_one (session_of ctx msg) cli msg (fits msg s) dest s (send E ctx msg s)"
    using send_by_type_one [OF sent(4)] sent(6) by simp
  then have "\<not> is_panic (fst (send E ctx msg s))" by (simp add: sends_one_def)
  moreover have "\<not> (om_context msg = None \<and> om_mentions msg \<noteq> [])"
    using sent(5) by (cases "om_context msg") (auto simp: build_context_def split: if_splits)
  ultimately show ?thesis by auto
qed

text \<open>
  C34: A number that the existence check finds unregistered gets no message: the request fails
  with the number in its error, and the webhook gets one status entry, of the request's id,
  that says failed with code 2 and is addressed to the digits of the session.
\<close>

theorem unregistered_number_reported:
  assumes "session_of ctx msg = sid" "sid \<noteq> []" "get_client sid s = Some cli"
    and "should_check sid (trim_space (om_to msg)) s"
    and "check_user_exists E cli (trim_space (om_to msg)) s = (Ok None, s1)"
    and "trim_space (om_message_id msg) \<noteq> []"
  shows "fst (send E ctx msg s) = Err (NotRegistered (trim_space (om_to msg))) \<and>
    sends (effects (snd (send E ctx msg s))) = sends (effects s) \<and>
    (\<exists>p st s2. snd (send E ctx msg s) = snd (deliver_webhook E sid p s2) \<and> cloud_wf sid p \<and>
       field_of ''statuses'' p = Some (JArr [st]) \<and>
       jget st ''id'' = Some (JStr (trim_space (om_message_id msg))) \<and>
       jget st ''status'' = Some (JStr ''failed'') \<and>
       Option.bind (jget st ''errors'') (\<lambda>es. Option.bind (jitem es 0) (\<lambda>e. jget e ''code'')) = Some (JInt 2))"
proof -
  let ?to = "trim_space (om_to msg)"
  let ?title = "''The phone number '' @ ?to @ '' does not have WhatsApp account!''"
  let ?id = "trim_space (om_message_id msg)"
  obtain r s2 where em: "emit_cloud_failed E sid ?to (om_message_id msg) 2 ?title s1 = (r, s2)"
    by (cases "emit_cloud_failed E sid ?to (om_message_id msg) 2 ?title s1")
  have "\<not> is_panic r"
    using emit_cloud_failed_emits [of sid s1 E ?to "om_message_id msg" 2 ?title] em by (simp add: emits_webhook_def)
  then have "destination E cli sid msg s = (Err (NotRegistered ?to), s2)"
    using assms(4,5) em by (cases r) (simp_all add: destination_def Let_def)
  then have res: "send E ctx msg s = (Err (NotRegistered ?to), s2)"
    using assms(1-3) send_eqs(3) [of ctx msg s cli E] by simp
  have "extends quiet s s2"
    using destination_quiet [of s E cli sid msg] \<open>destination E cli sid msg s = _\<close> by simp
  then have none: "sends (effects s2) = sends (effects s)" by (rule extends_sends)
  let ?digits = "digits_only (remove_byte (CHR ''+'') ?to)"
  define st where "st = JObj [(''id'', JStr ?id), (''recipient_id'', JStr (if ?digits = [] then ?to else ?digits)),
      (''status'', JStr ''failed''), (''timestamp'', unix_text (Some (fst (time_now E s1)))),
      (''errors'', JArr [JObj [(''code'', JInt 2), (''title'', JStr ?title)]])]"
  define p where "p = webhook (digits_only sid) (put ''statuses'' (JArr [st]) (cloud_value (digits_only sid)))"
  have out: "s2 = snd (deliver_webhook E sid p (snd (time_now E s1)))"
    using em assms(6) by (auto simp: emit_cloud_failed_def Let_def time_now_def p_def st_def)
  have "cloud_wf sid p"
    unfolding p_def by (intro cloud_wf_put) (simp_all add: st_def unix_text_def)
  moreover have "field_of ''statuses'' p = Some (JArr [st])" by (simp add: p_def)
  moreover have "jget st ''id'' = Some (JStr ?id)" "jget st ''status'' = Some (JStr ''failed'')"
    "Option.bind (jget st ''errors'') (\<lambda>es. Option.bind (jitem es 0) (\<lambda>e. jget e ''code'')) = Some (JInt 2)"
    by (simp_all add: st_def)
  ultimately show ?thesis
    unfolding res using none out by auto
qed

lemma check_cold:
  assumes "m_pn_cache s (pn_key E phone) = None"
  shows "check_user_exists E cli phone s =
    check_candidates E cli (pn_key E phone) None (candidates_br (pn_key E phone)) s"
  using assms by (simp add: check_user_exists_def pn_lookup_def Let_def)

theorem unregistered_number_reported_witness:
  "fst (send unknown_numbers_env None example_message connected_sys) = Err (NotRegistered ''123'') \<and>
   sends (effects (snd (send unknown_numbers_env None example_message connected_sys))) = []"
proof -
  have trims: "trim_space ''123'' = ''123''" "trim_space ''5562'' = ''5562''" "trim_space ''M1'' = ''M1''"
    by code_simp+
  have sid: "session_of None example_message = ''5562''" "''5562'' \<noteq> []"
    by (simp_all add: session_of_def example_message_def trims)
  have cli: "get_client ''5562'' connected_sys = Some 1"
    by (simp add: get_client_def connected_sys_def)
  have "\<not> contains ''123'' ''@g.us''" "\<not> contains ''123'' ''@broadcast''" "\<not> contains ''123'' ''@lid''"
    by code_simp+
  then have chk: "should_check ''5562'' (trim_space (om_to example_message)) connected_sys"
    by (simp add: should_check_def example_message_def trims get_check_user_exists_def connected_sys_def
        idle_sys_def new_client_manager_def)
  have key: "pn_key unknown_numbers_env ''123'' = ''123''"
    by (simp add: pn_key_def unknown_numbers_env_def silent_env_def normalize_e164_local_def)
  have "candidates_br ''123'' = [''123'']" by code_simp
  moreover have "m_pn_cache connected_sys (pn_key unknown_numbers_env ''123'') = None"
    by (simp add: connected_sys_def idle_sys_def new_client_manager_def)
  ultimately have "fst (check_user_exists unknown_numbers_env 1 (trim_space (om_to example_message)) connected_sys) = Ok None"
    by (simp add: check_cold key example_message_def trims wa_is_on_whatsapp_def) (simp add: unknown_numbers_env_def)
  then have res: "check_user_exists unknown_numbers_env 1 (trim_space (om_to example_message)) connected_sys =
    (Ok None, snd (check_user_exists unknown_numbers_env 1 (trim_space (om_to example_message)) connected_sys))"
    by (metis prod.collapse)
  have "trim_space (om_message_id example_message) \<noteq> []" by (simp add: example_message_def trims)
  from unregistered_number_reported [OF sid cli chk res this]
  show ?thesis by (simp add: example_message_def trims connected_sys_def idle_sys_def new_client_manager_def sends_def)
qed

text \<open>
  Mentions: for numbers as people write them, the message mentions the WhatsApp JIDs of
  their digits, in order, and blank entries are skipped.
\<close>

lemma mentions_rendered:
  assumes L: "jid_lib_ok L" and ms: "list_all (\<lambda>m. trim_space m = [] \<or> phone_text m) ms"
  shows "mentioned_jids L ms =
    map (\<lambda>m. digits_only m @ ''@s.whatsapp.net'') (filter (\<lambda>m. trim_space m \<noteq> []) ms)"
  using ms
proof (induction ms)
  case (Cons m ms)
  show ?case
  proof (cases "trim_space m = []")
    case False
    with Cons.prems have m: "phone_text m" by simp
    have "\<not> phone_byte (CHR ''@'')" by (simp add: phone_byte_def is_digit_def)
    then have "CHR ''@'' \<notin> set (trim_space m)"
      using m set_trim_space [of m] by (auto simp: phone_text_def list_all_iff)
    then have "to_user_jid L (trim_space m) = Ok (new_jid L (digits_only m) default_user_server)"
      using m False by (simp add: to_user_jid_def Let_def contains_byte digits_only_trim phone_text_def)
    moreover have "jid_string L (new_jid L (digits_only m) default_user_server) = digits_only m @ ''@s.whatsapp.net''"
      using L m by (simp add: jid_lib_text default_user_server_def phone_text_def)
    ultimately show ?thesis using Cons False by simp
  qed (use Cons in simp)
qed simp

text \<open>
  C35: A destination that is a group, a broadcast list or a LID skips the existence check, but
  unless it is cached WhatsApp is still asked whether it is a registered number, since the
  number resolver runs on it first.
\<close>

theorem group_is_still_queried:
  assumes "contains (trim_space (om_to msg)) ''@g.us''"
    and "m_pn_cache s (pn_key E (trim_space (om_to msg))) = None"
  shows "\<exists>n. EIsOnWhatsApp cli n \<in> set (effects (snd (destination E cli sid msg s)))"
proof -
  let ?to = "trim_space (om_to msg)"
  let ?key = "pn_key E ?to"
  have "candidates_br ?key \<noteq> []" by (simp add: candidates_br_def Let_def)
  then obtain c cs where cands: "candidates_br ?key = c # cs" by (cases "candidates_br ?key") auto
  obtain r s1 where res: "resolve_pn_to_jid E cli ?to s = (r, s1)" by (cases "resolve_pn_to_jid E cli ?to s")
  have grow: "set (effects s) \<subseteq> set (effects s')" if "extends K s s'" for K and s s' :: sys
    using that by (auto simp: extends_def)
  obtain q s0 where q: "wa_is_on_whatsapp E cli c s = (q, s0)" by (cases "wa_is_on_whatsapp E cli c s")
  then have asked: "EIsOnWhatsApp cli c \<in> set (effects s0)" by (auto simp: wa_is_on_whatsapp_def log_effect_def)
  have "resolve_candidates E cli ?key (c # cs) s = (r, s1)" using res resolve_cold [OF assms(2)] cands by simp
  then have "extends by_query s0 s1"
    using q resolve_candidates_extends [of s0 E cli ?key cs]
      pn_store_extends [of by_query s0 E ?key]
    by (auto split: sum.splits list.splits if_splits)
  with asked grow have "EIsOnWhatsApp cli c \<in> set (effects s1)" by blast
  moreover have "snd (legacy_destination E cli msg s) = s1"
    using res by (auto simp: legacy_destination_def Let_def split: option.split outcome.split)
  moreover have "destination E cli sid msg s = legacy_destination E cli msg s"
    using assms(1) by (simp add: destination_def should_check_def)
  ultimately show ?thesis by auto
qed


theorem group_is_still_queried_witness:
  "\<exists>n. EIsOnWhatsApp 1 n \<in> set (effects (snd (destination silent_env 1 ''5562''
     (example_message\<lparr>om_to := ''120363@g.us''\<rparr>) idle_sys)))"
proof (rule group_is_still_queried)
  have "contains (trim_space ''120363@g.us'') ''@g.us''" by code_simp
  then show "contains (trim_space (om_to (example_message\<lparr>om_to := ''120363@g.us''\<rparr>))) ''@g.us''" by simp
  have "m_pn_cache idle_sys = Map.empty" by (simp add: idle_sys_def new_client_manager_def)
  then show "m_pn_cache idle_sys (pn_key silent_env
      (trim_space (om_to (example_message\<lparr>om_to := ''120363@g.us''\<rparr>)))) = None" by (simp only:)
qed

end
