(* ===== verification/Events.thy ===== *)
theory Events
  imports Send
begin

text \<open>
  Incoming events (internal/provider/events.go): the resolution of LIDs, group names and
  avatars with their caches and bounded retries, the Cloud message built from a WhatsApp
  message, the rejection of calls and the read receipts. The pauses between retries have no
  effect on the state and are left out.
\<close>

section \<open>Names and addresses\<close>

text \<open>At most \<open>n\<close> queries for the phone-number JID of a LID.\<close>

fun lid_attempts :: "env \<Rightarrow> client \<Rightarrow> jid \<Rightarrow> nat \<Rightarrow> sys \<Rightarrow> jid option \<times> sys" where
  "lid_attempts E cli lid 0 s = (None, s)"
| "lid_attempts E cli lid (Suc n) s =
     (case wa_pn_for_lid E cli lid s of
        (Inr ad, s1) \<Rightarrow>
          if \<not> is_lid_jid ad \<and> j_user ad \<noteq> [] \<and> j_server ad \<noteq> [] then
            (case time_now E s1 of
               (now, s2) \<Rightarrow>
                 (Some ad, s2\<lparr>lid_ad_cache :=
                    cache_put_lid now (jid_string (lib_jid E) lid) ad (lid_ad_cache s2)\<rparr>))
          else lid_attempts E cli lid n s1
      | (Inl e, s1) \<Rightarrow> lid_attempts E cli lid n s1)"

definition resolve_lid_to_ad :: "env \<Rightarrow> client \<Rightarrow> jid \<Rightarrow> nat \<Rightarrow> sys \<Rightarrow> jid option \<times> sys" where
  "resolve_lid_to_ad E cli lid attempts s =
     (if \<not> env_has_lid_store E cli then (None, s)
      else
        (case time_now E s of
           (now, s1) \<Rightarrow>
             (case cache_get_lid now (lid_ad_cache s1) (jid_string (lib_jid E) lid) of
                Some v \<Rightarrow> (Some v, s1)
              | None \<Rightarrow> lid_attempts E cli lid attempts s1)))"

definition default_lid_attempts :: nat where
  "default_lid_attempts = 3"

definition jid_display :: "env \<Rightarrow> client \<Rightarrow> jid \<Rightarrow> sys \<Rightarrow> string \<times> sys" where
  "jid_display E cli j s =
     (if is_group_jid j then (j_user j, s)
      else if \<not> is_lid_jid j then
        (digits_only (case index_of (j_user j) '':'' of
           Some i \<Rightarrow> take i (j_user j) | None \<Rightarrow> j_user j), s)
      else
        (case resolve_lid_to_ad E cli j default_lid_attempts s of
           (Some r, s1) \<Rightarrow> (digits_only (j_user r), s1)
         | (None, s1) \<Rightarrow> (j_user j @ ''@lid'', s1)))"

text \<open>The same, remembered per JID text for the length of one event.\<close>

type_synonym memo = "string \<rightharpoonup> string"

definition resolve_display :: "env \<Rightarrow> client \<Rightarrow> jid \<Rightarrow> memo \<times> sys \<Rightarrow> string \<times> memo \<times> sys" where
  "resolve_display E cli j ms =
     (case ms of
        (memo, s) \<Rightarrow>
          (let key = jid_string (lib_jid E) j in
           case memo key of
             Some v \<Rightarrow> (v, memo, s)
           | None \<Rightarrow> (case jid_display E cli j s of (v, s1) \<Rightarrow> (v, memo(key \<mapsto> v), s1))))"

fun group_attempts :: "env \<Rightarrow> client \<Rightarrow> jid \<Rightarrow> nat \<Rightarrow> sys \<Rightarrow> string option \<times> sys" where
  "group_attempts E cli gid 0 s = (None, s)"
| "group_attempts E cli gid (Suc n) s =
     (case wa_group_name E cli gid s of
        (Inr (Some raw), s1) \<Rightarrow>
          if trim_space raw \<noteq> [] then
            (case time_now E s1 of
               (now, s2) \<Rightarrow>
                 (Some (trim_space raw), s2\<lparr>group_name_cache :=
                    cache_put_group_name now (jid_string (lib_jid E) gid) (trim_space raw) (group_name_cache s2)\<rparr>))
          else group_attempts E cli gid n s1
      | (_, s1) \<Rightarrow> group_attempts E cli gid n s1)"

definition safe_get_group_name :: "env \<Rightarrow> client \<Rightarrow> jid \<Rightarrow> sys \<Rightarrow> string option \<times> sys" where
  "safe_get_group_name E cli gid s =
     (case time_now E s of
        (now, s1) \<Rightarrow>
          (case cache_get_group_name now (group_name_cache s1) (jid_string (lib_jid E) gid) of
             Some n \<Rightarrow> (Some n, s1)
           | None \<Rightarrow> group_attempts E cli gid 2 s1))"

text \<open>The queries for a picture, one after the other until one gives a URL.\<close>

fun picture_attempts :: "env \<Rightarrow> client \<Rightarrow> jid \<Rightarrow> pic_params option list \<Rightarrow> sys \<Rightarrow> string option \<times> sys" where
  "picture_attempts E cli j [] s = (None, s)"
| "picture_attempts E cli j (p # ps) s =
     (case wa_picture_url E cli j p s of
        (Inr (Some raw), s1) \<Rightarrow>
          if trim_space raw \<noteq> [] then
            (case time_now E s1 of
               (now, s2) \<Rightarrow>
                 (Some (trim_space raw), s2\<lparr>avatar_cache :=
                    cache_put_avatar now (jid_string (lib_jid E) j) (trim_space raw) (avatar_cache s2)\<rparr>))
          else picture_attempts E cli j ps s1
      | (_, s1) \<Rightarrow> picture_attempts E cli j ps s1)"

definition picture_queries :: "jid \<Rightarrow> pic_params option list" where
  "picture_queries j =
     (let preview = Some \<lparr>pp_preview = True, pp_is_community = False\<rparr> in
      [None, preview]
      @ (if is_community_jid j
         then [Some \<lparr>pp_preview = True, pp_is_community = True\<rparr>,
               Some \<lparr>pp_preview = False, pp_is_community = True\<rparr>] else [])
      @ [preview])"

definition get_avatar_url :: "env \<Rightarrow> client \<Rightarrow> jid \<Rightarrow> sys \<Rightarrow> string option \<times> sys" where
  "get_avatar_url E cli j s =
     (if j = empty_jid then (None, s)
      else
        (case time_now E s of
           (now, s1) \<Rightarrow>
             (case cache_get_avatar now (avatar_cache s1) (jid_string (lib_jid E) j) of
                Some u \<Rightarrow> (Some u, s1)
              | None \<Rightarrow> picture_attempts E cli j (picture_queries j) s1)))"

section \<open>Pieces of a message\<close>

definition split_mime :: "string \<Rightarrow> string" where
  "split_mime m = (case index_of m '';'' of None \<Rightarrow> m | Some i \<Rightarrow> take i m)"

definition b64 :: "bytes \<Rightarrow> string" where
  "b64 b = (if b = [] then [] else base64 b)"

definition extension_by_mime :: "env \<Rightarrow> string \<Rightarrow> string" where
  "extension_by_mime E m =
     (case lib_extensions_by_type E (split_mime m) of x # _ \<Rightarrow> x | [] \<Rightarrow> [])"

fun first_non_empty :: "string list \<Rightarrow> string" where
  "first_non_empty [] = []"
| "first_non_empty (v # vs) = (if trim_space v \<noteq> [] then v else first_non_empty vs)"

definition extract_any_caption :: "'a wa_content_scheme \<Rightarrow> string" where
  "extract_any_caption m =
     (case wm_image m of
        Some x \<Rightarrow> str_of (cm_caption x)
      | None \<Rightarrow>
          (case wm_video m of
             Some x \<Rightarrow> str_of (cm_caption x)
           | None \<Rightarrow> (case wm_document m of Some x \<Rightarrow> str_of (cm_caption x) | None \<Rightarrow> [])))"

definition context_of :: "wa_message \<Rightarrow> context_info option" where
  "context_of m =
     (case wm_extended_text m of Some x \<Rightarrow> et_context x | None \<Rightarrow>
     (case wm_image m of Some x \<Rightarrow> mm_context x | None \<Rightarrow>
     (case wm_document m of Some x \<Rightarrow> mm_context x | None \<Rightarrow>
     (case wm_video m of Some x \<Rightarrow> mm_context x | None \<Rightarrow>
     (case wm_audio m of Some x \<Rightarrow> mm_context x | None \<Rightarrow>
     (case wm_sticker m of Some x \<Rightarrow> mm_context x | None \<Rightarrow> None))))))"

definition reply_to :: "string \<Rightarrow> json" where
  "reply_to i = JObj [(''message_id'', JStr i), (''id'', JStr i)]"

definition message_context_info :: "wa_message \<Rightarrow> json option" where
  "message_context_info m =
     (case context_of m of
        None \<Rightarrow> None
      | Some ci \<Rightarrow>
          (let stanza = trim_space (str_of (ci_stanza_id ci));
               kvs = (if stanza \<noteq> [] then [(''message_id'', JStr stanza), (''id'', JStr stanza)] else [])
                     @ (if ci_is_forwarded ci then [(''forwarded'', JBool True)] else []) in
           if kvs \<noteq> [] then Some (JObj kvs)
           else if ci_quoted ci \<noteq> None then Some (reply_to [])
           else None))"

text \<open>What a message becomes: nothing, the deletion of a message, or the fields of a webhook message.\<close>

datatype content = Ignored | Revoked string | Content "(string \<times> json) list"

definition body_of :: "string \<Rightarrow> json" where
  "body_of t = JObj [(''body'', JStr t)]"

definition media_fields :: "'a media_message_scheme \<Rightarrow> (string \<times> json) list" where
  "media_fields x =
     [(''mime_type'', JStr (split_mime (str_of (mm_mimetype x)))),
      (''sha256'', JStr (b64 (mm_file_sha256 x))), (''media_key'', JStr (b64 (mm_media_key x))),
      (''direct_path'', JStr (str_of (mm_direct_path x)))]"

definition file_length_field :: "'a media_message_scheme \<Rightarrow> (string \<times> json) list" where
  "file_length_field x =
     (case mm_file_length x of None \<Rightarrow> [] | Some n \<Rightarrow> [(''file_length'', JInt (uint n))])"

definition contact_json :: "contact_message \<Rightarrow> (string, json) outcome" where
  "contact_json c =
     obind (parse_vcard (str_of (co_vcard c))) (\<lambda>(name, phones).
       Ok (JObj [(''name'', JObj [(''formatted_name'',
                    JStr (if name = [] then trim_space (str_of (co_display_name c)) else name))]),
                 (''phones'', JArr phones)]))"

fun contact_jsons :: "contact_message list \<Rightarrow> (string, json list) outcome" where
  "contact_jsons [] = Ok []"
| "contact_jsons (c # cs) = obind (contact_json c) (\<lambda>j. obind (contact_jsons cs) (\<lambda>js. Ok (j # js)))"

definition text_wire :: "string \<Rightarrow> (string \<times> json) list \<Rightarrow> (string \<times> json) list" where
  "text_wire t wire = put ''text'' (body_of t) (put ''type'' (JStr ''text'') wire)"

definition typed_wire :: "string \<Rightarrow> json \<Rightarrow> (string \<times> json) list \<Rightarrow> (string \<times> json) list" where
  "typed_wire kind v wire = put kind v (put ''type'' (JStr kind) wire)"

definition edited_suffix :: string where
  "edited_suffix = [CHR 0x0A, CHR 0x60] @ ''Mensagem Editada'' @ [CHR 0x60]"

definition protocol_content :: "protocol_message \<Rightarrow> (string \<times> json) list \<Rightarrow> content" where
  "protocol_content pm wire =
     (let rid = (case pm_key pm of None \<Rightarrow> [] | Some k \<Rightarrow> trim_space (str_of (mk_id k))) in
      case (pm_type pm, pm_edited pm) of
        (MESSAGE_EDIT, Some edited) \<Rightarrow>
          (let conv = trim_space (str_of (wm_conversation edited));
               ext = (if conv = [] then
                        (case wm_extended_text edited of
                           Some x \<Rightarrow> trim_space (str_of (et_text x)) | None \<Rightarrow> [])
                      else conv);
               body = (if ext = [] then trim_space (extract_any_caption edited) else ext);
               wire1 = text_wire (body @ edited_suffix) wire in
           if body = [] then Ignored
           else Content (if rid \<noteq> [] then put ''context'' (reply_to rid) wire1 else wire1))
      | (REVOKE, _) \<Rightarrow> if rid = [] then Ignored else Revoked rid
      | _ \<Rightarrow> Ignored)"

definition reaction_content :: "reaction_message \<Rightarrow> (string \<times> json) list \<Rightarrow> content" where
  "reaction_content r wire =
     (let emoji = trim_space (str_of (re_text r));
          rid = (case re_key r of None \<Rightarrow> [] | Some k \<Rightarrow> trim_space (str_of (mk_id k)));
          wire1 = text_wire emoji wire in
      if emoji = [] then Ignored
      else Content (if rid \<noteq> [] then put ''context'' (reply_to rid) wire1 else wire1))"

definition image_json :: "env \<Rightarrow> string \<Rightarrow> captioned_message \<Rightarrow> json" where
  "image_json E msg_id x =
     (let ext = extension_by_mime E (str_of (mm_mimetype x)) in
      JObj ((''caption'', JStr (str_of (cm_caption x))) # media_fields x
        @ (if trim_space ext \<noteq> [] then [(''filename'', JStr (msg_id @ ext))] else [])
        @ file_length_field x))"

definition document_json :: "document_message \<Rightarrow> json" where
  "document_json x =
     JObj ((''caption'', JStr (str_of (cm_caption x)))
       # (''filename'', JStr (first_non_empty [str_of (dm_file_name x), str_of (dm_title x)]))
       # media_fields x @ file_length_field x)"

definition video_json :: "captioned_message \<Rightarrow> json" where
  "video_json x =
     JObj ((''caption'', JStr (str_of (cm_caption x))) # media_fields x @ file_length_field x)"

definition audio_json :: "audio_message \<Rightarrow> json" where
  "audio_json x =
     JObj (media_fields x @ file_length_field x
       @ (case am_seconds x of None \<Rightarrow> [] | Some n \<Rightarrow> [(''seconds'', JInt (uint n))])
       @ (case am_ptt x of None \<Rightarrow> [] | Some b \<Rightarrow> [(''ptt'', JBool b)])
       @ (if am_waveform x \<noteq> [] then [(''waveform'', JStr (base64 (am_waveform x)))] else []))"

definition sticker_json :: "env \<Rightarrow> string \<Rightarrow> media_message \<Rightarrow> json" where
  "sticker_json E msg_id x =
     JObj ((''filename'', JStr (msg_id @ extension_by_mime E (str_of (mm_mimetype x))))
       # media_fields x @ file_length_field x)"

text \<open>
  The switch over the content, in the order of its cases. A vCard can make it panic.
\<close>

definition content_of ::
  "env \<Rightarrow> string \<Rightarrow> wa_message \<Rightarrow> (string \<times> json) list \<Rightarrow> (string, content) outcome" where
  "content_of E msg_id m wire =
     (case wm_protocol m of Some pm \<Rightarrow> Ok (protocol_content pm wire) | None \<Rightarrow>
     (case wm_contact m of
        Some c \<Rightarrow> obind (contact_json c) (\<lambda>j. Ok (Content (typed_wire ''contacts'' (JArr [j]) wire)))
      | None \<Rightarrow>
     (case wm_contacts m of
        Some arr \<Rightarrow>
          obind (contact_jsons (ca_contacts arr)) (\<lambda>js.
            Ok (if js = [] then Ignored else Content (typed_wire ''contacts'' (JArr js) wire)))
      | None \<Rightarrow>
     (case wm_reaction m of Some r \<Rightarrow> Ok (reaction_content r wire) | None \<Rightarrow>
     (if str_of (wm_conversation m) \<noteq> [] then Ok (Content (text_wire (str_of (wm_conversation m)) wire))
      else
     (case wm_extended_text m of
        Some x \<Rightarrow> Ok (Content (text_wire (trim_space (str_of (et_text x))) wire)) | None \<Rightarrow>
     (case wm_image m of
        Some x \<Rightarrow> Ok (Content (typed_wire ''image'' (image_json E msg_id x) wire)) | None \<Rightarrow>
     (case wm_document m of
        Some x \<Rightarrow> Ok (Content (typed_wire ''document'' (document_json x) wire)) | None \<Rightarrow>
     (case wm_video m of
        Some x \<Rightarrow> Ok (Content (typed_wire ''video'' (video_json x) wire)) | None \<Rightarrow>
     (case wm_audio m of
        Some x \<Rightarrow> Ok (Content (typed_wire ''audio'' (audio_json x) wire)) | None \<Rightarrow>
     (case wm_sticker m of
        Some x \<Rightarrow> Ok (Content (typed_wire ''sticker'' (sticker_json E msg_id x) wire)) | None \<Rightarrow>
     (case wm_location m of
        Some l \<Rightarrow>
          Ok (Content (typed_wire ''location''
            (JObj [(''latitude'', JFloat (lo_latitude l)), (''longitude'', JFloat (lo_longitude l))]) wire))
      | None \<Rightarrow>
          Ok (if extract_any_caption m \<noteq> [] then Content (text_wire (extract_any_caption m) wire)
              else Ignored)))))))))))))"

section \<open>Messages\<close>

text \<open>The sender of an event, or its alternative address when that is not a LID.\<close>

definition effective_sender :: "message_info \<Rightarrow> jid" where
  "effective_sender info =
     (if mi_sender_alt info \<noteq> empty_jid \<and> \<not> is_lid_jid (mi_sender_alt info) \<and>
         j_server (mi_sender_alt info) \<noteq> []
      then mi_sender_alt info else mi_sender info)"

definition filtered_out :: "string \<Rightarrow> message_info \<Rightarrow> sys \<Rightarrow> bool" where
  "filtered_out sid info s =
     (let chat = mi_chat info; sender = effective_sender info in
      (get_ignore_status_broadcast sid s \<and>
         (is_status_broadcast_jid chat \<or> is_status_broadcast_jid sender)) \<or>
      (get_ignore_newsletters sid s \<and> (is_newsletter_jid chat \<or> is_newsletter_jid sender)))"

text \<open>The phone of the contact entry and the \<open>from\<close> field, with the queries in the code's order.\<close>

definition message_addresses ::
  "env \<Rightarrow> string \<Rightarrow> client \<Rightarrow> message_info \<Rightarrow> sys \<Rightarrow> (string \<times> string) \<times> sys" where
  "message_addresses E sid cli info s =
     (let chat = mi_chat info; sender = effective_sender info;
          (phone1, ms1) = resolve_display E cli chat (Map.empty, s);
          (phone2, ms2) = (if is_group_jid chat \<and> j_user sender \<noteq> []
                           then resolve_display E cli sender ms1 else (phone1, ms1));
          (from', ms3) = (if mi_is_from_me info then (normalize_phone sid, ms2)
                          else resolve_display E cli sender ms2) in
      ((phone2, from'), snd ms3))"

definition base_wire :: "string \<Rightarrow> message_info \<Rightarrow> wa_message \<Rightarrow> (string \<times> json) list" where
  "base_wire from' info m =
     [(''from'', JStr (normalize_from_field from')), (''id'', JStr (mi_id info)),
      (''timestamp'', unix_text (mi_timestamp info))]
     @ (case message_context_info m of None \<Rightarrow> [] | Some c \<Rightarrow> [(''context'', c)])"

definition display_name :: "env \<Rightarrow> client \<Rightarrow> message_info \<Rightarrow> string \<Rightarrow> sys \<Rightarrow> string \<times> sys" where
  "display_name E cli info phone s =
     (if is_group_jid (mi_chat info) then
        (case safe_get_group_name E cli (mi_chat info) s of
           (Some g, s1) \<Rightarrow> (if trim_space g \<noteq> [] then g else j_user (mi_chat info), s1)
         | (None, s1) \<Rightarrow> (j_user (mi_chat info), s1))
      else if mi_is_from_me info then (phone, s)
      else (if trim_space (mi_push_name info) \<noteq> [] then trim_space (mi_push_name info) else phone, s))"

definition contact_entry_json :: "env \<Rightarrow> message_info \<Rightarrow> string \<Rightarrow> string \<Rightarrow> string option \<Rightarrow> json" where
  "contact_entry_json E info phone name picture =
     (let pic = (case picture of Some u \<Rightarrow> if trim_space u \<noteq> [] then Some u else None | None \<Rightarrow> None);
          profile = JObj ((''name'', JStr name)
            # (case pic of Some u \<Rightarrow> [(''picture'', JStr u)] | None \<Rightarrow> [])) in
      JObj ([(''profile'', profile), (''wa_id'', JStr phone)]
        @ (if is_group_jid (mi_chat info) then
             [(''group_id'', JStr (jid_string (lib_jid E) (mi_chat info))), (''group_subject'', JStr name)]
             @ (case pic of Some u \<Rightarrow> [(''group_picture'', JStr u)] | None \<Rightarrow> [])
           else [])))"

definition deliver_message ::
  "env \<Rightarrow> string \<Rightarrow> client \<Rightarrow> message_info \<Rightarrow> string \<Rightarrow> (string \<times> json) list \<Rightarrow> sys \<Rightarrow>
   (string, unit) outcome \<times> sys" where
  "deliver_message E sid cli info phone wire s =
     (case display_name E cli info phone s of
        (name, s1) \<Rightarrow>
          (case get_avatar_url E cli (mi_chat info) s1 of
             (picture, s2) \<Rightarrow>
               deliver_with E sid
                 (\<lambda>v. put ''messages'' (JArr [JObj wire])
                    (put ''contacts'' (JArr [contact_entry_json E info phone name picture]) v)) s2))"

definition emit_cloud_message ::
  "env \<Rightarrow> string \<Rightarrow> client \<Rightarrow> message_info \<Rightarrow> wa_message option \<Rightarrow> sys \<Rightarrow> (string, unit) outcome \<times> sys" where
  "emit_cloud_message E sid cli info message s =
     (case message of
        None \<Rightarrow> (Ok (), s)
      | Some m \<Rightarrow>
          if filtered_out sid info s then (Ok (), s)
          else
            (case message_addresses E sid cli info s of
               ((phone, from'), s1) \<Rightarrow>
                 (case content_of E (mi_id info) m (base_wire from' info m) of
                    Err e \<Rightarrow> (Err e, s1)
                  | Panic r \<Rightarrow> (Panic r, s1)
                  | Ok Ignored \<Rightarrow> (Ok (), s1)
                  | Ok (Revoked rid) \<Rightarrow>
                      (case emit_cloud_deleted E sid info rid s1 of
                         (Panic r, s2) \<Rightarrow> (Panic r, s2)
                       | (_, s2) \<Rightarrow> (Ok (), s2))
                  | Ok (Content wire) \<Rightarrow> deliver_message E sid cli info phone wire s1)))"

section \<open>Calls and read receipts\<close>

text \<open>A user part with a device suffix is cut at the colon, and the device dropped.\<close>

definition strip_device :: "jid \<Rightarrow> jid" where
  "strip_device j =
     (if contains (j_user j) '':''
      then j\<lparr>j_user := hd (split_on (CHR '':'') (j_user j)), j_device := 0\<rparr> else j)"

definition send_call_reply :: "env \<Rightarrow> string \<Rightarrow> client \<Rightarrow> jid \<Rightarrow> string \<Rightarrow> sys \<Rightarrow> sys" where
  "send_call_reply E sid cli to reply s =
     (case wa_send_message E cli to (empty_message\<lparr>wm_conversation := Some reply\<rparr>) None s of
        (Inl e, s1) \<Rightarrow> s1
      | (Inr wa_id, s1) \<Rightarrow>
          snd (emit_cloud_sent E sid to wa_id (snd (emit_cloud_outgoing_text E sid to wa_id reply s1))))"

definition handle_call_rejection ::
  "env \<Rightarrow> string \<Rightarrow> client \<Rightarrow> jid \<Rightarrow> string \<Rightarrow> sys \<Rightarrow> sys" where
  "handle_call_rejection E sid cli call_creator call_id s =
     (if \<not> get_reject_calls sid s then s
      else
        (let s1 = snd (wa_reject_call E cli call_creator call_id s);
             reply = trim_space (get_reject_msg sid s1);
             to = strip_device call_creator in
         if reply = [] then s1
         else if is_lid_jid to then
           (case resolve_lid_to_ad E cli to default_lid_attempts s1 of
              (Some r, s2) \<Rightarrow> send_call_reply E sid cli r reply s2
            | (None, s2) \<Rightarrow> s2)
         else send_call_reply E sid cli to reply s1))"

definition mark_read_attempts :: nat where
  "mark_read_attempts = 2"

definition resolve_if_lid :: "env \<Rightarrow> client \<Rightarrow> jid \<Rightarrow> sys \<Rightarrow> jid \<times> sys" where
  "resolve_if_lid E cli j s =
     (if is_lid_jid j then
        (case resolve_lid_to_ad E cli j mark_read_attempts s of
           (Some r, s1) \<Rightarrow> (r, s1) | (None, s1) \<Rightarrow> (j, s1))
      else (j, s))"

definition mark_read_event :: "env \<Rightarrow> client \<Rightarrow> message_info \<Rightarrow> sys \<Rightarrow> sys" where
  "mark_read_event E cli info s =
     (if mi_is_from_me info then s
      else
        (case resolve_if_lid E cli (mi_chat info) s of
           (chat, s1) \<Rightarrow>
             (case resolve_if_lid E cli (effective_sender info) s1 of
                (sender, s2) \<Rightarrow>
                  (case time_now E s2 of
                     (now, s3) \<Rightarrow> snd (wa_mark_read E cli (mi_id info) chat sender s3)))))"

section \<open>What the lookups add\<close>

fun by_lookup :: "effect \<Rightarrow> bool" where
  "by_lookup (EPnForLid c j) = True"
| "by_lookup (EGroupInfo c j) = True"
| "by_lookup (EPicture c j p) = True"
| "by_lookup _ = False"

lemma extends_lid_put:
  "extends K s s' \<Longrightarrow> \<not> is_lid_jid j \<Longrightarrow>
   extends K s (s'\<lparr>tick := t, lid_ad_cache := cache_put_lid now k j (lid_ad_cache s')\<rparr>)"
  by (auto simp: extends_def calm_def lids_resolved_def cache_put_lid_def)

lemma lid_attempts_extends: "extends by_lookup s (snd (lid_attempts E cli lid n s))"
proof (induction n arbitrary: s)
  case (Suc n)
  have step: "extends by_lookup s (log_effect (EPnForLid cli lid) s)" by (rule extends_log) simp
  then show ?case
    by (auto simp: wa_pn_for_lid_def time_now_def intro: extends_trans [OF step Suc] extends_lid_put
        split: sum.split)
qed simp

lemma group_attempts_extends: "extends by_lookup s (snd (group_attempts E cli g n s))"
proof (induction n arbitrary: s)
  case (Suc n)
  have step: "extends by_lookup s (log_effect (EGroupInfo cli g) s)" by (rule extends_log) simp
  then show ?case
    by (auto simp: wa_group_name_def time_now_def intro: extends_trans [OF step Suc]
        split: sum.split option.split)
qed simp

lemma picture_attempts_extends: "extends by_lookup s (snd (picture_attempts E cli j ps s))"
proof (induction ps arbitrary: s)
  case (Cons p ps)
  have step: "extends by_lookup s (log_effect (EPicture cli j p) s)" by (rule extends_log) simp
  then show ?case
    by (auto simp: wa_picture_url_def time_now_def intro: extends_trans [OF step Cons]
        split: sum.split option.split)
qed simp

lemma extends_after_clock: "extends K (s\<lparr>tick := t\<rparr>) s' \<Longrightarrow> extends K s s'"
  by (simp add: extends_def calm_def lids_resolved_def)

lemma resolve_lid_extends [frames]: "extends by_lookup s (snd (resolve_lid_to_ad E cli lid n s))"
  by (auto simp: resolve_lid_to_ad_def time_now_def split: option.split
      intro: extends_after_clock lid_attempts_extends)

lemma jid_display_extends [frames]: "extends by_lookup s (snd (jid_display E cli j s))"
proof -
  obtain r s1 where "resolve_lid_to_ad E cli j default_lid_attempts s = (r, s1)"
    by (cases "resolve_lid_to_ad E cli j default_lid_attempts s")
  with resolve_lid_extends [of s E cli j default_lid_attempts] show ?thesis
    by (auto simp: jid_display_def split: option.split)
qed

lemma resolve_display_extends: "extends by_lookup (snd ms) (snd (snd (resolve_display E cli j ms)))"
proof -
  obtain memo s where ms: "ms = (memo, s)" by (cases ms)
  obtain v s1 where "jid_display E cli j s = (v, s1)" by (cases "jid_display E cli j s")
  with jid_display_extends [of s E cli j] ms show ?thesis
    by (auto simp: resolve_display_def Let_def split: option.split)
qed

lemma message_addresses_extends [frames]: "extends by_lookup s (snd (message_addresses E sid cli info s))"
proof -
  let ?chat = "mi_chat info" and ?sender = "effective_sender info"
  obtain v1 ms1 where 1: "resolve_display E cli ?chat (Map.empty, s) = (v1, ms1)"
    by (cases "resolve_display E cli ?chat (Map.empty, s)")
  have s1: "extends by_lookup s (snd ms1)"
    using resolve_display_extends [of "(Map.empty, s)" E cli ?chat] 1 by simp
  obtain v2 ms2 where 2: "(if is_group_jid ?chat \<and> j_user ?sender \<noteq> []
      then resolve_display E cli ?sender ms1 else (v1, ms1)) = (v2, ms2)" by (metis prod.collapse)
  have s2: "extends by_lookup s (snd ms2)"
    using extends_trans [OF s1 resolve_display_extends [of ms1 E cli ?sender]] 2 s1
    by (auto split: if_splits)
  obtain v3 ms3 where 3: "(if mi_is_from_me info then (normalize_phone sid, ms2)
      else resolve_display E cli ?sender ms2) = (v3, ms3)" by (metis prod.collapse)
  have s3: "extends by_lookup s (snd ms3)"
    using extends_trans [OF s2 resolve_display_extends [of ms2 E cli ?sender]] 3 s2
    by (auto split: if_splits)
  have "message_addresses E sid cli info s = ((v2, v3), snd ms3)"
    unfolding message_addresses_def Let_def 1 prod.case 2 3 by simp
  with s3 show ?thesis by simp
qed

lemma safe_get_group_name_extends [frames]: "extends by_lookup s (snd (safe_get_group_name E cli g s))"
  by (auto simp: safe_get_group_name_def time_now_def split: option.split
      intro: extends_after_clock group_attempts_extends)

lemma get_avatar_url_extends [frames]: "extends by_lookup s (snd (get_avatar_url E cli j s))"
  by (auto simp: get_avatar_url_def time_now_def split: option.split
      intro: extends_after_clock picture_attempts_extends)

lemma display_name_extends [frames]: "extends by_lookup s (snd (display_name E cli info ph s))"
proof -
  obtain r s1 where "safe_get_group_name E cli (mi_chat info) s = (r, s1)"
    by (cases "safe_get_group_name E cli (mi_chat info) s")
  with safe_get_group_name_extends [of s E cli "mi_chat info"] show ?thesis
    by (auto simp: display_name_def split: option.split)
qed

lemma by_lookup_none: "by_lookup e \<Longrightarrow> delivery_of e = []" "by_lookup e \<Longrightarrow> quiet e"
  by (cases e; simp add: quiet_def)+

lemma lookup_deliveries: "extends by_lookup s s' \<Longrightarrow> deliveries (effects s') = deliveries (effects s)"
  by (auto simp: extends_def list_all_iff deliveries_def by_lookup_none)

lemma lookup_quiet: "extends by_lookup s s' \<Longrightarrow> extends quiet s s'"
  by (erule extends_mono) (rule by_lookup_none)

section \<open>The webhook of a message\<close>

lemma tel_entry_jwf: "list_all jwf (tel_entry p w)"
  by (simp add: tel_entry_def Let_def)

lemma vcard_line_jwf:
  "vcard_line (a, b, ph) line = Ok (a', b', ph') \<Longrightarrow> list_all jwf ph \<Longrightarrow> list_all jwf ph'"
  by (auto simp: vcard_line_def Let_def tel_entry_jwf split: if_splits)

lemma vcard_lines_jwf:
  "vcard_lines (a, b, ph) lines = Ok (a', b', ph') \<Longrightarrow> list_all jwf ph \<Longrightarrow> list_all jwf ph'"
  by (induction lines arbitrary: a b ph) (auto dest: vcard_line_jwf)

lemma contact_json_jwf: "contact_json c = Ok j \<Longrightarrow> jwf j"
  by (auto simp: contact_json_def parse_vcard_def Let_def dest: vcard_lines_jwf split: if_splits)

lemma contact_jsons_jwf: "contact_jsons cs = Ok js \<Longrightarrow> list_all jwf js"
  by (induction cs arbitrary: js) (auto dest: contact_json_jwf)

lemma media_json_jwf:
  "jwf (image_json E i x)" "jwf (document_json d)" "jwf (video_json x)" "jwf (audio_json a)"
  "jwf (sticker_json E i y)"
  by (auto simp: image_json_def document_json_def video_json_def audio_json_def sticker_json_def
      media_fields_def file_length_field_def Let_def split: option.split)

lemma message_context_jwf: "message_context_info m = Some c \<Longrightarrow> jwf c"
  by (auto simp: message_context_info_def reply_to_def Let_def split: option.splits if_splits)

lemma base_wire_jwf: "jwf (JObj (base_wire f info m))"
  using message_context_jwf [of m]
  by (auto simp: base_wire_def unix_text_def split: option.split)

definition message_kinds :: "string list" where
  "message_kinds =
     [''text'', ''contacts'', ''image'', ''document'', ''video'', ''audio'', ''sticker'', ''location'']"

text \<open>
  A webhook message made from the fields \<open>wire\<close>: well formed, with the type of its content, the
  content under the name of the type, and the sender, the id and the time of \<open>wire\<close>.
\<close>

definition carries :: "(string \<times> json) list \<Rightarrow> (string \<times> json) list \<Rightarrow> bool" where
  "carries wire w \<longleftrightarrow>
     jwf (JObj w) \<and> (\<exists>k \<in> set message_kinds. map_of w ''type'' = Some (JStr k) \<and> map_of w k \<noteq> None) \<and>
     map_of w ''from'' = map_of wire ''from'' \<and> map_of w ''id'' = map_of wire ''id'' \<and>
     map_of w ''timestamp'' = map_of wire ''timestamp''"

lemma typed_wire_carries:
  "jwf (JObj wire) \<Longrightarrow> jwf v \<Longrightarrow> k \<in> set message_kinds \<Longrightarrow> carries wire (typed_wire k v wire)"
  unfolding carries_def typed_wire_def
  by (intro conjI jwf_put bexI [of _ k]) (auto simp: message_kinds_def)

lemma text_wire_carries: "jwf (JObj wire) \<Longrightarrow> carries wire (text_wire t wire)"
  using typed_wire_carries [of wire "body_of t" "''text''"]
  by (simp add: text_wire_def typed_wire_def body_of_def message_kinds_def)

lemma context_not_kind: "''context'' \<notin> set message_kinds"
  by (simp add: message_kinds_def)

lemma put_context_carries:
  assumes "carries wire w"
  shows "carries wire (put ''context'' (reply_to i) w)"
proof -
  from assms obtain k where k: "k \<in> set message_kinds" "map_of w ''type'' = Some (JStr k)" "map_of w k \<noteq> None"
    unfolding carries_def by blast
  with context_not_kind have "k \<noteq> ''context''" by metis
  with k have "map_of (put ''context'' (reply_to i) w) ''type'' = Some (JStr k)"
    "map_of (put ''context'' (reply_to i) w) k \<noteq> None" by simp_all
  moreover have "jwf (JObj (put ''context'' (reply_to i) w))"
    using assms by (intro jwf_put) (simp_all add: carries_def reply_to_def)
  ultimately show ?thesis using assms k(1) by (auto simp: carries_def simp del: jwf.simps)
qed

lemma content_of_carries:
  assumes "content_of E i m wire = Ok (Content w)" and "jwf (JObj wire)"
  shows "carries wire w"
  using assms
  by (auto simp: content_of_def protocol_content_def reaction_content_def Let_def message_kinds_def
      media_json_jwf contact_json_jwf contact_jsons_jwf
      intro!: put_context_carries text_wire_carries typed_wire_carries
      split: option.splits protocol_type.splits if_splits)

lemma contact_entry_jwf: "jwf (contact_entry_json E info ph n pic)"
  by (auto simp: contact_entry_json_def Let_def split: option.split)

lemma emits_shift:
  "settled s1 = settled s \<Longrightarrow> deliveries (effects s1) = deliveries (effects s) \<Longrightarrow>
   emits_webhook sid s1 r \<Longrightarrow> emits_webhook sid s r"
  by (simp add: emits_webhook_def)

lemma emits_lookup: "extends by_lookup s s1 \<Longrightarrow> emits_webhook sid s1 r \<Longrightarrow> emits_webhook sid s r"
  by (rule emits_shift) (simp_all add: extends_settled lookup_deliveries)

definition message_payload :: "string \<Rightarrow> json \<Rightarrow> (string \<times> json) list \<Rightarrow> json" where
  "message_payload sid contact wire =
     webhook (digits_only sid) (put ''messages'' (JArr [JObj wire])
       (put ''contacts'' (JArr [contact]) (cloud_value (digits_only sid))))"

lemma message_payload_wf:
  "jwf contact \<Longrightarrow> jwf (JObj wire) \<Longrightarrow> cloud_wf sid (message_payload sid contact wire)"
  unfolding message_payload_def
  by (rule cloud_wf_webhook) (auto intro!: jwf_put jwf_cloud_value simp: cloud_value_def)

lemma deliver_message_eq:
  obtains pic name s2 where "deliver_message E sid cli info phone wire s =
      deliver_webhook E sid (message_payload sid (contact_entry_json E info phone name pic) wire) s2"
    and "extends by_lookup s s2"
proof -
  obtain name s1 where 1: "display_name E cli info phone s = (name, s1)"
    by (cases "display_name E cli info phone s")
  obtain pic s2 where 2: "get_avatar_url E cli (mi_chat info) s1 = (pic, s2)"
    by (cases "get_avatar_url E cli (mi_chat info) s1")
  have "extends by_lookup s s1" using display_name_extends [of s E cli info phone] 1 by simp
  moreover have "extends by_lookup s1 s2" using get_avatar_url_extends [of s1 E cli "mi_chat info"] 2 by simp
  ultimately have "extends by_lookup s s2" by (rule extends_trans)
  with 1 2 that show ?thesis by (auto simp: deliver_message_def message_payload_def)
qed

lemma parse_vcard_no_error: "parse_vcard v \<noteq> Err e"
proof -
  have "waid_parameter s \<noteq> Err e" for s
    by (simp add: waid_parameter_def split: option.split)
  then have line: "vcard_line c l \<noteq> Err e" for c l
    by (cases "waid_parameter (trim_space l)") (auto simp: vcard_line_def Let_def split: prod.split)
  have "vcard_lines c ls \<noteq> Err e" for c ls
  proof (induction ls arbitrary: c)
    case (Cons l ls)
    with line [of c l] show ?case by (cases "vcard_line c l") auto
  qed simp
  then have "vcard_lines ([], [], []) (split_on (CHR 0x0A) v) \<noteq> Err e" .
  then show ?thesis
    by (cases "vcard_lines ([], [], []) (split_on (CHR 0x0A) v)") (auto simp: parse_vcard_def Let_def)
qed

lemma contact_json_no_error: "contact_json c \<noteq> Err e" "contact_jsons cs \<noteq> Err e"
proof -
  have one: "contact_json c \<noteq> Err e" for c
    using parse_vcard_no_error [of "str_of (co_vcard c)" e]
    by (cases "parse_vcard (str_of (co_vcard c))") (auto simp: contact_json_def split: prod.split)
  then show "contact_json c \<noteq> Err e" .
  show "contact_jsons cs \<noteq> Err e"
  proof (induction cs)
    case (Cons c cs)
    with one [of c] show ?case by (cases "contact_json c"; cases "contact_jsons cs") auto
  qed simp
qed

lemma content_of_no_error: "content_of E i m wire \<noteq> Err e"
proof -
  have "obind (contact_json c) (\<lambda>j. Ok (f j)) \<noteq> Err e" for c and f :: "json \<Rightarrow> content"
    using contact_json_no_error(1) [of c e] by (cases "contact_json c") auto
  moreover have "obind (contact_jsons cs) (\<lambda>j. Ok (g j)) \<noteq> Err e" for cs and g :: "json list \<Rightarrow> content"
    using contact_json_no_error(2) [of cs e] by (cases "contact_jsons cs") auto
  ultimately show ?thesis by (simp add: content_of_def split: option.split)
qed

text \<open>What the handler does with a message, case by case.\<close>

lemma emit_cloud_message_cases:
  obtains (skip) "emit_cloud_message E sid cli info message s = (Ok (), s)"
      "message = None \<or> filtered_out sid info s"
  | (ignored) s1 where "emit_cloud_message E sid cli info message s = (Ok (), s1)" "extends by_lookup s s1"
  | (panic) r s1 where "emit_cloud_message E sid cli info message s = (Panic r, s1)" "extends by_lookup s s1"
  | (revoked) rid s1 where "emit_cloud_message E sid cli info message s =
      (Ok (), snd (emit_cloud_deleted E sid info rid s1))" "extends by_lookup s s1"
  | (content) from' wire contact m s1 where "message = Some m"
      "emit_cloud_message E sid cli info message s =
         deliver_webhook E sid (message_payload sid contact wire) s1"
      "extends by_lookup s s1" "jwf contact" "carries (base_wire from' info m) wire"
proof (cases "message = None \<or> filtered_out sid info s")
  case True
  then show ?thesis by (intro skip) (auto simp: emit_cloud_message_def split: option.split)
next
  case False
  then obtain m where m: "message = Some m" and f: "\<not> filtered_out sid info s" by auto
  obtain phone from' s1 where a: "message_addresses E sid cli info s = ((phone, from'), s1)"
    by (metis prod.collapse)
  have s1: "extends by_lookup s s1" using message_addresses_extends [of s E sid cli info] a by simp
  have eq: "emit_cloud_message E sid cli info message s =
    (case content_of E (mi_id info) m (base_wire from' info m) of
       Err e \<Rightarrow> (Err e, s1) | Panic r \<Rightarrow> (Panic r, s1) | Ok Ignored \<Rightarrow> (Ok (), s1)
     | Ok (Revoked rid) \<Rightarrow>
         (case emit_cloud_deleted E sid info rid s1 of (Panic r, s2) \<Rightarrow> (Panic r, s2) | (_, s2) \<Rightarrow> (Ok (), s2))
     | Ok (Content wire) \<Rightarrow> deliver_message E sid cli info phone wire s1)"
    using f by (simp add: emit_cloud_message_def m a)
  show ?thesis
  proof (cases "content_of E (mi_id info) m (base_wire from' info m)")
    case (Ok c)
    show ?thesis
    proof (cases c)
      case Ignored
      with Ok eq s1 show ?thesis by (intro ignored) auto
    next
      case (Revoked rid)
      obtain r2 s2 where d: "emit_cloud_deleted E sid info rid s1 = (r2, s2)"
        by (cases "emit_cloud_deleted E sid info rid s1")
      with emit_cloud_deleted_emits [of sid s1 E info rid] have "\<not> is_panic r2"
        by (simp add: emits_webhook_def)
      with Ok Revoked eq s1 d show ?thesis
        by (intro revoked [of rid s1]) (cases r2; simp)+
    next
      case (Content wire)
      obtain pic name s2 where d: "deliver_message E sid cli info phone wire s1 =
          deliver_webhook E sid (message_payload sid (contact_entry_json E info phone name pic) wire) s2"
        "extends by_lookup s1 s2" using deliver_message_eq .
      have "carries (base_wire from' info m) wire"
        using content_of_carries [OF _ base_wire_jwf] Ok Content by auto
      with d Ok Content eq m extends_trans [OF s1 d(2)] show ?thesis
        by (intro content) (auto simp: contact_entry_jwf)
    qed
  next
    case (Err e)
    then show ?thesis by (simp add: content_of_no_error)
  next
    case (Panic r)
    with eq s1 show ?thesis by (intro panic) auto
  qed
qed


text \<open>
  What a consumer of the webhook of an event can rely on: a status, or one message with the id
  and time of the event, of a known type, with the content under the name of that type.
\<close>

definition webhook_of_event :: "message_info \<Rightarrow> json \<Rightarrow> bool" where
  "webhook_of_event info p \<longleftrightarrow>
     (case field_of ''messages'' p of
        Some (JArr []) \<Rightarrow> field_of ''statuses'' p \<noteq> Some (JArr [])
      | Some (JArr [JObj w]) \<Rightarrow>
          list_ex (\<lambda>k. map_of w ''type'' = Some (JStr k) \<and> map_of w k \<noteq> None) message_kinds \<and>
          map_of w ''id'' = Some (JStr (mi_id info)) \<and>
          map_of w ''timestamp'' = Some (unix_text (mi_timestamp info))
      | _ \<Rightarrow> False)"

lemma webhook_of_content:
  assumes "carries (base_wire f info m) wire"
  shows "webhook_of_event info (message_payload sid contact wire)"
proof -
  have "field_of ''messages'' (message_payload sid contact wire) = Some (JArr [JObj wire])"
    by (simp add: message_payload_def)
  moreover have "map_of (base_wire f info m) ''id'' = Some (JStr (mi_id info))"
    "map_of (base_wire f info m) ''timestamp'' = Some (unix_text (mi_timestamp info))"
    by (simp_all add: base_wire_def)
  moreover have "list_ex (\<lambda>k. map_of wire ''type'' = Some (JStr k) \<and> map_of wire k \<noteq> None) message_kinds"
    using assms unfolding carries_def list_ex_iff by blast
  ultimately show ?thesis
    using assms by (simp add: webhook_of_event_def carries_def del: jwf.simps)
qed

lemma deleted_is_delivery:
  obtains p s2 where "emit_cloud_deleted E sid info rid s = deliver_webhook E sid p s2" "s2 = s"
    "cloud_wf sid p" "webhook_of_event info p"
proof -
  let ?st = "status_entry (lib_jid E) rid (event_recipient (lib_jid E) (mi_chat info) (mi_sender info))
      ''deleted'' (mi_timestamp info) (mi_chat info)"
  let ?p = "webhook (digits_only sid) (put ''statuses'' (JArr [?st]) (cloud_value (digits_only sid)))"
  have "cloud_wf sid ?p" by (intro cloud_wf_put) (simp_all add: jwf_status_entry)
  moreover have "webhook_of_event info ?p" by (simp add: webhook_of_event_def cloud_value_def)
  ultimately show ?thesis by (intro that [of ?p s]) (simp_all add: emit_cloud_deleted_def Let_def)
qed

lemma delivery_new:
  assumes "extends by_lookup s s1" and "cloud_wf sid p" and "webhook_of_event info p"
  shows "settled (snd (deliver_webhook E sid p s1)) = settled s \<and>
    (\<exists>ds. deliveries (effects (snd (deliver_webhook E sid p s1))) = deliveries (effects s) @ ds \<and>
      length ds \<le> 1 \<and>
      list_all (\<lambda>d. addressed sid d \<and> cloud_wf sid (payload_of d) \<and> webhook_of_event info (payload_of d)) ds)"
proof -
  obtain ds where "deliveries (effects (snd (deliver_webhook E sid p s1))) = deliveries (effects s1) @ ds"
    "length ds \<le> 1" "\<forall>d \<in> set ds. payload_of d = p \<and> addressed sid d"
    using sink.at_most_once by blast
  with assms show ?thesis by (auto simp: lookup_deliveries extends_settled list_all_iff)
qed

text \<open>
  Whatever the message is, it makes at most one webhook: addressed to the session, well formed, and
  with the id and the time of the event.
\<close>

lemma message_event_webhook:
  "settled (snd (emit_cloud_message E sid cli info message s)) = settled s \<and>
   (\<exists>ds. deliveries (effects (snd (emit_cloud_message E sid cli info message s))) =
       deliveries (effects s) @ ds \<and> length ds \<le> 1 \<and>
     list_all (\<lambda>d. addressed sid d \<and> cloud_wf sid (payload_of d) \<and> webhook_of_event info (payload_of d)) ds)"
proof (cases rule: emit_cloud_message_cases [of E sid cli info message s])
  case skip
  then show ?thesis by simp
next
  case (ignored s1)
  then show ?thesis by (simp add: lookup_deliveries extends_settled)
next
  case (panic r s1)
  then show ?thesis by (simp add: lookup_deliveries extends_settled)
next
  case (revoked rid s1)
  obtain p s2 where "emit_cloud_deleted E sid info rid s1 = deliver_webhook E sid p s2" "s2 = s1"
    "cloud_wf sid p" "webhook_of_event info p" by (rule deleted_is_delivery)
  with revoked delivery_new [of s s1 sid p info E] show ?thesis by simp
next
  case (content from' wire contact m s1)
  have "cloud_wf sid (message_payload sid contact wire)"
    using content by (intro message_payload_wf) (simp_all add: carries_def)
  from delivery_new [OF content(3) this webhook_of_content [OF content(5)]] content(2)
  show ?thesis by simp
qed


section \<open>A message in a direct chat\<close>

text \<open>
  A JID of a telephone number, on any of its devices; and what \<open>String\<close> of the library is relied on
  for: two of them with the same text are of the same number.
\<close>

definition user_jid :: "jid \<Rightarrow> bool" where
  "user_jid j \<longleftrightarrow> j_server j = default_user_server \<and> j_user j \<noteq> [] \<and> list_all is_digit (j_user j)"

definition numbers_apart :: "jid_lib \<Rightarrow> bool" where
  "numbers_apart L \<longleftrightarrow>
     (\<forall>j j'. user_jid j \<longrightarrow> user_jid j' \<longrightarrow> jid_string L j = jid_string L j' \<longrightarrow> j_user j = j_user j')"

lemma user_jid_kind:
  assumes "user_jid j"
  shows "\<not> is_group_jid j" "\<not> is_lid_jid j" "\<not> is_status_broadcast_jid j" "\<not> is_newsletter_jid j"
  using assms
  by (simp_all add: user_jid_def is_group_jid_def is_lid_jid_def is_status_broadcast_jid_def
      is_newsletter_jid_def default_user_server_def has_suffix_def has_prefix_def)

lemma jid_display_user:
  assumes "user_jid j"
  shows "jid_display E cli j s = (j_user j, s)"
proof -
  have "\<not> contains (j_user j) '':''"
    using assms by (auto simp: user_jid_def contains_byte list_all_iff is_digit_def)
  then have "index_of (j_user j) '':'' = None" by (simp add: contains_def)
  with assms user_jid_kind [OF assms] show ?thesis
    by (simp add: jid_display_def digits_only_id user_jid_def)
qed

text \<open>The phone of the contact is the chat's number; the sender is the session or the sender's number.\<close>

lemma direct_addresses:
  assumes "numbers_apart (lib_jid E)" and chat: "user_jid (mi_chat info)"
    and sender: "user_jid (effective_sender info)"
  shows "message_addresses E sid cli info s =
    ((j_user (mi_chat info), if mi_is_from_me info then digits_only sid else j_user (effective_sender info)), s)"
proof -
  have "j_user (mi_chat info) = j_user (effective_sender info)"
    if "jid_string (lib_jid E) (effective_sender info) = jid_string (lib_jid E) (mi_chat info)"
    using assms that unfolding numbers_apart_def by metis
  then show ?thesis
    using user_jid_kind(1) [OF chat]
    by (simp add: message_addresses_def resolve_display_def Let_def jid_display_user [OF chat]
        jid_display_user [OF sender] normalize_phone_def)
qed

text \<open>The entry of the contact, and the webhook, written out.\<close>

definition direct_contact :: "message_info \<Rightarrow> string option \<Rightarrow> json" where
  "direct_contact info picture =
     (let phone = j_user (mi_chat info); push = trim_space (mi_push_name info);
          name = (if mi_is_from_me info \<or> push = [] then phone else push) in
      JObj [(''profile'', JObj ((''name'', JStr name)
              # (case picture of Some u \<Rightarrow> if trim_space u = [] then [] else [(''picture'', JStr u)] | None \<Rightarrow> []))),
            (''wa_id'', JStr phone)])"

definition direct_webhook :: "string \<Rightarrow> json \<Rightarrow> json \<Rightarrow> json" where
  "direct_webhook phone contact message =
     JObj [(''object'', JStr ''whatsapp_business_account''),
       (''entry'', JArr [JObj [(''id'', JStr phone), (''changes'', JArr [JObj [(''field'', JStr ''messages''),
         (''value'', JObj [(''messaging_product'', JStr ''whatsapp''),
            (''metadata'', JObj [(''display_phone_number'', JStr phone), (''phone_number_id'', JStr phone)]),
            (''messages'', JArr [message]), (''contacts'', JArr [contact]),
            (''statuses'', JArr []), (''errors'', JArr [])])]])]])]"

lemma direct_payload: "message_payload sid contact wire = direct_webhook (digits_only sid) contact (JObj wire)"
  by (simp add: message_payload_def webhook_def cloud_value_def direct_webhook_def)

lemma direct_contact_entry:
  "\<not> is_group_jid (mi_chat info) \<Longrightarrow>
   \<exists>name. display_name E cli info (j_user (mi_chat info)) s = (name, s) \<and>
     contact_entry_json E info (j_user (mi_chat info)) name picture = direct_contact info picture"
  by (auto simp: display_name_def contact_entry_json_def direct_contact_def Let_def split: option.split)

lemma delivered_exactly:
  assumes "m_webhook_base s \<noteq> []" "env_request_error E (webhook_url s sid) = None" "marshal_ok p"
  shows "\<exists>d. fst (deliver_webhook E sid p s) = Ok () \<and>
    deliveries (effects (snd (deliver_webhook E sid p s))) = deliveries (effects s) @ [d] \<and>
    addressed sid d \<and> payload_of d = p"
proof -
  obtain r s1 where pub: "publish_webhook E (normalize_phone sid) p s = (r, s1)"
    by (cases "publish_webhook E (normalize_phone sid) p s")
  have same: "settled s1 = settled s" and np: "\<not> is_panic r"
    using publish_webhook_settled [of E "normalize_phone sid" p s]
      publish_webhook_no_panic [of E "normalize_phone sid" p s] pub by simp_all
  have "fst (deliver_webhook E sid p s) = Ok ()"
    using pub np assms settled_eqD(2) [OF same] webhook_url_settled [OF same]
    by (cases r) (simp_all add: deliver_webhook_eqs)
  then show ?thesis
    using deliver_webhook_props [of E sid p s] assms
    by (cases "fst (publish_webhook E (digits_only sid) p s)") (auto simp: webhook_url_def)
qed

lemma direct_message_webhook:
  assumes "numbers_apart (lib_jid E)" and "user_jid (mi_chat info)" and "user_jid (effective_sender info)"
    and "m_webhook_base s \<noteq> []" and "env_request_error E (webhook_url s sid) = None"
    and content: "content_of E (mi_id info) m
      (base_wire (if mi_is_from_me info then digits_only sid else j_user (effective_sender info)) info m) =
        Ok (Content wire)" and "marshal_ok (JObj wire)"
  shows "\<exists>d picture. fst (emit_cloud_message E sid cli info (Some m) s) = Ok () \<and>
    deliveries (effects (snd (emit_cloud_message E sid cli info (Some m) s))) = deliveries (effects s) @ [d] \<and>
    addressed sid d \<and>
    payload_of d = direct_webhook (digits_only sid) (direct_contact info picture) (JObj wire)"
proof -
  have f: "\<not> filtered_out sid info s"
    using user_jid_kind [OF assms(2)] user_jid_kind [OF assms(3)] by (simp add: filtered_out_def Let_def)
  obtain picture s1 where pic: "get_avatar_url E cli (mi_chat info) s = (picture, s1)" by (metis prod.collapse)
  then have s1: "extends by_lookup s s1" using get_avatar_url_extends [of s E cli "mi_chat info"] by simp
  let ?p = "direct_webhook (digits_only sid) (direct_contact info picture) (JObj wire)"
  obtain name where name: "display_name E cli info (j_user (mi_chat info)) s = (name, s)"
    "contact_entry_json E info (j_user (mi_chat info)) name picture = direct_contact info picture"
    using direct_contact_entry user_jid_kind(1) [OF assms(2)] by metis
  have "emit_cloud_message E sid cli info (Some m) s = deliver_webhook E sid ?p s1"
    using f content name pic
    by (simp add: emit_cloud_message_def direct_addresses [OF assms(1-3)] deliver_message_def
        flip: direct_payload) (simp add: message_payload_def)
  moreover have "marshal_ok ?p" using assms(7)
    by (auto simp: direct_webhook_def direct_contact_def Let_def split: option.split)
  moreover have "m_webhook_base s1 = m_webhook_base s" "webhook_url s1 sid = webhook_url s sid"
    using settled_eqD(2) [OF extends_settled [OF s1]] webhook_url_settled [OF extends_settled [OF s1]] by auto
  ultimately show ?thesis
    using delivered_exactly [of s1 E sid ?p] assms(4,5) lookup_deliveries [OF s1] by auto
qed

text \<open>The text of a message: the conversation, or else the extended text without its outer blanks.\<close>

definition text_of :: "wa_message \<Rightarrow> string option" where
  "text_of m =
     (if wm_protocol m \<noteq> None \<or> wm_contact m \<noteq> None \<or> wm_contacts m \<noteq> None \<or> wm_reaction m \<noteq> None then None
      else if str_of (wm_conversation m) \<noteq> [] then wm_conversation m
      else map_option (\<lambda>x. trim_space (str_of (et_text x))) (wm_extended_text m))"

lemma text_content:
  assumes "text_of m = Some t"
  shows "content_of E i m wire = Ok (Content (text_wire t wire))"
  using assms by (auto simp: text_of_def content_of_def split: if_splits option.splits)

lemma reply_context_marshals: "message_context_info m = Some c \<Longrightarrow> marshal_ok c"
  by (auto simp: message_context_info_def reply_to_def Let_def split: option.splits if_splits)

text \<open>
  C11: A text message in a direct chat becomes exactly one webhook, addressed to the session, and the
  call succeeds. Its payload is this Cloud-API object and nothing else: the session's number as id
  and metadata; one message with the sender's number (the session's own for a message from the
  session), the id of the event, its time in seconds, the reply context if there is one, and
  the type text with the text of the message as its body; one contact with the number of the chat
  and the sender's name (the number for a message from the session or without a name); no status
  and no error.
\<close>

theorem text_message_webhook:
  assumes "numbers_apart (lib_jid E)" and "user_jid (mi_chat info)" and "user_jid (effective_sender info)"
    and "m_webhook_base s \<noteq> []" and "env_request_error E (webhook_url s sid) = None"
    and "text_of m = Some t"
  shows "\<exists>d picture. fst (emit_cloud_message E sid cli info (Some m) s) = Ok () \<and>
    deliveries (effects (snd (emit_cloud_message E sid cli info (Some m) s))) = deliveries (effects s) @ [d] \<and>
    addressed sid d \<and>
    payload_of d = direct_webhook (digits_only sid) (direct_contact info picture)
      (JObj ([(''from'', JStr (if mi_is_from_me info then digits_only sid else j_user (effective_sender info))),
              (''id'', JStr (mi_id info)), (''timestamp'', JStr (int_dec (unix_of (mi_timestamp info))))]
             @ (case message_context_info m of Some c \<Rightarrow> [(''context'', c)] | None \<Rightarrow> [])
             @ [(''type'', JStr ''text''), (''text'', JObj [(''body'', JStr t)])]))"
proof -
  let ?from = "if mi_is_from_me info then digits_only sid else j_user (effective_sender info)"
  have "digits_only ?from = ?from" using assms(3) by (simp add: user_jid_def digits_only_id)
  then have from': "normalize_from_field ?from = ?from"
    unfolding normalize_from_field_def by (metis plus_not_digit)
  have wire: "text_wire t (base_wire ?from info m) =
    [(''from'', JStr ?from), (''id'', JStr (mi_id info)), (''timestamp'', JStr (int_dec (unix_of (mi_timestamp info))))]
    @ (case message_context_info m of Some c \<Rightarrow> [(''context'', c)] | None \<Rightarrow> [])
    @ [(''type'', JStr ''text''), (''text'', JObj [(''body'', JStr t)])]"
    unfolding text_wire_def base_wire_def from' body_of_def unix_text_def by (simp split: option.split)
  have "marshal_ok (JObj (text_wire t (base_wire ?from info m)))"
    unfolding wire by (auto simp: reply_context_marshals split: option.split)
  from direct_message_webhook [OF assms(1-5) text_content [OF assms(6)] this] show ?thesis
    unfolding wire .
qed

lemma plain_numbers_apart: "numbers_apart plain_jids"
proof -
  have "CHR ''@'' \<notin> set (j_user j)" if "user_jid j" for j
    using that by (auto simp: user_jid_def list_all_iff is_digit_def)
  moreover have "u = u'" if "u @ CHR ''@'' # v = u' @ CHR ''@'' # v" for u u' v :: string
    using that by simp
  ultimately show ?thesis by (auto simp: numbers_apart_def user_jid_def plain_jids_def)
qed

text \<open>A reply, from the second device of the other side.\<close>

definition direct_info :: message_info where
  "direct_info =
     (let j = empty_jid\<lparr>j_user := ''556281728088'', j_server := default_user_server\<rparr> in
      \<lparr>mi_id = ''3EB0'', mi_is_from_me = False, mi_chat = j, mi_sender = j\<lparr>j_device := 2\<rparr>,
       mi_sender_alt = empty_jid, mi_push_name = '' Ana'', mi_timestamp = Some (1700000000 * nano)\<rparr>)"

definition reply_text :: wa_message where
  "reply_text = empty_message\<lparr>wm_extended_text := Some \<lparr>et_text = Some ''ok '',
     et_context = Some \<lparr>ci_stanza_id = Some ''M1'', ci_participant = None, ci_is_forwarded = False,
       ci_quoted = None, ci_mentioned = []\<rparr>\<rparr>\<rparr>"

theorem text_message_webhook_witness:
  "\<exists>d picture.
    deliveries (effects (snd (emit_cloud_message silent_env ''5562'' 1 direct_info (Some reply_text) idle_sys))) = [d] \<and>
    payload_of d = direct_webhook ''5562'' (direct_contact direct_info picture)
      (JObj [(''from'', JStr ''556281728088''), (''id'', JStr ''3EB0''), (''timestamp'', JStr ''1700000000''),
             (''context'', reply_to ''M1''), (''type'', JStr ''text''), (''text'', JObj [(''body'', JStr ''ok'')])])"
proof -
  have body: "text_of reply_text = Some ''ok''" by code_simp
  have users: "user_jid (mi_chat direct_info)" "user_jid (effective_sender direct_info)" by code_simp+
  have "unix_of (mi_timestamp direct_info) = 1700000000"
    by (simp add: unix_of_def direct_info_def nano_def Let_def)
  moreover have "int_dec 1700000000 = ''1700000000''"
    by (simp add: int_dec_def nat_dec.simps digit_char_def char_of_def bit_simps)
  ultimately have time: "int_dec (unix_of (mi_timestamp direct_info)) = ''1700000000''" by simp
  have lits: "j_user (effective_sender direct_info) = ''556281728088''" "mi_id direct_info = ''3EB0''"
    "mi_is_from_me direct_info = False" "digits_only ''5562'' = ''5562''" by code_simp+
  have ctx: "message_context_info reply_text = Some (reply_to ''M1'')" by code_simp
  have "m_webhook_base idle_sys \<noteq> []" "env_request_error silent_env u = None" "lib_jid silent_env = plain_jids"
    "deliveries (effects idle_sys) = []" for u
    by (simp_all add: idle_sys_def new_client_manager_def silent_env_def deliveries_def)
  with text_message_webhook [of silent_env direct_info idle_sys "''5562''" reply_text "''ok''" 1]
    plain_numbers_apart users body
  show ?thesis by (auto simp: lits time ctx)
qed

section \<open>Calls\<close>

lemma lid_attempts_resolved: "lid_attempts E cli lid n s = (Some j, s1) \<Longrightarrow> \<not> is_lid_jid j"
  by (induction n arbitrary: s)
    (auto simp: wa_pn_for_lid_def time_now_def split: sum.splits if_splits)

lemma resolve_lid_resolved:
  assumes "lids_resolved s" "resolve_lid_to_ad E cli lid n s = (Some j, s1)"
  shows "\<not> is_lid_jid j"
proof (cases "cache_get_lid (env_now E (tick s)) (lid_ad_cache s) (jid_string (lib_jid E) lid)")
  case None
  with assms(2) have "lid_attempts E cli lid n (s\<lparr>tick := Suc (tick s)\<rparr>) = (Some j, s1)"
    by (auto simp: resolve_lid_to_ad_def time_now_def split: if_splits)
  then show ?thesis by (rule lid_attempts_resolved)
next
  case (Some v)
  with assms show ?thesis
    by (auto simp: resolve_lid_to_ad_def time_now_def cache_get_lid_def lids_resolved_def
        split: option.splits if_splits)
qed

lemma send_call_reply_props:
  "calm s (send_call_reply E sid cli to reply s) \<and>
   sends (effects (send_call_reply E sid cli to reply s)) =
     sends (effects s) @ [(cli, to, empty_message\<lparr>wm_conversation := Some reply\<rparr>, None)]"
proof -
  let ?s1 = "log_effect (ESendMessage cli to (empty_message\<lparr>wm_conversation := Some reply\<rparr>) None) s"
  let ?s2 = "\<lambda>i. snd (emit_cloud_outgoing_text E sid to i reply ?s1)"
  have "extends quiet ?s1 (?s2 i)" "extends quiet (?s2 i) (snd (emit_cloud_sent E sid to i (?s2 i)))" for i
    by (rule broker_quiet, rule frames)+
  then have emit: "extends quiet ?s1 (snd (emit_cloud_sent E sid to i (?s2 i)))" for i
    by (rule extends_trans)
  have s1: "calm s ?s1" "sends (effects ?s1) = sends (effects s) @
      [(cli, to, empty_message\<lparr>wm_conversation := Some reply\<rparr>, None)]"
    by simp (simp add: log_effect_def sends_def)
  with calm_trans [OF s1(1) extends_calm [OF emit]] extends_sends [OF emit] show ?thesis
    by (simp add: send_call_reply_def wa_send_message_def split: sum.split)
qed

text \<open>Where the reply to a rejected call goes: nowhere for a LID that cannot be resolved.\<close>

definition reply_target :: "env \<Rightarrow> client \<Rightarrow> jid \<Rightarrow> string \<Rightarrow> sys \<Rightarrow> jid option" where
  "reply_target E cli creator call_id s =
     (if is_lid_jid (strip_device creator) then
        fst (resolve_lid_to_ad E cli (strip_device creator) default_lid_attempts
          (snd (wa_reject_call E cli creator call_id s)))
      else Some (strip_device creator))"

lemma call_rejection:
  "calm s (handle_call_rejection E sid cli creator call_id s) \<and>
   sends (effects (handle_call_rejection E sid cli creator call_id s)) = sends (effects s) @
     (if get_reject_calls sid s \<and> trim_space (get_reject_msg sid s) \<noteq> [] then
        (case reply_target E cli creator call_id s of
           None \<Rightarrow> []
         | Some j \<Rightarrow>
             [(cli, j, empty_message\<lparr>wm_conversation := Some (trim_space (get_reject_msg sid s))\<rparr>, None)])
      else [])"
proof (cases "get_reject_calls sid s")
  case False
  then show ?thesis by (simp add: handle_call_rejection_def)
next
  case True
  let ?s1 = "snd (wa_reject_call E cli creator call_id s)"
  let ?to = "strip_device creator" and ?reply = "trim_space (get_reject_msg sid s)"
  obtain r s2 where res: "resolve_lid_to_ad E cli ?to default_lid_attempts ?s1 = (r, s2)" by (metis prod.collapse)
  have q: "extends quiet s ?s1" by (rule extends_calls) (simp add: quiet_def)
  then have q2: "extends quiet s s2"
    using lookup_quiet [OF resolve_lid_extends [of ?s1 E cli ?to default_lid_attempts]] res
    by (metis extends_trans snd_conv)
  have "get_reject_msg sid ?s1 = get_reject_msg sid s"
    using extends_settled [OF q] by (rule reject_msg.of_settled)
  then have eq: "handle_call_rejection E sid cli creator call_id s =
    (if ?reply = [] then ?s1
     else if is_lid_jid ?to then (case r of Some j \<Rightarrow> send_call_reply E sid cli j ?reply s2 | None \<Rightarrow> s2)
     else send_call_reply E sid cli ?to ?reply ?s1)"
    using True res by (cases r) (simp_all add: handle_call_rejection_def Let_def)
  note reply = send_call_reply_props [of _ E sid cli _ ?reply]
  show ?thesis
    unfolding eq reply_target_def res fst_conv using True reply [of ?s1 ?to] reply [of s2]
      q q2 extends_sends [OF q] extends_sends [OF q2] calm_trans [OF extends_calm [OF q]]
      calm_trans [OF extends_calm [OF q2]]
    by (auto simp: extends_calm split: option.split)
qed

lemma reply_target_no_lid: "lids_resolved s \<Longrightarrow> reply_target E cli creator call_id s = Some j \<Longrightarrow> \<not> is_lid_jid j"
proof -
  assume ok: "lids_resolved s" and j: "reply_target E cli creator call_id s = Some j"
  let ?s1 = "snd (wa_reject_call E cli creator call_id s)"
  have "lids_resolved ?s1" using ok by (simp add: wa_reject_call_def log_effect_def lids_resolved_def)
  moreover obtain r s2 where "resolve_lid_to_ad E cli (strip_device creator) default_lid_attempts ?s1 = (r, s2)"
    by (metis prod.collapse)
  ultimately show ?thesis
    using j resolve_lid_resolved [of ?s1] by (auto simp: reply_target_def split: if_splits)
qed

section \<open>Bounded retries\<close>

lemma lid_attempts_bounded:
  "\<exists>new. effects (snd (lid_attempts E cli lid n s)) = effects s @ new \<and>
     list_all (\<lambda>e. e = EPnForLid cli lid) new \<and> length new \<le> n \<and>
     (fst (lid_attempts E cli lid n s) = None \<longrightarrow> length new = n)"
proof (induction n arbitrary: s)
  case (Suc n)
  obtain new where "effects (snd (lid_attempts E cli lid n (log_effect (EPnForLid cli lid) s))) =
      (effects s @ [EPnForLid cli lid]) @ new" "list_all (\<lambda>e. e = EPnForLid cli lid) new" "length new \<le> n"
    "fst (lid_attempts E cli lid n (log_effect (EPnForLid cli lid) s)) = None \<longrightarrow> length new = n"
    using Suc.IH [of "log_effect (EPnForLid cli lid) s"] by (auto simp: log_effect_def)
  then show ?case
    by (auto simp: wa_pn_for_lid_def time_now_def log_effect_def split: sum.split)
qed simp

text \<open>
  Resolving a LID ends after at most the given number of queries to WhatsApp, has no other
  effect, and gives up only after exactly that many, or at once when the client has no LID store.
\<close>

lemma lid_resolution_bounded:
  "\<exists>new. effects (snd (resolve_lid_to_ad E cli lid n s)) = effects s @ new \<and>
     list_all (\<lambda>e. e = EPnForLid cli lid) new \<and> length new \<le> n \<and>
     (case fst (resolve_lid_to_ad E cli lid n s) of
        None \<Rightarrow> length new = (if env_has_lid_store E cli then n else 0) | Some r \<Rightarrow> True)"
  using lid_attempts_bounded [of E cli lid n "s\<lparr>tick := Suc (tick s)\<rparr>"]
  by (auto simp: resolve_lid_to_ad_def time_now_def split: option.split)

section \<open>Messages read back\<close>

lemma b64_back [simp]: "base64_decode (b64 b) = Some b"
  by (cases b) (simp_all add: b64_def base64_roundtrip)

text \<open>
  C15: An image as \<open>Send\<close> builds it reads back from the webhook of the message: the caption, the
  direct path, the media key and the hash of the file (in base64) and the length of the file
  modulo 2^64 are those of the upload.
\<close>

theorem sent_image_read_back:
  "\<exists>w kvs. content_of E i (image_message caption ctx data mime up) wire = Ok (Content w) \<and>
     map_of w ''type'' = Some (JStr ''image'') \<and> map_of w ''image'' = Some (JObj kvs) \<and>
     map_of kvs ''caption'' = Some (JStr caption) \<and>
     map_of kvs ''direct_path'' = Some (JStr (up_direct_path up)) \<and>
     Option.bind (Option.bind (map_of kvs ''media_key'') jstr) base64_decode = Some (up_media_key up) \<and>
     Option.bind (Option.bind (map_of kvs ''sha256'') jstr) base64_decode = Some (up_file_sha256 up) \<and>
     map_of kvs ''file_length'' = Some (JInt (int (length data) mod 2 ^ 64))"
proof -
  let ?x = "captioned data mime up caption ctx"
  obtain kvs where kvs: "image_json E i ?x = JObj kvs" by (simp add: image_json_def Let_def)
  have "content_of E i (image_message caption ctx data mime up) wire =
      Ok (Content (typed_wire ''image'' (image_json E i ?x) wire))"
    by (simp add: content_of_def image_message_def empty_message_def)
  moreover have "map_of kvs ''caption'' = Some (JStr caption)"
    "map_of kvs ''direct_path'' = Some (JStr (up_direct_path up))"
    "map_of kvs ''media_key'' = Some (JStr (b64 (up_media_key up)))"
    "map_of kvs ''sha256'' = Some (JStr (b64 (up_file_sha256 up)))"
    using kvs by (auto simp: image_json_def Let_def media_fields_def captioned_def nonempty_def)
  moreover have "map_of kvs ''file_length'' = Some (JInt (int (length data) mod 2 ^ 64))"
    using kvs
    by (auto simp: image_json_def Let_def media_fields_def captioned_def file_length_field_def
        file_length_def unsigned_of_nat take_bit_eq_mod of_nat_mod)
  ultimately show ?thesis
    by (intro exI [of _ "typed_wire ''image'' (image_json E i ?x) wire"] exI [of _ kvs])
      (simp add: typed_wire_def kvs)
qed

definition reported_contact :: "contact_entry \<Rightarrow> json" where
  "reported_contact c =
     JObj [(''name'', JObj [(''formatted_name'', JStr (trim_space (cn_formatted_name c)))]),
           (''phones'', JArr (map reported_phone (cn_phones c)))]"

definition plain_contact :: "contact_entry \<Rightarrow> bool" where
  "plain_contact c \<longleftrightarrow>
     name_text (cn_formatted_name c) \<and> cn_phones c \<noteq> [] \<and> list_all plain_phone (cn_phones c)"

lemma contact_messages_read_back:
  "list_all plain_contact cs \<Longrightarrow>
   contact_jsons (contact_messages cs) = Ok (map reported_contact cs) \<and>
   length (contact_messages cs) = length cs"
proof (induction cs)
  case (Cons c cs)
  then have c: "name_text (cn_formatted_name c)" "cn_phones c \<noteq> []" "list_all plain_phone (cn_phones c)"
    by (simp_all add: plain_contact_def)
  then have "tel_lines (cn_phones c) \<noteq> []" by (simp add: tel_lines_plain)
  moreover have "contact_json \<lparr>co_display_name = Some (contact_name c),
      co_vcard = Some (vcard_text (contact_name c) (tel_lines (cn_phones c)))\<rparr> = Ok (reported_contact c)"
    using c vcard_read_back [OF c] by (simp add: contact_json_def reported_contact_def name_text_def)
  ultimately show ?case using Cons by (simp add: Let_def)
qed simp

text \<open>
  C16: Contacts sent and received: the message that \<open>Send\<close> builds for contacts with a name and
  telephone numbers as people write them becomes, on the receiving side, a webhook message of
  type contacts with every contact in order, its name as it was and one entry for each of its
  numbers, in order, with the digits of the number and of its WhatsApp id under the Brazilian
  ninth-digit rule. No card makes the parser panic.
\<close>

theorem sent_contacts_read_back:
  assumes "cs \<noteq> []" and "list_all plain_contact cs"
  shows "\<exists>arr. contacts_array cs = Ok arr \<and>
    content_of E i (empty_message\<lparr>wm_contacts := Some arr\<rparr>) wire =
      Ok (Content (typed_wire ''contacts'' (JArr (map reported_contact cs)) wire))"
proof -
  obtain c rest where cs: "cs = c # rest" using assms(1) by (cases cs) auto
  have msgs: "contact_jsons (contact_messages cs) = Ok (map reported_contact cs)" "contact_messages cs \<noteq> []"
    using contact_messages_read_back [OF assms(2)] assms(1) by (auto simp: cs)
  then have "contacts_array cs = Ok \<lparr>ca_display_name = Some (contact_name c), ca_contacts = contact_messages cs\<rparr>"
    unfolding contacts_array_def by (simp add: cs)
  with msgs assms(1) show ?thesis
    by (simp add: content_of_def empty_message_def)
qed

theorem sent_contacts_read_back_witness:
  "\<exists>arr. contacts_array [example_contact] = Ok arr \<and>
    content_of silent_env ''M1'' (empty_message\<lparr>wm_contacts := Some arr\<rparr>) [] =
      Ok (Content (typed_wire ''contacts'' (JArr [JObj
        [(''name'', JObj [(''formatted_name'', JStr ''Ana Maria'')]),
         (''phones'', JArr [JObj [(''phone'', JStr ''5562981728088''), (''wa_id'', JStr ''5562981728088'')]])]]) []))"
proof -
  have "plain_contact example_contact"
    "reported_contact example_contact = JObj
        [(''name'', JObj [(''formatted_name'', JStr ''Ana Maria'')]),
         (''phones'', JArr [JObj [(''phone'', JStr ''5562981728088''), (''wa_id'', JStr ''5562981728088'')]])]"
    by code_simp+
  then show ?thesis using sent_contacts_read_back [of "[example_contact]" silent_env "''M1''" "[]"] by simp
qed

text \<open>
  C39: A short contact card makes the handler of a message panic whenever the message is not
  filtered out: the parser looks the place of the waid parameter up in the lower-cased line, which
  is longer than the line, and slices the line there.
\<close>

theorem hostile_card_panics:
  "is_panic (fst (emit_cloud_message E sid cli info
     (Some (empty_message\<lparr>wm_contact := Some \<lparr>co_display_name = n, co_vcard = Some growing_card\<rparr>\<rparr>)) s)) =
   (\<not> filtered_out sid info s)"
proof -
  have "content_of E i (empty_message\<lparr>wm_contact := Some \<lparr>co_display_name = n, co_vcard = Some growing_card\<rparr>\<rparr>) wire =
      Panic ''slice bounds out of range''" for i wire
    by (simp add: content_of_def empty_message_def contact_json_def growing_card_panics)
  then show ?thesis by (simp add: emit_cloud_message_def split: prod.split)
qed

end
