(* ===== verification/Json_Parse.thy ===== *)
theory Json_Parse
  imports Json
begin

text \<open>
  The syntax that \<open>json.Unmarshal\<close> accepts, as encoding/json does it: the grammar of RFC 8259
  and nothing else, invalid UTF-8 and lone surrogates as U+FFFD, and at most ten thousand
  nested objects and arrays. The result keeps the literals of numbers and every member of an
  object in its order. \<open>any_of_raw\<close> is the decoding into dynamically typed values: numbers as
  \<open>float64\<close> (a number out of range is an error), and the last value of a repeated key. The
  parser takes fuel, twice the length of the text and two, which is always enough
  (\<open>json_fuel_enough\<close>).
\<close>

section \<open>Strings\<close>

definition utf8_encode :: "nat \<Rightarrow> string" where
  "utf8_encode n =
     (if n < 128 then [char_of n]
      else if n < 2048 then [char_of (192 + n div 64), char_of (128 + n mod 64)]
      else if n < 65536 then
        [char_of (224 + n div 4096), char_of (128 + n div 64 mod 64), char_of (128 + n mod 64)]
      else
        [char_of (240 + n div 262144), char_of (128 + n div 4096 mod 64),
         char_of (128 + n div 64 mod 64), char_of (128 + n mod 64)])"

definition replacement :: string where
  "replacement = [CHR 0xEF, CHR 0xBF, CHR 0xBD]"

function valid_utf8 :: "string \<Rightarrow> string" where
  "valid_utf8 [] = []"
| "valid_utf8 (c # s) =
     (let w = rune_width (map of_char (take 4 (c # s))) in
      if w = 0 then replacement @ valid_utf8 s
      else take w (c # s) @ valid_utf8 (drop (w - 1) s))"
  by pat_completeness auto
termination
  by (relation "measure length") (auto simp: less_Suc_eq_le)

definition hex4 :: "string \<Rightarrow> (nat \<times> string) option" where
  "hex4 s =
     (case s of
        a # b # c # d # r \<Rightarrow>
          (case (digit_in 16 a, digit_in 16 b, digit_in 16 c, digit_in 16 d) of
             (Some i, Some j, Some k, Some l) \<Rightarrow> Some (4096 * i + 256 * j + 16 * k + l, r)
           | _ \<Rightarrow> None)
      | _ \<Rightarrow> None)"

definition low_surrogate :: "string \<Rightarrow> (nat \<times> string) option" where
  \<comment> \<open>a \<open>\uXXXX\<close> that completes a pair\<close>
  "low_surrogate s =
     (case s of
        b # u # r \<Rightarrow>
          if b = CHR 0x5C \<and> u = CHR ''u'' then
            (case hex4 r of
               Some (n, r') \<Rightarrow> if 56320 \<le> n \<and> n < 57344 then Some (n, r') else None
             | None \<Rightarrow> None)
          else None
      | _ \<Rightarrow> None)"

definition unicode_escape :: "string \<Rightarrow> (string \<times> string) option" where
  "unicode_escape s =
     (case hex4 s of
        None \<Rightarrow> None
      | Some (n, r) \<Rightarrow>
          if 55296 \<le> n \<and> n < 57344 then
            (case (if n < 56320 then low_surrogate r else None) of
               Some (m, r') \<Rightarrow> Some (utf8_encode (65536 + (n - 55296) * 1024 + (m - 56320)), r')
             | None \<Rightarrow> Some (replacement, r))
          else Some (utf8_encode n, r))"

definition simple_escapes :: "(char \<times> char) list" where
  "simple_escapes =
     [(CHR 0x22, CHR 0x22), (CHR 0x5C, CHR 0x5C), (CHR ''/'', CHR ''/''), (CHR ''b'', CHR 0x08),
      (CHR ''f'', CHR 0x0C), (CHR ''n'', CHR 0x0A), (CHR ''r'', CHR 0x0D), (CHR ''t'', CHR 0x09)]"

definition escape :: "string \<Rightarrow> (string \<times> string) option" where
  \<comment> \<open>what follows a backslash\<close>
  "escape s =
     (case s of
        [] \<Rightarrow> None
      | c # r \<Rightarrow>
          if c = CHR ''u'' then unicode_escape r
          else map_option (\<lambda>x. ([x], r)) (map_of simple_escapes c))"

lemma hex4_shorter: "hex4 s = Some (n, r) \<Longrightarrow> length r < length s"
  by (auto simp: hex4_def split: list.splits option.splits)

lemma escape_shorter: "escape s = Some (t, r) \<Longrightarrow> length r < length s"
proof -
  have low: "low_surrogate s = Some (n, r) \<Longrightarrow> length r < length s" for s n r
    by (auto simp: low_surrogate_def dest!: hex4_shorter split: list.splits option.splits if_splits)
  have uni: "unicode_escape s = Some (t, r) \<Longrightarrow> length r < length s" for s t r
    by (auto simp: unicode_escape_def dest!: hex4_shorter low split: option.splits if_splits)
  show "escape s = Some (t, r) \<Longrightarrow> ?thesis"
    by (auto simp: escape_def dest!: uni split: list.splits if_splits)
qed

text \<open>The rest of a string literal after its opening quote, and what follows it.\<close>

function string_body :: "string \<Rightarrow> (string \<times> string) option" where
  "string_body [] = None"
| "string_body (c # s) =
     (if c = CHR 0x22 then Some ([], s)
      else if (of_char c :: nat) < 32 then None
      else if c = CHR 0x5C then
        (case escape s of
           None \<Rightarrow> None
         | Some (t, r) \<Rightarrow> map_option (\<lambda>(u, rest). (t @ u, rest)) (string_body r))
      else map_option (\<lambda>(u, rest). (c # u, rest)) (string_body s))"
  by pat_completeness auto
termination
  by (relation "measure length") (auto dest: escape_shorter)

lemma string_body_shorter: "string_body s = Some (t, r) \<Longrightarrow> length r < length s"
  by (induction s arbitrary: t r rule: string_body.induct)
    (fastforce dest: escape_shorter split: if_splits option.splits)+

section \<open>Numbers\<close>

definition span_digits :: "string \<Rightarrow> string \<times> string" where
  "span_digits s = (takeWhile is_digit s, dropWhile is_digit s)"

definition number_integer :: "string \<Rightarrow> (string \<times> string) option" where
  "number_integer s =
     (case s of
        [] \<Rightarrow> None
      | c # r \<Rightarrow>
          if c = CHR ''0'' then Some ([c], r)
          else if is_digit c then Some (span_digits s) else None)"

definition number_fraction :: "string \<Rightarrow> (string \<times> string) option" where
  "number_fraction s =
     (case s of
        [] \<Rightarrow> Some ([], [])
      | c # r \<Rightarrow>
          if c = CHR ''.'' then
            (case span_digits r of (ds, r') \<Rightarrow> if ds = [] then None else Some (c # ds, r'))
          else Some ([], s))"

definition number_exponent :: "string \<Rightarrow> (string \<times> string) option" where
  "number_exponent s =
     (case s of
        [] \<Rightarrow> Some ([], [])
      | c # r \<Rightarrow>
          if c \<in> set ''eE'' then
            (let (sg, r1) = (case r of
                   x # r' \<Rightarrow> if x \<in> set ''+-'' then ([x], r') else ([], r) | [] \<Rightarrow> ([], [])) in
             case span_digits r1 of (ds, r2) \<Rightarrow> if ds = [] then None else Some (c # sg @ ds, r2))
          else Some ([], s))"

definition number_literal :: "string \<Rightarrow> (string \<times> string) option" where
  "number_literal s =
     (let (sg, s1) = (case s of c # r \<Rightarrow> if c = CHR ''-'' then ([c], r) else ([], s) | [] \<Rightarrow> ([], [])) in
      Option.bind (number_integer s1) (\<lambda>(i, s2).
      Option.bind (number_fraction s2) (\<lambda>(f, s3).
      Option.bind (number_exponent s3) (\<lambda>(e, s4). Some (sg @ i @ f @ e, s4)))))"

lemma span_digits_length: "span_digits s = (ds, r) \<Longrightarrow> length ds + length r = length s"
  by (auto simp: span_digits_def) (metis length_append takeWhile_dropWhile_id)

lemma number_literal_shorter:
  assumes "number_literal s = Some (t, r)"
  shows "length r < length s"
proof -
  have int: "number_integer s = Some (i, r) \<Longrightarrow> length r < length s" for s i r
  proof -
    assume a: "number_integer s = Some (i, r)"
    then obtain c s' where s: "s = c # s'" by (cases s) (auto simp: number_integer_def)
    show "length r < length s"
    proof (cases "c = CHR ''0''")
      case False
      with a s have "is_digit c" "r = dropWhile is_digit s" by (auto simp: number_integer_def span_digits_def split: if_splits)
      with s show ?thesis using length_dropWhile_le [of is_digit s'] by simp
    qed (use a s in \<open>simp add: number_integer_def\<close>)
  qed
  have frac: "number_fraction s = Some (i, r) \<Longrightarrow> length r \<le> length s" for s i r
    by (auto simp: number_fraction_def dest!: span_digits_length split: list.splits if_splits prod.splits)
  have exp: "number_exponent s = Some (i, r) \<Longrightarrow> length r \<le> length s" for s i r
    by (auto simp: number_exponent_def Let_def dest!: span_digits_length
        split: list.splits if_splits prod.splits)
  from assms show ?thesis
    by (auto simp: number_literal_def bind_eq_Some_conv Let_def dest!: int frac exp split: list.splits if_splits)
qed

section \<open>Values\<close>

definition skip_ws :: "string \<Rightarrow> string" where
  "skip_ws s = dropWhile (\<lambda>c. c \<in> {CHR '' '', CHR 0x09, CHR 0x0A, CHR 0x0D}) s"

definition max_nesting :: nat where
  "max_nesting = 10000"

datatype raw =
    RNull
  | RBool bool
  | RNum string
  | RStr string
  | RArr "raw list"
  | RObj "(string \<times> raw) list"

definition keyword :: "string \<Rightarrow> (raw \<times> string) option" where
  "keyword s =
     (if has_prefix s ''true'' then Some (RBool True, drop 4 s)
      else if has_prefix s ''false'' then Some (RBool False, drop 5 s)
      else if has_prefix s ''null'' then Some (RNull, drop 4 s)
      else None)"

definition number :: "string \<Rightarrow> (raw \<times> string) option" where
  "number s = map_option (\<lambda>(t, r). (RNum t, r)) (number_literal s)"

definition string_value :: "string \<Rightarrow> (string \<times> string) option" where
  "string_value s = map_option (\<lambda>(t, r). (valid_utf8 t, r)) (string_body s)"

text \<open>
  \<open>d\<close> counts the objects and arrays that are open. The elements and members are read with a
  separator or the closing bracket due next.
\<close>

fun parse_value :: "nat \<Rightarrow> nat \<Rightarrow> string \<Rightarrow> (raw \<times> string) option"
  and parse_items :: "nat \<Rightarrow> nat \<Rightarrow> string \<Rightarrow> (raw list \<times> string) option"
  and parse_members :: "nat \<Rightarrow> nat \<Rightarrow> string \<Rightarrow> ((string \<times> raw) list \<times> string) option"
where
  "parse_value 0 d s = None"
| "parse_value (Suc n) d s =
     (case skip_ws s of
        [] \<Rightarrow> None
      | c # r \<Rightarrow>
          if c = CHR ''{'' then
            (if max_nesting \<le> d then None
             else (case skip_ws r of
                     x # r' \<Rightarrow>
                       if x = CHR ''}'' then Some (RObj [], r')
                       else map_option (\<lambda>(kvs, t). (RObj kvs, t)) (parse_members n (Suc d) r)
                   | [] \<Rightarrow> None))
          else if c = CHR ''['' then
            (if max_nesting \<le> d then None
             else (case skip_ws r of
                     x # r' \<Rightarrow>
                       if x = CHR '']'' then Some (RArr [], r')
                       else map_option (\<lambda>(vs, t). (RArr vs, t)) (parse_items n (Suc d) r)
                   | [] \<Rightarrow> None))
          else if c = CHR 0x22 then map_option (\<lambda>(t, r'). (RStr t, r')) (string_value r)
          else if c = CHR ''-'' \<or> is_digit c then number (c # r)
          else keyword (c # r))"
| "parse_items 0 d s = None"
| "parse_items (Suc n) d s =
     (case parse_value n d s of
        None \<Rightarrow> None
      | Some (v, r) \<Rightarrow>
          (case skip_ws r of
             c # r' \<Rightarrow>
               if c = CHR '','' then map_option (\<lambda>(vs, t). (v # vs, t)) (parse_items n d r')
               else if c = CHR '']'' then Some ([v], r') else None
           | [] \<Rightarrow> None))"
| "parse_members 0 d s = None"
| "parse_members (Suc n) d s =
     (case skip_ws s of
        [] \<Rightarrow> None
      | q # r \<Rightarrow>
          if q \<noteq> CHR 0x22 then None
          else
            (case string_value r of
               None \<Rightarrow> None
             | Some (k, r1) \<Rightarrow>
                 (case skip_ws r1 of
                    [] \<Rightarrow> None
                  | c # r2 \<Rightarrow>
                      if c \<noteq> CHR '':'' then None
                      else
                        (case parse_value n d r2 of
                           None \<Rightarrow> None
                         | Some (v, r3) \<Rightarrow>
                             (case skip_ws r3 of
                                x # r4 \<Rightarrow>
                                  if x = CHR '','' then
                                    map_option (\<lambda>(kvs, t). ((k, v) # kvs, t)) (parse_members n d r4)
                                  else if x = CHR ''}'' then Some ([(k, v)], r4) else None
                              | [] \<Rightarrow> None)))))"

definition json_fuel :: "string \<Rightarrow> nat" where
  "json_fuel s = 2 * length s + 2"

definition parse_json :: "string \<Rightarrow> raw option" where
  "parse_json s =
     (case parse_value (json_fuel s) 0 s of
        None \<Rightarrow> None
      | Some (v, r) \<Rightarrow> if skip_ws r = [] then Some v else None)"

section \<open>Dynamically typed values\<close>

fun any_of_raw :: "raw \<Rightarrow> json option" where
  "any_of_raw RNull = Some JNull"
| "any_of_raw (RBool b) = Some (JBool b)"
| "any_of_raw (RNum t) = map_option JFloat (parse_float t)"
| "any_of_raw (RStr t) = Some (JStr t)"
| "any_of_raw (RArr vs) = map_option JArr (those (map any_of_raw vs))"
| "any_of_raw (RObj kvs) =
     map_option (\<lambda>ms. JObj (fold (\<lambda>(k, v). put k v) ms []))
       (those (map (\<lambda>(k, v). map_option (Pair k) (any_of_raw v)) kvs))"

text \<open>
  Into a \<open>map[string]any\<close>: an object, or null for the nil map; anything else is an error, and so
  is a number out of range in it.
\<close>

definition map_of_raw :: "raw \<Rightarrow> (string \<times> json) list option" where
  "map_of_raw v =
     (case any_of_raw v of Some (JObj kvs) \<Rightarrow> Some kvs | Some JNull \<Rightarrow> Some [] | _ \<Rightarrow> None)"

definition unmarshal_map :: "string \<Rightarrow> (string \<times> json) list option" where
  "unmarshal_map s = Option.bind (parse_json s) map_of_raw"

section \<open>The fuel is enough\<close>

lemma skip_ws_length: "skip_ws s = r \<Longrightarrow> length r \<le> length s"
  using length_dropWhile_le by (auto simp: skip_ws_def)

lemma keyword_shorter: "keyword s = Some (v, r) \<Longrightarrow> length r < length s"
  by (auto simp: keyword_def has_prefix_iff split: if_splits)

lemma number_shorter: "number s = Some (v, r) \<Longrightarrow> length r < length s"
  by (auto simp: number_def dest: number_literal_shorter split: option.splits)

lemma string_value_shorter: "string_value s = Some (t, r) \<Longrightarrow> length r < length s"
  by (auto simp: string_value_def dest: string_body_shorter)

lemmas shorter = keyword_shorter number_shorter string_value_shorter skip_ws_length

lemma parse_shorter:
  "(\<forall>d s v r. parse_value n d s = Some (v, r) \<longrightarrow> length r < length s) \<and>
   (\<forall>d s v r. parse_items n d s = Some (v, r) \<longrightarrow> length r < length s) \<and>
   (\<forall>d s v r. parse_members n d s = Some (v, r) \<longrightarrow> length r < length s)"
proof (induction n)
  case (Suc n)
  have v: "parse_value n d s = Some (v, r) \<Longrightarrow> length r < length s"
    and i: "parse_items n d s = Some (vs, r) \<Longrightarrow> length r < length s"
    and m: "parse_members n d s = Some (kvs, r) \<Longrightarrow> length r < length s" for d s v vs kvs r
    using Suc by blast+
  have "length r < length s" if "parse_value (Suc n) d s = Some (v, r)" for d s v r
    using that
    by (auto dest!: i m shorter split: list.splits if_splits)
  moreover have "length r < length s" if "parse_items (Suc n) d s = Some (v, r)" for d s v r
    using that by (auto dest!: v i shorter split: list.splits if_splits option.splits)
  moreover have "length r < length s" if "parse_members (Suc n) d s = Some (v, r)" for d s v r
    using that by (auto dest!: v m shorter split: list.splits if_splits option.splits)
  ultimately show ?case by blast
qed simp

text \<open>One more unit of fuel below does not matter when it does not for the shorter texts.\<close>

lemma fuel_value:
  assumes "\<And>r. length r < length s \<Longrightarrow> parse_items m (Suc d) r = parse_items n (Suc d) r"
    and "\<And>r. length r < length s \<Longrightarrow> parse_members m (Suc d) r = parse_members n (Suc d) r"
  shows "parse_value (Suc m) d s = parse_value (Suc n) d s"
proof (cases "skip_ws s")
  case (Cons c r)
  then have "length r < length s" using skip_ws_length [OF Cons] by simp
  with assms [of r] show ?thesis by (simp only: Cons parse_value.simps list.case)
qed simp

lemma fuel_items:
  assumes v: "parse_value m d s = parse_value n d s"
    and i: "\<And>r. length r < length s \<Longrightarrow> parse_items m d r = parse_items n d r"
  shows "parse_items (Suc m) d s = parse_items (Suc n) d s"
proof (cases "parse_value n d s")
  case (Some p)
  obtain x r where p: "p = (x, r)" by (cases p)
  have r: "length r < length s" using parse_shorter [of n] Some p by blast
  show ?thesis
  proof (cases "skip_ws r")
    case (Cons c r')
    then have "parse_items m d r' = parse_items n d r'" using i r skip_ws_length [OF Cons] by simp
    then show ?thesis by (simp only: parse_items.simps v Some p Cons option.case prod.case list.case)
  qed (simp add: v Some p)
qed (simp add: v)

lemma fuel_members:
  assumes pv: "\<And>r. length r < length s \<Longrightarrow> parse_value m d r = parse_value n d r"
    and pk: "\<And>r. length r < length s \<Longrightarrow> parse_members m d r = parse_members n d r"
  shows "parse_members (Suc m) d s = parse_members (Suc n) d s"
proof (cases "skip_ws s")
  case s: (Cons q r)
  show ?thesis
  proof (cases "string_value r")
    case (Some p1)
    obtain key r1 where p1: "p1 = (key, r1)" by (cases p1)
    show ?thesis
    proof (cases "skip_ws r1")
      case (Cons c r2)
      have l2: "length r2 < length s"
        using skip_ws_length [OF s] skip_ws_length [OF Cons] string_value_shorter [of r key r1] Some p1
        by simp
      show ?thesis
      proof (cases "parse_value n d r2")
        case v: (Some p3)
        obtain x r3 where p3: "p3 = (x, r3)" by (cases p3)
        have l3: "length r3 < length s"
          using parse_shorter [of n] v p3 l2 less_trans by blast
        show ?thesis
        proof (cases "skip_ws r3")
          case r3: (Cons y r4)
          have "length r4 < length s" using skip_ws_length [OF r3] l3 by simp
          then have "parse_members m d r4 = parse_members n d r4"
            by (rule pk)
          then show ?thesis
            by (simp only: parse_members.simps s Some p1 Cons pv [OF l2] v p3 r3
                option.case prod.case list.case)
        qed (simp add: s Some p1 Cons pv [OF l2] v p3)
      qed (simp add: s Some p1 Cons pv [OF l2])
    qed (simp add: s Some p1)
  qed (simp add: s)
qed simp

lemma parse_fuel:
  "(\<forall>m d s. 2 * length s + 1 \<le> n \<longrightarrow> n \<le> m \<longrightarrow> parse_value m d s = parse_value n d s) \<and>
   (\<forall>m d s. 2 * length s + 2 \<le> n \<longrightarrow> n \<le> m \<longrightarrow> parse_items m d s = parse_items n d s) \<and>
   (\<forall>m d s. 2 * length s + 2 \<le> n \<longrightarrow> n \<le> m \<longrightarrow> parse_members m d s = parse_members n d s)"
proof (induction n)
  case (Suc n)
  have v: "parse_value m d s = parse_value n d s" if "2 * length s + 1 \<le> n" "n \<le> m" for m d s
    using Suc that by blast
  have i: "parse_items m d s = parse_items n d s" and k: "parse_members m d s = parse_members n d s"
    if "2 * length s + 2 \<le> n" "n \<le> m" for m d s
    using Suc that by blast+
  have step: "parse_value (Suc m) d s = parse_value (Suc n) d s" if "2 * length s \<le> n" "n \<le> m" for m d s
    by (intro fuel_value i k) (use that in simp_all)
  have steps: "parse_items (Suc m) d s = parse_items (Suc n) d s \<and>
      parse_members (Suc m) d s = parse_members (Suc n) d s"
    if "2 * length s + 1 \<le> n" "n \<le> m" for m d s
    by (intro conjI fuel_items fuel_members v i k) (use that in simp_all)
  have "parse_value m d s = parse_value (Suc n) d s" if "2 * length s + 1 \<le> Suc n" "Suc n \<le> m" for m d s
  proof -
    from that(2) obtain m' where "m = Suc m'" by (cases m) auto
    with step [of s m' d] that show ?thesis by (simp del: parse_value.simps)
  qed
  moreover have "parse_items m d s = parse_items (Suc n) d s \<and> parse_members m d s = parse_members (Suc n) d s"
    if "2 * length s + 2 \<le> Suc n" "Suc n \<le> m" for m d s
  proof -
    from that(2) obtain m' where "m = Suc m'" by (cases m) auto
    with steps [of s m' d] that show ?thesis by (simp del: parse_items.simps parse_members.simps)
  qed
  ultimately show ?case by blast
qed simp

text \<open>
  The parser has enough fuel: more of it never changes the result, so a text that is
  rejected is rejected by the grammar and not for want of fuel.
\<close>

lemma json_fuel_enough:
  "parse_value (json_fuel s + k) d s = parse_value (json_fuel s) d s"
  by (rule parse_fuel [of "json_fuel s", THEN conjunct1, rule_format]) (simp_all add: json_fuel_def)

end
