(* ===== verification/Sessions.thy ===== *)
theory Sessions
  imports Events Json_Parse
begin

text \<open>
  The life of a session: \<open>Connect\<close>, \<open>Disconnect\<close>, \<open>Reload\<close>, \<open>Status\<close>, \<open>ResolveDest\<close> and
  \<open>RestoreSavedSessions\<close> with the presence refresher and the overrides from Redis
  (internal/provider/client.go, redis_config.go), the pairing codes (qr.go), the ring-only call
  (fakecall.go), and the handler of the events of a client (\<open>registerEventHandlers\<close> of
  events.go). A goroutine is an entry of \<open>goroutines\<close> (or of \<open>refreshers\<close>) when it is started and
  runs by its own operation; the step relation over all of them is in the theory \<open>Process\<close>.
\<close>

section \<open>Paths\<close>

text \<open>
  \<open>filepath.Join\<close> on Unix: the elements that are not empty, joined by slashes, and cleaned of
  empty and single-dot parts and of the parts that a double-dot part leaves.
\<close>

fun clean_parts :: "bool \<Rightarrow> string list \<Rightarrow> string list \<Rightarrow> string list" where
  "clean_parts rooted acc [] = rev acc"
| "clean_parts rooted acc (p # ps) =
     (if p = [] \<or> p = ''.'' then clean_parts rooted acc ps
      else if p = ''..'' then
        (case acc of
           [] \<Rightarrow> clean_parts rooted (if rooted then [] else [p]) ps
         | q # qs \<Rightarrow>
             if q = ''..'' then clean_parts rooted (p # acc) ps else clean_parts rooted qs ps)
      else clean_parts rooted (p # acc) ps)"

definition clean_path :: "string \<Rightarrow> string" where
  "clean_path p =
     (let rooted = has_prefix p ''/'';
          out = (if rooted then ''/'' else []) @
            join ''/'' (clean_parts rooted [] (split_on (CHR ''/'') p)) in
      if out = [] then ''.'' else out)"

definition join_path :: "string \<Rightarrow> string \<Rightarrow> string" where
  "join_path a b =
     (let es = filter (\<lambda>e. e \<noteq> []) [a, b] in if es = [] then [] else clean_path (join ''/'' es))"

definition session_path :: "string \<Rightarrow> sys \<Rightarrow> string" where
  "session_path sid s = join_path (m_session_store s) sid"

definition session_dsn :: "string \<Rightarrow> sys \<Rightarrow> string" where
  "session_dsn sid s =
     ''file:'' @ join_path (session_path sid s) ''session.db'' @
     ''?cache=shared&_pragma=foreign_keys(1)&_pragma=busy_timeout(10000)&_pragma=journal_mode(WAL)&_pragma=synchronous(NORMAL)''"

section \<open>The configuration in Redis\<close>

record uno_config =
  uc_reject_calls :: string
  uc_read_on_receipt :: "bool option"
  uc_ignore_broadcast_statuses :: "bool option"
  uc_ignore_newsletter_messages :: "bool option"
  uc_always_online :: "bool option"
  uc_always_online_every_seconds :: "int option"

definition as_bool :: "json \<Rightarrow> bool option" where
  "as_bool v =
     (case v of
        JBool b \<Rightarrow> Some b
      | JStr t \<Rightarrow>
          (let s = to_lower (trim_space t) in
           if s = ''true'' \<or> s = ''1'' then Some True
           else if s = ''false'' \<or> s = ''0'' then Some False else None)
      | JFloat w \<Rightarrow> Some (w \<noteq> Finite 0)
      | _ \<Rightarrow> None)"

definition as_int :: "json \<Rightarrow> int option" where
  "as_int v =
     (case v of
        JFloat (Finite r) \<Rightarrow> Some (int64_of (trunc r))
      | JFloat _ \<Rightarrow> Some (- (2 ^ 63))
      | JInt n \<Rightarrow> Some n
      | JStr t \<Rightarrow> (let s = trim_space t in if s = [] then None else atoi s)
      | _ \<Rightarrow> None)"

definition uno_config_of :: "(string \<times> json) list \<Rightarrow> uno_config" where
  "uno_config_of m =
     \<lparr>uc_reject_calls = (case map_of m ''rejectCalls'' of Some (JStr t) \<Rightarrow> t | _ \<Rightarrow> []),
      uc_read_on_receipt = Option.bind (map_of m ''readOnReceipt'') as_bool,
      uc_ignore_broadcast_statuses = Option.bind (map_of m ''ignoreBroadcastStatuses'') as_bool,
      uc_ignore_newsletter_messages = Option.bind (map_of m ''ignoreNewsletterMessages'') as_bool,
      uc_always_online = Option.bind (map_of m ''alwaysOnline'') as_bool,
      uc_always_online_every_seconds =
        Option.bind (map_of m ''alwaysOnlineIntervalSeconds'') as_int\<rparr>"

definition redis_get :: "env \<Rightarrow> string \<Rightarrow> string \<Rightarrow> sys \<Rightarrow> (string + string) \<times> sys" where
  "redis_get E url k s = (env_redis_get E (tick s) url k, log_effect (ERedisGet url k) s)"

definition fetch_uno_config :: "env \<Rightarrow> string \<Rightarrow> string \<Rightarrow> sys \<Rightarrow> uno_config option \<times> sys" where
  "fetch_uno_config E url phone s =
     (if trim_space url = [] \<or> trim_space phone = [] then (None, s)
      else if env_redis_url_error E url \<noteq> None then (None, s)
      else
        (case redis_get E url (''unoapi-config:'' @ phone) s of
           (Inl e, s1) \<Rightarrow> (None, s1)
         | (Inr t, s1) \<Rightarrow>
             (if trim_space t = [] then None else map_option uno_config_of (unmarshal_map t), s1)))"

text \<open>
  The overrides that a configuration gives a session: each one only when its variable is not in
  the environment and the configuration has a value. The period is a \<open>time.Duration\<close>, 64 bits of nanoseconds.
\<close>

definition is_set :: "env \<Rightarrow> string \<Rightarrow> bool" where
  "is_set E name = (env_lookup E name \<noteq> None)"

definition seconds :: "int \<Rightarrow> int" where
  "seconds n = sint (word_of_int (n * nano) :: 64 word)"

definition unless_set :: "env \<Rightarrow> string \<Rightarrow> 'a option \<Rightarrow> 'a option \<Rightarrow> 'a option" where
  "unless_set E name new old =
     (if is_set E name then old else (case new of Some v \<Rightarrow> Some v | None \<Rightarrow> old))"

definition override_with :: "env \<Rightarrow> uno_config \<Rightarrow> session_overrides \<Rightarrow> session_overrides" where
  "override_with E cfg ov =
     (let reject = trim_space (uc_reject_calls cfg) in
      \<lparr>ov_reject_calls = unless_set E ''REJECT_CALLS'' (Some (reject \<noteq> [])) (ov_reject_calls ov),
       ov_reject_msg = unless_set E ''REJECT_CALLS_MESSAGE''
         (if reject \<noteq> [] then Some reject else None) (ov_reject_msg ov),
       ov_auto_mark_read = unless_set E ''MARK_READ_ON_MESSAGE'' (uc_read_on_receipt cfg)
         (ov_auto_mark_read ov),
       ov_ignore_status_broadcast = unless_set E ''IGNORE_STATUS_BROADCAST''
         (uc_ignore_broadcast_statuses cfg) (ov_ignore_status_broadcast ov),
       ov_ignore_newsletters = unless_set E ''IGNORE_NEWSLETTERS''
         (uc_ignore_newsletter_messages cfg) (ov_ignore_newsletters ov),
       ov_always_online = unless_set E ''ALWAYS_ONLINE'' (uc_always_online cfg) (ov_always_online ov),
       ov_always_online_every = unless_set E ''ALWAYS_ONLINE''
         (case uc_always_online_every_seconds cfg of
            Some n \<Rightarrow> if n > 0 then Some (seconds n) else None
          | None \<Rightarrow> None) (ov_always_online_every ov)\<rparr>)"

definition load_session_overrides :: "env \<Rightarrow> string \<Rightarrow> sys \<Rightarrow> sys" where
  "load_session_overrides E sid s =
     (if trim_space (m_redis_url s) = [] then s
      else
        (let phone = digits_only sid in
         if phone = [] then s
         else
           (case fetch_uno_config E (m_redis_url s) phone s of
              (None, s1) \<Rightarrow> s1
            | (Some cfg, s1) \<Rightarrow>
                set_overrides sid (override_with E cfg
                  (case m_overrides s1 sid of Some ov \<Rightarrow> ov | None \<Rightarrow> no_overrides)) s1)))"

section \<open>Connecting\<close>

definition spawn :: "goroutine \<Rightarrow> sys \<Rightarrow> sys" where
  "spawn g s = s\<lparr>goroutines := goroutines s @ [g]\<rparr>"

definition mkdir_all :: "env \<Rightarrow> string \<Rightarrow> sys \<Rightarrow> string option \<times> sys" where
  "mkdir_all E p s = (env_mkdir_all E (tick s) p, log_effect (EMkdir p) s)"

definition open_store :: "env \<Rightarrow> string \<Rightarrow> sys \<Rightarrow> string option \<times> sys" where
  "open_store E dsn s = (env_open_store E (tick s) dsn, log_effect (EOpenStore dsn) s)"

definition first_device :: "env \<Rightarrow> string \<Rightarrow> sys \<Rightarrow> (string + jid option) \<times> sys" where
  "first_device E dsn s = (env_first_device E (tick s) dsn, s\<lparr>tick := Suc (tick s)\<rparr>)"

definition new_client :: "env \<Rightarrow> sys \<Rightarrow> client \<times> sys" where
  "new_client E s = (env_new_client E (tick s), s\<lparr>tick := Suc (tick s)\<rparr>)"

definition qr_channel :: "env \<Rightarrow> client \<Rightarrow> sys \<Rightarrow> string option \<times> sys" where
  "qr_channel E c s = (env_qr_channel E (tick s) c, s\<lparr>tick := Suc (tick s)\<rparr>)"

definition register_event_handlers :: "client \<Rightarrow> string \<Rightarrow> sys \<Rightarrow> sys" where
  "register_event_handlers c sid s = s\<lparr>handlers := handlers s @ [(c, sid)]\<rparr>"

definition new_entry :: "client \<Rightarrow> string \<Rightarrow> sys \<Rightarrow> client_entry" where
  "new_entry c sid s =
     \<lparr>ce_client = Some c, ce_db = session_dsn sid s, ce_keys_db = None, ce_log = ''Client'', ce_session = sid,
      ce_webhook = m_webhook_base s, ce_presence_cancel = None\<rparr>"

text \<open>The common end of the two branches of \<open>Connect\<close>.\<close>

definition start_client :: "env \<Rightarrow> string \<Rightarrow> client \<Rightarrow> sys \<Rightarrow> sys" where
  "start_client E sid c s =
     (let s1 = register_event_handlers c sid (load_session_overrides E sid s) in
      spawn (GConnect sid c) (s1\<lparr>m_clients := (m_clients s1)(sid \<mapsto> new_entry c sid s1)\<rparr>))"

definition connect :: "env \<Rightarrow> string \<Rightarrow> sys \<Rightarrow> (string, client) outcome \<times> sys" where
  "connect E sid s =
     (case get_client sid s of
        Some c \<Rightarrow> (Ok c, s)
      | None \<Rightarrow>
          (case mkdir_all E (session_path sid s) (status_set sid ''connecting'' s) of
             (Some e, s1) \<Rightarrow> (Err (''mkdir session dir: '' @ e), s1)
           | (None, s1) \<Rightarrow>
               (case open_store E (session_dsn sid s) s1 of
                  (Some e, s2) \<Rightarrow> (Err (''sqlstore.New: '' @ e), s2)
                | (None, s2) \<Rightarrow>
                    (case first_device E (session_dsn sid s) s2 of
                       (Inl e, s3) \<Rightarrow> (Err (''get first device: '' @ e), s3)
                     | (Inr device, s3) \<Rightarrow>
                         (case new_client E s3 of
                            (c, s4) \<Rightarrow>
                              if device \<noteq> None then (Ok c, start_client E sid c s4)
                              else
                                (case qr_channel E c s4 of
                                   (Some e, s5) \<Rightarrow> (Err (''get QR channel: '' @ e), s5)
                                 | (None, s5) \<Rightarrow>
                                     (Ok c, start_client E sid c (spawn (GWatchQr sid c) s5))))))))"

text \<open>The goroutine that \<open>Connect\<close> starts.\<close>

definition wa_connect :: "env \<Rightarrow> client \<Rightarrow> sys \<Rightarrow> string option \<times> sys" where
  "wa_connect E c s = (env_connect E (tick s) c, log_effect (EConnect c) s)"

definition run_connect :: "env \<Rightarrow> string \<Rightarrow> client \<Rightarrow> sys \<Rightarrow> sys" where
  "run_connect E sid c s =
     (case wa_connect E c s of
        (Some e, s1) \<Rightarrow> status_set sid ''offline'' s1
      | (None, s1) \<Rightarrow> s1)"

definition disconnect :: "string \<Rightarrow> sys \<Rightarrow> sys" where
  "disconnect sid s =
     (let s1 = (case m_clients s sid of
                  None \<Rightarrow> s
                | Some ent \<Rightarrow>
                    (let s' = (case ce_client ent of Some c \<Rightarrow> log_effect (EDisconnect c) s | None \<Rightarrow> s) in
                     s'\<lparr>m_clients := (m_clients s')(sid := None)\<rparr>)) in
      status_set sid ''disconnected'' s1)"

definition reload :: "env \<Rightarrow> string \<Rightarrow> sys \<Rightarrow> (string, unit) outcome \<times> sys" where
  "reload E sid s =
     (if m_clients s sid = None then (Err (''session '' @ sid @ '' not found''), s)
      else
        (case connect E sid (disconnect sid (status_set sid ''connecting'' s)) of
           (r, s1) \<Rightarrow> (map_outcome id (\<lambda>_. ()) r, s1)))"

section \<open>Always online\<close>

text \<open>
  Starting a refresher cancels the one of the entry first. The goroutine is
  \<open>refresher_begin\<close>, and then \<open>refresher_tick\<close> and \<open>refresher_done\<close> as its \<open>select\<close> takes the
  one branch or the other; a period that is not positive makes \<open>time.NewTicker\<close> panic.
\<close>

definition cancel_refresher :: "nat option \<Rightarrow> sys \<Rightarrow> sys" where
  "cancel_refresher c s =
     (case c of
        None \<Rightarrow> s
      | Some i \<Rightarrow> s\<lparr>refreshers := (refreshers s)[i := (refreshers s ! i)\<lparr>rf_cancelled := True\<rparr>]\<rparr>)"

definition set_presence_cancel :: "string \<Rightarrow> client_entry \<Rightarrow> nat option \<Rightarrow> sys \<Rightarrow> sys" where
  "set_presence_cancel sid ent c s =
     s\<lparr>m_clients := (m_clients s)(sid \<mapsto> ent\<lparr>ce_presence_cancel := c\<rparr>)\<rparr>"

definition maybe_start_always_online :: "string \<Rightarrow> client \<Rightarrow> sys \<Rightarrow> sys" where
  "maybe_start_always_online sid c s =
     (if \<not> should_be_online sid s then s
      else
        (case m_clients s sid of
           None \<Rightarrow> s
         | Some ent \<Rightarrow>
             if ce_client ent = None then s
             else
               (let s1 = cancel_refresher (ce_presence_cancel ent) s;
                    i = length (refreshers s1);
                    s2 = s1\<lparr>refreshers := refreshers s1 @
                      [\<lparr>rf_client = c, rf_interval = online_every sid s, rf_cancelled = False,
                        rf_phase = NotStarted\<rparr>]\<rparr> in
                set_presence_cancel sid ent (Some i) s2)))"

definition stop_always_online :: "string \<Rightarrow> sys \<Rightarrow> sys" where
  "stop_always_online sid s =
     (case m_clients s sid of
        None \<Rightarrow> s
      | Some ent \<Rightarrow>
          (case ce_presence_cancel ent of
             None \<Rightarrow> s
           | Some i \<Rightarrow> set_presence_cancel sid ent None (cancel_refresher (Some i) s)))"

definition set_phase :: "nat \<Rightarrow> refresher_phase \<Rightarrow> sys \<Rightarrow> sys" where
  "set_phase i ph s = s\<lparr>refreshers := (refreshers s)[i := (refreshers s ! i)\<lparr>rf_phase := ph\<rparr>]\<rparr>"

definition refresher_begin :: "nat \<Rightarrow> sys \<Rightarrow> (string, unit) outcome \<times> sys" where
  "refresher_begin i s =
     (if rf_interval (refreshers s ! i) \<le> 0
      then (Panic ''non-positive interval for NewTicker'', s)
      else (Ok (), set_phase i Running (log_effect (EPresence (rf_client (refreshers s ! i))) s)))"

definition is_connected :: "env \<Rightarrow> client \<Rightarrow> sys \<Rightarrow> bool \<times> sys" where
  "is_connected E c s = (env_is_connected E (tick s) c, s\<lparr>tick := Suc (tick s)\<rparr>)"

definition refresher_tick :: "env \<Rightarrow> nat \<Rightarrow> sys \<Rightarrow> sys" where
  "refresher_tick E i s =
     (let c = rf_client (refreshers s ! i) in
      case is_connected E c s of
        (True, s1) \<Rightarrow> log_effect (EPresence c) s1
      | (False, s1) \<Rightarrow> s1)"

definition refresher_done :: "nat \<Rightarrow> sys \<Rightarrow> sys" where
  "refresher_done i s = set_phase i Ended s"

section \<open>Status, destinations and saved sessions\<close>

record session_status =
  ss_session_id :: string
  ss_connected :: bool
  ss_logged_in :: bool
  ss_device_jid :: string

definition is_logged_in :: "env \<Rightarrow> client \<Rightarrow> sys \<Rightarrow> bool \<times> sys" where
  "is_logged_in E c s = (env_is_logged_in E (tick s) c, s\<lparr>tick := Suc (tick s)\<rparr>)"

definition status :: "env \<Rightarrow> string \<Rightarrow> sys \<Rightarrow> (string, session_status) outcome \<times> sys" where
  "status E sid s =
     (case get_client sid s of
        None \<Rightarrow> (Err (''session '' @ sid @ '' not connected''), s)
      | Some c \<Rightarrow>
          (case is_connected E c s of
             (up, s1) \<Rightarrow>
               (case is_logged_in E c s1 of
                  (logged, s2) \<Rightarrow>
                    (Ok \<lparr>ss_session_id = sid, ss_connected = up, ss_logged_in = logged,
                         ss_device_jid =
                           (case env_store_id E (tick s2) c of
                              Some j \<Rightarrow> jid_string (lib_jid E) j | None \<Rightarrow> [])\<rparr>,
                     s2\<lparr>tick := Suc (tick s2)\<rparr>))))"

record resolve_result =
  rr_input :: string
  rr_normalized_pn :: string
  rr_pn_jid :: string
  rr_dest_jid :: string

definition resolve_dest :: "env \<Rightarrow> string \<Rightarrow> string \<Rightarrow> sys \<Rightarrow> (string, resolve_result) outcome" where
  "resolve_dest E sid to s =
     (case get_client sid s of
        None \<Rightarrow> Err ''session not connected''
      | Some c \<Rightarrow>
          (let digits = phone_number_to_jid_digits (trim_space to);
               pn = jid_string (lib_jid E) (new_jid (lib_jid E) digits default_user_server) in
           Ok \<lparr>rr_input = to, rr_normalized_pn = digits, rr_pn_jid = pn, rr_dest_jid = pn\<rparr>))"

definition stat :: "env \<Rightarrow> string \<Rightarrow> sys \<Rightarrow> string option \<times> sys" where
  "stat E p s = (env_stat E (tick s) p, s\<lparr>tick := Suc (tick s)\<rparr>)"

fun restore_entries :: "env \<Rightarrow> (string \<times> bool) list \<Rightarrow> sys \<Rightarrow> string list \<times> sys" where
  "restore_entries E [] s = ([], s)"
| "restore_entries E ((name, is_dir) # es) s =
     (if \<not> is_dir then restore_entries E es s
      else
        (case stat E (join_path (session_path name s) ''session.db'') s of
           (Some e, s1) \<Rightarrow> restore_entries E es s1
         | (None, s1) \<Rightarrow>
             (case restore_entries E es (spawn (GRestore name) s1) of
                (names, s2) \<Rightarrow> (name # names, s2))))"

definition restore_saved_sessions :: "env \<Rightarrow> sys \<Rightarrow> (string, string list) outcome \<times> sys" where
  "restore_saved_sessions E s =
     (case env_read_dir E (tick s) (m_session_store s) of
        Inl e \<Rightarrow> (Err (''read session store: '' @ e), s\<lparr>tick := Suc (tick s)\<rparr>)
      | Inr es \<Rightarrow> map_prod Ok id (restore_entries E es (s\<lparr>tick := Suc (tick s)\<rparr>)))"

section \<open>Pairing codes\<close>

record qr_item =
  qi_event :: string
  qi_code :: string

definition qr_item_received :: "env \<Rightarrow> string \<Rightarrow> qr_item \<Rightarrow> sys \<Rightarrow> sys" where
  "qr_item_received E sid item s =
     (if qi_event item = ''code'' then
        (case time_now E s of
           (now, s1) \<Rightarrow>
             s1\<lparr>qr_by_session := (qr_by_session s1)(sid \<mapsto>
               \<lparr>qr_png_base64 = base64 (lib_qr_png E (qi_code item)), qr_updated_at = now\<rparr>)\<rparr>)
      else if qi_event item = ''success'' \<or> qi_event item = ''timeout'' then
        (let s1 = s\<lparr>qr_by_session := (qr_by_session s)(sid := None)\<rparr> in
         if qi_event item = ''success'' then status_set sid ''online'' s1 else s1)
      else s)"

definition get_qr :: "string \<Rightarrow> sys \<Rightarrow> (string, string) outcome" where
  "get_qr sid s =
     (case qr_by_session s sid of
        None \<Rightarrow> Err ''qr not ready or session not connected''
      | Some q \<Rightarrow>
          if qr_png_base64 q = [] then Err ''qr not ready or session not connected''
          else Ok (qr_png_base64 q))"

section \<open>The ring-only call\<close>

definition message_id :: "env \<Rightarrow> client \<Rightarrow> sys \<Rightarrow> string \<times> sys" where
  "message_id E c s = (env_message_id E (tick s) c, s\<lparr>tick := Suc (tick s)\<rparr>)"

definition send_node :: "env \<Rightarrow> client \<Rightarrow> effect \<Rightarrow> sys \<Rightarrow> string option \<times> sys" where
  "send_node E c node s = (env_send_node E (tick s) c, log_effect node s)"

text \<open>The time a call rings, in milliseconds: fifteen seconds when none is given.\<close>

definition ring_time :: "int \<Rightarrow> int" where
  "ring_time ms = (if ms \<le> 0 then 15000 else ms)"

definition ring :: "env \<Rightarrow> client \<Rightarrow> jid \<Rightarrow> int \<Rightarrow> sys \<Rightarrow> (string, string) outcome \<times> sys" where
  "ring E c dest ms s =
     (let own = lib_to_non_ad E (env_own_id E (tick s) c) in
      case message_id E c (s\<lparr>tick := Suc (tick s)\<rparr>) of
        (stanza, s1) \<Rightarrow>
          (case message_id E c s1 of
             (call, s2) \<Rightarrow>
               (case send_node E c (ECallOffer c stanza call own dest) s2 of
                  (Some e, s3) \<Rightarrow> (Err (''send offer failed: '' @ e), s3)
                | (None, s3) \<Rightarrow> (Ok call, spawn (GEndCall c call own dest (ring_time ms)) s3))))"

definition fake_call :: "env \<Rightarrow> string \<Rightarrow> string \<Rightarrow> int \<Rightarrow> sys \<Rightarrow> (string, string) outcome \<times> sys" where
  "fake_call E sid to ms s =
     (case must_have sid s of
        Err e \<Rightarrow> (Err e, s)
      | Panic r \<Rightarrow> (Panic r, s)
      | Ok ent \<Rightarrow>
          (case ce_client ent of
             None \<Rightarrow> (Err ''session not connected'', s)
           | Some c \<Rightarrow>
               (case is_connected E c s of
                  (False, s1) \<Rightarrow> (Err ''session not connected'', s1)
                | (True, s1) \<Rightarrow>
                    (case is_logged_in E c s1 of
                       (False, s2) \<Rightarrow> (Err ''session not connected'', s2)
                     | (True, s2) \<Rightarrow>
                         (case resolve_dest E sid to s2 of
                            Err e \<Rightarrow> (Err e, s2)
                          | Panic r \<Rightarrow> (Panic r, s2)
                          | Ok res \<Rightarrow>
                              (case parse_jid (lib_jid E) (rr_dest_jid res) of
                                 (j, Some e) \<Rightarrow> (Err (''invalid destination jid: '' @ e), s2)
                               | (j, None) \<Rightarrow> ring E c (lib_to_non_ad E j) ms s2))))))"

text \<open>The goroutine that ends the call; the error of sending is dropped.\<close>

definition run_end_call :: "env \<Rightarrow> client \<Rightarrow> string \<Rightarrow> jid \<Rightarrow> jid \<Rightarrow> sys \<Rightarrow> sys" where
  "run_end_call E c call own dest s =
     (case message_id E c s of
        (stanza, s1) \<Rightarrow> snd (send_node E c (ECallTerminate c stanza call own dest) s1))"

section \<open>Events\<close>

datatype wa_event =
    EvConnected
  | EvDisconnected
  | EvLoggedOut
  | EvStreamReplaced
  | EvCallOffer jid string
  | EvCallOfferNotice jid string
  | EvCallAccept jid string
  | EvCallTerminate string string
  | EvUnknownCall
  | EvAppStateSyncComplete string
  | EvPushNameSetting
  | EvMessage message_info "wa_message option"
  | EvReceipt receipt_event
  | EvOther

definition send_presence :: "client \<Rightarrow> sys \<Rightarrow> sys" where
  "send_presence c s = log_effect (EPresence c) s"

definition handle_message :: "env \<Rightarrow> string \<Rightarrow> client \<Rightarrow> message_info \<Rightarrow> wa_message option \<Rightarrow> sys \<Rightarrow>
    (string, unit) outcome \<times> sys" where
  "handle_message E sid c info m s =
     (case emit_cloud_message E sid c info m s of
        (Panic r, s1) \<Rightarrow> (Panic r, s1)
      | (_, s1) \<Rightarrow> (Ok (), if get_auto_mark_read sid s1 then spawn (GMarkRead sid c info) s1 else s1))"

fun handle_event :: "env \<Rightarrow> string \<Rightarrow> client \<Rightarrow> wa_event \<Rightarrow> sys \<Rightarrow> (string, unit) outcome \<times> sys" where
  "handle_event E sid c EvConnected s =
     (Ok (), maybe_start_always_online sid c (status_set sid ''online'' s))"
| "handle_event E sid c EvDisconnected s = (Ok (), stop_always_online sid (status_set sid ''offline'' s))"
| "handle_event E sid c EvLoggedOut s = (Ok (), stop_always_online sid (status_set sid ''disconnected'' s))"
| "handle_event E sid c EvStreamReplaced s =
     (Ok (), stop_always_online sid (status_set sid ''restart_required'' s))"
| "handle_event E sid c (EvCallOffer creator call) s = (Ok (), handle_call_rejection E sid c creator call s)"
| "handle_event E sid c (EvCallOfferNotice creator call) s =
     (Ok (), handle_call_rejection E sid c creator call s)"
| "handle_event E sid c (EvAppStateSyncComplete name) s =
     (Ok (), if name = ''critical_block'' \<or> name = ''regular_high'' then send_presence c s else s)"
| "handle_event E sid c EvPushNameSetting s = (Ok (), send_presence c s)"
| "handle_event E sid c (EvMessage info m) s = handle_message E sid c info m s"
| "handle_event E sid c (EvReceipt ev) s =
     (case emit_cloud_receipt E sid ev s of
        (Panic r, s1) \<Rightarrow> (Panic r, s1)
      | (_, s1) \<Rightarrow> (Ok (), s1))"
| "handle_event E sid c ev s = (Ok (), s)"

section \<open>Ring-only calls end\<close>

text \<open>
  C23: A ring-only call is ended: when it is accepted with an id, exactly one offer with that id
  has gone out, and the goroutine that it leaves behind sends, whenever it runs, one terminate
  with the same id from the same number to the same destination.
\<close>

theorem fake_call_is_ended:
  assumes "fake_call E sid to ms s = (Ok call, s')"
  shows "\<exists>c stanza own dest. get_client sid s = Some c \<and>
    effects s' = effects s @ [ECallOffer c stanza call own dest] \<and>
    goroutines s' = goroutines s @ [GEndCall c call own dest (ring_time ms)] \<and>
    (\<forall>t. \<exists>stanza'. effects (run_end_call E c call own dest t) =
       effects t @ [ECallTerminate c stanza' call own dest])"
proof -
  have "\<exists>stanza'. effects (run_end_call E c call own dest t) = effects t @ [ECallTerminate c stanza' call own dest]"
    for c call own dest t
    by (auto simp: run_end_call_def message_id_def send_node_def log_effect_def)
  with assms show ?thesis
    by (auto simp: fake_call_def must_have_def ring_def Let_def message_id_def send_node_def log_effect_def
        spawn_def get_client_def is_connected_def is_logged_in_def
        split: option.splits prod.splits outcome.splits bool.splits if_splits)
qed


text \<open>A logged-in session with an open connection.\<close>

definition calling_env :: env where
  "calling_env = silent_env\<lparr>env_is_connected := (\<lambda>t c. True), env_is_logged_in := (\<lambda>t c. True),
     env_message_id := (\<lambda>t c. ''3EB0'' @ nat_dec t), env_send_node := (\<lambda>t c. None)\<rparr>"


definition calling_sys :: sys where
  "calling_sys = idle_sys\<lparr>m_clients := [''5511'' \<mapsto>
     \<lparr>ce_client = Some 7, ce_db = ''session.db'', ce_keys_db = None, ce_log = ''Client'', ce_session = ''5511'',
       ce_webhook = [], ce_presence_cancel = None\<rparr>]\<rparr>"

lemma calling_accepted: "fst (fake_call calling_env ''5511'' ''5511988887777'' 0 calling_sys) = Ok ''3EB04''"
  unfolding calling_env_def calling_sys_def silent_env_def idle_sys_def new_client_manager_def by code_simp

theorem fake_call_is_ended_witness:
  "\<exists>c own dest. goroutines (snd (fake_call calling_env ''5511'' ''5511988887777'' 0 calling_sys)) =
     [GEndCall c ''3EB04'' own dest (ring_time 0)]"
proof -
  have "fake_call calling_env ''5511'' ''5511988887777'' 0 calling_sys =
      (Ok ''3EB04'', snd (fake_call calling_env ''5511'' ''5511988887777'' 0 calling_sys))"
    using calling_accepted by (metis prod.collapse)
  from fake_call_is_ended [OF this] show ?thesis
    by (auto simp: calling_sys_def idle_sys_def new_client_manager_def)
qed

end
