(* ===== verification/Decode.thy ===== *)
theory Decode
  imports Json_Parse Requests
begin

text \<open>
  \<open>json.Unmarshal\<close> into the structs of the outgoing messages (internal/provider/send.go) and
  their envelope (internal/amqp/consumer.go), by the rules of encoding/json. A decoder takes the
  syntax and the value that is there, and gives the new value and whether no error occurred: a
  value of the wrong type is skipped, the rest still decoded, and the error returned at the end.
  A member belongs to the field whose tag has its name, in any letter case; members without a
  field are skipped, and a repeated member is decoded on top of the first one. A pointer is
  allocated before its value is decoded, and null leaves everything but pointers, slices and
  maps as it is.

  The elements of a slice that is decoded twice are decoded on top of the old elements; the
  capacity behind a slice that has been shortened, which encoding/json also reuses, is not
  modelled (it takes three members of the same name to see it).
\<close>

section \<open>Fields\<close>

text \<open>
  The folded name of a member: ASCII letters in upper case, and the two runes outside ASCII that
  fold to ASCII letters, the long s and the Kelvin sign. Other runes never fold to a tag.
\<close>

fun fold_name :: "string \<Rightarrow> string" where
  "fold_name [] = []"
| "fold_name (c # s) =
     (case s of
        d # r \<Rightarrow>
          if c = CHR 0xC5 \<and> d = CHR 0xBF then CHR ''S'' # fold_name r
          else (case r of
                  e # r' \<Rightarrow>
                    if c = CHR 0xE2 \<and> d = CHR 0x84 \<and> e = CHR 0xAA then CHR ''K'' # fold_name r'
                    else upper_byte c # fold_name s
                | [] \<Rightarrow> upper_byte c # fold_name s)
      | [] \<Rightarrow> [upper_byte c])"

type_synonym 'a decoder = "raw \<Rightarrow> 'a \<Rightarrow> 'a \<times> bool"

definition field_named :: "(string \<times> 'a decoder) list \<Rightarrow> string \<Rightarrow> 'a decoder option" where
  "field_named fs k =
     (case map_of fs k of
        Some d \<Rightarrow> Some d
      | None \<Rightarrow> map_of (map (\<lambda>(n, d). (fold_name n, d)) fs) (fold_name k))"

fun decode_fields :: "(string \<times> 'a decoder) list \<Rightarrow> (string \<times> raw) list \<Rightarrow> 'a \<Rightarrow> 'a \<times> bool" where
  "decode_fields fs [] x = (x, True)"
| "decode_fields fs ((k, v) # kvs) x =
     (case field_named fs k of
        None \<Rightarrow> decode_fields fs kvs x
      | Some d \<Rightarrow>
          (case d v x of
             (y, ok) \<Rightarrow> (case decode_fields fs kvs y of (z, rest) \<Rightarrow> (z, ok \<and> rest))))"

definition decode_struct :: "(string \<times> 'a decoder) list \<Rightarrow> 'a decoder" where
  "decode_struct fs v x =
     (case v of RNull \<Rightarrow> (x, True) | RObj kvs \<Rightarrow> decode_fields fs kvs x | _ \<Rightarrow> (x, False))"

text \<open>The decoder of a field of a record, from the one of its type.\<close>

definition into :: "('a \<Rightarrow> 'b) \<Rightarrow> ('b \<Rightarrow> 'a \<Rightarrow> 'a) \<Rightarrow> 'b decoder \<Rightarrow> 'a decoder" where
  "into get put_in d v x = (case d v (get x) of (y, ok) \<Rightarrow> (put_in y x, ok))"

section \<open>Types\<close>

definition decode_string :: "string decoder" where
  "decode_string v x = (case v of RNull \<Rightarrow> (x, True) | RStr t \<Rightarrow> (t, True) | _ \<Rightarrow> (x, False))"

definition decode_bool :: "bool decoder" where
  "decode_bool v x = (case v of RNull \<Rightarrow> (x, True) | RBool b \<Rightarrow> (b, True) | _ \<Rightarrow> (x, False))"

definition decode_uint32 :: "32 word decoder" where
  "decode_uint32 v x =
     (case v of
        RNull \<Rightarrow> (x, True)
      | RNum t \<Rightarrow>
          (case parse_nat t of
             Some n \<Rightarrow> if int n < 2 ^ 32 then (word_of_int (int n), True) else (x, False)
           | None \<Rightarrow> (x, False))
      | _ \<Rightarrow> (x, False))"

definition decode_int :: "int decoder" where
  "decode_int v x =
     (case v of
        RNull \<Rightarrow> (x, True)
      | RNum t \<Rightarrow> (case atoi t of Some i \<Rightarrow> (i, True) | None \<Rightarrow> (x, False))
      | _ \<Rightarrow> (x, False))"

definition decode_pointer :: "'a \<Rightarrow> 'a decoder \<Rightarrow> 'a option decoder" where
  "decode_pointer zero d v x =
     (if v = RNull then (None, True)
      else map_prod Some id (d v (case x of Some y \<Rightarrow> y | None \<Rightarrow> zero)))"

fun decode_elements :: "'a \<Rightarrow> 'a decoder \<Rightarrow> raw list \<Rightarrow> 'a list \<Rightarrow> 'a list \<times> bool" where
  "decode_elements zero d [] old = ([], True)"
| "decode_elements zero d (v # vs) old =
     (case d v (case old of [] \<Rightarrow> zero | x # xs \<Rightarrow> x) of
        (y, ok) \<Rightarrow> (case decode_elements zero d vs (drop 1 old) of (ys, rest) \<Rightarrow> (y # ys, ok \<and> rest)))"

definition decode_slice :: "'a \<Rightarrow> 'a decoder \<Rightarrow> 'a list decoder" where
  "decode_slice zero d v x =
     (case v of RNull \<Rightarrow> ([], True) | RArr vs \<Rightarrow> decode_elements zero d vs x | _ \<Rightarrow> (x, False))"

definition decode_map :: "(string \<times> json) list decoder" where
  \<comment> \<open>a \<open>map[string]any\<close>; what is left there after an error is of no use and not modelled\<close>
  "decode_map v x =
     (case v of
        RNull \<Rightarrow> ([], True)
      | RObj kvs \<Rightarrow>
          (case map_of_raw v of Some new \<Rightarrow> (fold (\<lambda>(k, j). put k j) new x, True) | None \<Rightarrow> (x, False))
      | _ \<Rightarrow> (x, False))"

lemmas decoder_defs =
  decode_struct_def into_def decode_string_def decode_bool_def decode_uint32_def decode_int_def
  decode_pointer_def decode_slice_def

section \<open>The structs\<close>

definition zero_text :: text_content where
  "zero_text = \<lparr>tc_body = []\<rparr>"

definition decode_text :: "text_content decoder" where
  "decode_text = decode_struct [(''body'', into tc_body (\<lambda>y. tc_body_update (\<lambda>_. y)) decode_string)]"

definition zero_link :: link_content where
  "zero_link = \<lparr>lc_link = []\<rparr>"

definition decode_link :: "'a link_content_scheme decoder" where
  "decode_link v x = into lc_link (\<lambda>y. lc_link_update (\<lambda>_. y)) decode_string v x"

definition decode_caption :: "'a captioned_content_scheme decoder" where
  "decode_caption v x = into cc_caption (\<lambda>y. cc_caption_update (\<lambda>_. y)) decode_string v x"

definition decode_sticker :: "link_content decoder" where
  "decode_sticker = decode_struct [(''link'', decode_link)]"

definition zero_captioned :: captioned_content where
  "zero_captioned = \<lparr>lc_link = [], cc_caption = []\<rparr>"

definition decode_captioned :: "captioned_content decoder" where
  "decode_captioned = decode_struct [(''link'', decode_link), (''caption'', decode_caption)]"

definition zero_document :: document_content where
  "zero_document = \<lparr>lc_link = [], cc_caption = [], dc_file_name = []\<rparr>"

definition decode_document :: "document_content decoder" where
  "decode_document =
     decode_struct
       [(''link'', decode_link), (''caption'', decode_caption),
        (''filename'', into dc_file_name (\<lambda>y. dc_file_name_update (\<lambda>_. y)) decode_string)]"

definition zero_audio :: audio_content where
  "zero_audio = \<lparr>lc_link = [], cc_caption = [], ac_ptt = None, ac_seconds = None\<rparr>"

definition decode_audio :: "audio_content decoder" where
  "decode_audio =
     decode_struct
       [(''link'', decode_link), (''caption'', decode_caption),
        (''ptt'', into ac_ptt (\<lambda>y. ac_ptt_update (\<lambda>_. y)) (decode_pointer False decode_bool)),
        (''seconds'', into ac_seconds (\<lambda>y. ac_seconds_update (\<lambda>_. y)) (decode_pointer 0 decode_uint32))]"

definition zero_phone :: contact_phone where
  "zero_phone = \<lparr>cp_phone = [], cp_wa_id = []\<rparr>"

definition decode_phone :: "contact_phone decoder" where
  "decode_phone =
     decode_struct
       [(''phone'', into cp_phone (\<lambda>y. cp_phone_update (\<lambda>_. y)) decode_string),
        (''wa_id'', into cp_wa_id (\<lambda>y. cp_wa_id_update (\<lambda>_. y)) decode_string)]"

definition zero_contact :: contact_entry where
  "zero_contact = \<lparr>cn_formatted_name = [], cn_phones = []\<rparr>"

definition decode_contact :: "contact_entry decoder" where
  "decode_contact =
     decode_struct
       [(''name'', decode_struct
          [(''formatted_name'',
            into cn_formatted_name (\<lambda>y. cn_formatted_name_update (\<lambda>_. y)) decode_string)]),
        (''phones'', into cn_phones (\<lambda>y. cn_phones_update (\<lambda>_. y)) (decode_slice zero_phone decode_phone))]"

definition zero_context :: message_context where
  "zero_context =
     \<lparr>mc_id = [], mc_message_id = [], mc_stanzaId = [], mc_stanza_id = [], mc_participant = [],
      mc_quoted_text = [], mc_mentioned_jid = [], mc_mentions = []\<rparr>"

definition decode_context :: "message_context decoder" where
  "decode_context =
     decode_struct
       [(''id'', into mc_id (\<lambda>y. mc_id_update (\<lambda>_. y)) decode_string),
        (''message_id'', into mc_message_id (\<lambda>y. mc_message_id_update (\<lambda>_. y)) decode_string),
        (''stanzaId'', into mc_stanzaId (\<lambda>y. mc_stanzaId_update (\<lambda>_. y)) decode_string),
        (''stanza_id'', into mc_stanza_id (\<lambda>y. mc_stanza_id_update (\<lambda>_. y)) decode_string),
        (''participant'', into mc_participant (\<lambda>y. mc_participant_update (\<lambda>_. y)) decode_string),
        (''quoted_text'', into mc_quoted_text (\<lambda>y. mc_quoted_text_update (\<lambda>_. y)) decode_string),
        (''mentioned_jid'',
          into mc_mentioned_jid (\<lambda>y. mc_mentioned_jid_update (\<lambda>_. y)) (decode_slice [] decode_string)),
        (''mentions'',
          into mc_mentions (\<lambda>y. mc_mentions_update (\<lambda>_. y)) (decode_slice [] decode_string))]"

definition zero_message :: outgoing_message where
  "zero_message =
     \<lparr>om_messaging_product = [], om_type = [], om_to = [], om_body = [], om_text = None,
      om_image = None, om_document = None, om_video = None, om_audio = None, om_sticker = None,
      om_contacts = [], om_media_url = [], om_caption = [], om_session_id = [], om_message_id = [],
      om_context = None, om_mentions = []\<rparr>"

definition message_fields :: "(string \<times> outgoing_message decoder) list" where
  "message_fields =
     [(''messaging_product'',
        into om_messaging_product (\<lambda>y. om_messaging_product_update (\<lambda>_. y)) decode_string),
      (''type'', into om_type (\<lambda>y. om_type_update (\<lambda>_. y)) decode_string),
      (''to'', into om_to (\<lambda>y. om_to_update (\<lambda>_. y)) decode_string),
      (''body'', into om_body (\<lambda>y. om_body_update (\<lambda>_. y)) decode_string),
      (''text'', into om_text (\<lambda>y. om_text_update (\<lambda>_. y)) (decode_pointer zero_text decode_text)),
      (''image'',
        into om_image (\<lambda>y. om_image_update (\<lambda>_. y)) (decode_pointer zero_captioned decode_captioned)),
      (''document'',
        into om_document (\<lambda>y. om_document_update (\<lambda>_. y)) (decode_pointer zero_document decode_document)),
      (''video'',
        into om_video (\<lambda>y. om_video_update (\<lambda>_. y)) (decode_pointer zero_captioned decode_captioned)),
      (''audio'', into om_audio (\<lambda>y. om_audio_update (\<lambda>_. y)) (decode_pointer zero_audio decode_audio)),
      (''sticker'',
        into om_sticker (\<lambda>y. om_sticker_update (\<lambda>_. y)) (decode_pointer zero_link decode_sticker)),
      (''contacts'',
        into om_contacts (\<lambda>y. om_contacts_update (\<lambda>_. y)) (decode_slice zero_contact decode_contact)),
      (''media_url'', into om_media_url (\<lambda>y. om_media_url_update (\<lambda>_. y)) decode_string),
      (''caption'', into om_caption (\<lambda>y. om_caption_update (\<lambda>_. y)) decode_string),
      (''session_id'', into om_session_id (\<lambda>y. om_session_id_update (\<lambda>_. y)) decode_string),
      (''message_id'', into om_message_id (\<lambda>y. om_message_id_update (\<lambda>_. y)) decode_string),
      (''context'',
        into om_context (\<lambda>y. om_context_update (\<lambda>_. y)) (decode_pointer zero_context decode_context)),
      (''mentions'', into om_mentions (\<lambda>y. om_mentions_update (\<lambda>_. y)) (decode_slice [] decode_string))]"

definition decode_message :: "outgoing_message decoder" where
  "decode_message = decode_struct message_fields"

section \<open>The envelope\<close>

record envelope_options =
  eo_endpoint :: string
  eo_priority :: int

record envelope =
  ev_payload :: outgoing_message
  ev_id :: string
  ev_options :: "envelope_options option"

definition zero_options :: envelope_options where
  "zero_options = \<lparr>eo_endpoint = [], eo_priority = 0\<rparr>"

definition decode_options :: "envelope_options decoder" where
  "decode_options =
     decode_struct
       [(''endpoint'', into eo_endpoint (\<lambda>y. eo_endpoint_update (\<lambda>_. y)) decode_string),
        (''priority'', into eo_priority (\<lambda>y. eo_priority_update (\<lambda>_. y)) decode_int)]"

definition zero_envelope :: envelope where
  "zero_envelope = \<lparr>ev_payload = zero_message, ev_id = [], ev_options = None\<rparr>"

definition decode_envelope :: "envelope decoder" where
  "decode_envelope =
     decode_struct
       [(''payload'', into ev_payload (\<lambda>y. ev_payload_update (\<lambda>_. y)) decode_message),
        (''id'', into ev_id (\<lambda>y. ev_id_update (\<lambda>_. y)) decode_string),
        (''options'',
          into ev_options (\<lambda>y. ev_options_update (\<lambda>_. y)) (decode_pointer zero_options decode_options))]"

section \<open>Reading back\<close>

text \<open>
  The JSON of a message: every field under its tag, null for a nil pointer. Decoding it gives
  the message back, whatever the strings in it are.
\<close>

definition raw_pointer :: "('a \<Rightarrow> raw) \<Rightarrow> 'a option \<Rightarrow> raw" where
  "raw_pointer f x = (case x of None \<Rightarrow> RNull | Some y \<Rightarrow> f y)"

definition raw_uint :: "32 word \<Rightarrow> raw" where
  "raw_uint w = RNum (nat_dec (unat w))"

definition raw_link :: "'a link_content_scheme \<Rightarrow> string \<times> raw" where
  "raw_link c = (''link'', RStr (lc_link c))"

definition raw_caption :: "'a captioned_content_scheme \<Rightarrow> string \<times> raw" where
  "raw_caption c = (''caption'', RStr (cc_caption c))"

definition raw_captioned :: "captioned_content \<Rightarrow> raw" where
  "raw_captioned c = RObj [raw_link c, raw_caption c]"

definition raw_document :: "document_content \<Rightarrow> raw" where
  "raw_document c = RObj [raw_link c, raw_caption c, (''filename'', RStr (dc_file_name c))]"

definition raw_audio :: "audio_content \<Rightarrow> raw" where
  "raw_audio c =
     RObj [raw_link c, raw_caption c, (''ptt'', raw_pointer RBool (ac_ptt c)),
       (''seconds'', raw_pointer raw_uint (ac_seconds c))]"

definition raw_phone :: "contact_phone \<Rightarrow> raw" where
  "raw_phone p = RObj [(''phone'', RStr (cp_phone p)), (''wa_id'', RStr (cp_wa_id p))]"

definition raw_contact :: "contact_entry \<Rightarrow> raw" where
  "raw_contact c =
     RObj [(''name'', RObj [(''formatted_name'', RStr (cn_formatted_name c))]),
       (''phones'', RArr (map raw_phone (cn_phones c)))]"

definition raw_strings :: "string list \<Rightarrow> raw" where
  "raw_strings ts = RArr (map RStr ts)"

definition raw_context :: "message_context \<Rightarrow> raw" where
  "raw_context c =
     RObj [(''id'', RStr (mc_id c)), (''message_id'', RStr (mc_message_id c)),
       (''stanzaId'', RStr (mc_stanzaId c)), (''stanza_id'', RStr (mc_stanza_id c)),
       (''participant'', RStr (mc_participant c)), (''quoted_text'', RStr (mc_quoted_text c)),
       (''mentioned_jid'', raw_strings (mc_mentioned_jid c)),
       (''mentions'', raw_strings (mc_mentions c))]"

definition raw_message :: "outgoing_message \<Rightarrow> raw" where
  "raw_message m =
     RObj [(''messaging_product'', RStr (om_messaging_product m)), (''type'', RStr (om_type m)),
       (''to'', RStr (om_to m)), (''body'', RStr (om_body m)),
       (''text'', raw_pointer (\<lambda>t. RObj [(''body'', RStr (tc_body t))]) (om_text m)),
       (''image'', raw_pointer raw_captioned (om_image m)),
       (''document'', raw_pointer raw_document (om_document m)),
       (''video'', raw_pointer raw_captioned (om_video m)),
       (''audio'', raw_pointer raw_audio (om_audio m)),
       (''sticker'', raw_pointer (\<lambda>c. RObj [raw_link c]) (om_sticker m)),
       (''contacts'', RArr (map raw_contact (om_contacts m))),
       (''media_url'', RStr (om_media_url m)), (''caption'', RStr (om_caption m)),
       (''session_id'', RStr (om_session_id m)), (''message_id'', RStr (om_message_id m)),
       (''context'', raw_pointer raw_context (om_context m)),
       (''mentions'', raw_strings (om_mentions m))]"

lemma raw_not_null [simp]:
  "raw_uint w \<noteq> RNull" "raw_captioned a \<noteq> RNull" "raw_document b \<noteq> RNull"
  "raw_audio c \<noteq> RNull" "raw_context d \<noteq> RNull"
  by (simp_all add: raw_uint_def raw_captioned_def raw_document_def raw_audio_def raw_context_def)

named_theorems read_back \<open>decoding what the encoders above give\<close>

lemma field_exact: "map_of fs k = Some d \<Longrightarrow> field_named fs k = Some d"
  by (simp add: field_named_def)

lemma read_string [read_back]: "decode_string (RStr t) x = (t, True)"
  by (simp add: decode_string_def)

lemma read_pointer:
  assumes "\<And>y. d (f y) zero = (y, True)" "\<And>y. f y \<noteq> RNull"
  shows "decode_pointer zero d (raw_pointer f p) None = (p, True)"
  using assms by (simp add: decode_pointer_def raw_pointer_def split: option.split)

lemma read_elements:
  assumes "\<And>y. d (f y) zero = (y, True)"
  shows "decode_elements zero d (map f ys) [] = (ys, True)"
  using assms by (induction ys) simp_all

lemma read_slice:
  assumes "\<And>y. d (f y) zero = (y, True)"
  shows "decode_slice zero d (RArr (map f ys)) [] = (ys, True)"
  using read_elements [of d f zero, OF assms] by (simp add: decode_slice_def)

lemma read_strings [read_back]: "decode_slice [] decode_string (raw_strings ts) [] = (ts, True)"
  unfolding raw_strings_def by (rule read_slice) (simp add: read_back)

lemma read_captioned [read_back]: "decode_captioned (raw_captioned c) zero_captioned = (c, True)"
  by (cases c) (simp add: decode_captioned_def raw_captioned_def decode_struct_def field_named_def
      raw_link_def raw_caption_def decode_link_def decode_caption_def into_def zero_captioned_def read_back)

lemma read_document [read_back]: "decode_document (raw_document c) zero_document = (c, True)"
  by (cases c) (simp add: decode_document_def raw_document_def decode_struct_def field_named_def
      raw_link_def raw_caption_def decode_link_def decode_caption_def into_def zero_document_def read_back)

lemma read_uint [read_back]: "decode_uint32 (raw_uint w) x = (w, True)"
  using uint_lt2p [of w]
  by (simp add: decode_uint32_def raw_uint_def parse_nat_nat_dec flip: uint_nat)

lemma read_audio [read_back]: "decode_audio (raw_audio c) zero_audio = (c, True)"
proof -
  have "decode_pointer False decode_bool (raw_pointer RBool b) None = (b, True)" for b
    by (rule read_pointer) (simp_all add: decode_bool_def)
  moreover have "decode_pointer 0 decode_uint32 (raw_pointer raw_uint n) None = (n, True)" for n
    by (rule read_pointer) (simp_all add: read_back)
  ultimately show ?thesis
    by (cases c) (simp add: decode_audio_def raw_audio_def decode_struct_def field_named_def
      raw_link_def raw_caption_def decode_link_def decode_caption_def into_def zero_audio_def read_back)
qed

lemma read_phone [read_back]: "decode_phone (raw_phone p) zero_phone = (p, True)"
  by (cases p) (simp add: decode_phone_def raw_phone_def decode_struct_def field_named_def into_def
      zero_phone_def read_back)

lemma read_contact [read_back]: "decode_contact (raw_contact c) zero_contact = (c, True)"
proof -
  have "decode_slice zero_phone decode_phone (RArr (map raw_phone ps)) [] = (ps, True)" for ps
    by (rule read_slice) (simp add: read_back)
  then show ?thesis
    by (cases c) (simp add: decode_contact_def raw_contact_def decode_struct_def field_named_def
        into_def zero_contact_def read_back)
qed

lemma read_context [read_back]: "decode_context (raw_context c) zero_context = (c, True)"
  by (cases c) (simp add: decode_context_def raw_context_def decode_struct_def field_named_def
      into_def zero_context_def read_back)

lemma read_pointers [read_back]:
  "decode_pointer zero_text decode_text (raw_pointer (\<lambda>t. RObj [(''body'', RStr (tc_body t))]) a) None = (a, True)"
  "decode_pointer zero_captioned decode_captioned (raw_pointer raw_captioned b) None = (b, True)"
  "decode_pointer zero_document decode_document (raw_pointer raw_document c) None = (c, True)"
  "decode_pointer zero_audio decode_audio (raw_pointer raw_audio e) None = (e, True)"
  "decode_pointer zero_link decode_sticker (raw_pointer (\<lambda>c. RObj [raw_link c]) f) None = (f, True)"
  "decode_pointer zero_context decode_context (raw_pointer raw_context g) None = (g, True)"
  by (rule read_pointer;
      simp add: read_back decode_text_def decode_sticker_def decode_struct_def field_named_def into_def
        zero_text_def zero_link_def raw_link_def decode_link_def)+

lemma read_contacts [read_back]:
  "decode_slice zero_contact decode_contact (RArr (map raw_contact cs)) [] = (cs, True)"
  by (rule read_slice) (simp add: read_back)

lemma read_message: "decode_message (raw_message m) zero_message = (m, True)"
  by (cases m) (simp add: decode_message_def raw_message_def decode_struct_def field_named_def
      message_fields_def into_def zero_message_def read_back)

text \<open>An envelope with a message and an id.\<close>

definition raw_envelope :: "string \<Rightarrow> outgoing_message \<Rightarrow> raw" where
  "raw_envelope i m = RObj [(''payload'', raw_message m), (''id'', RStr i)]"

lemma read_envelope:
  "decode_envelope (raw_envelope i m) zero_envelope = (\<lparr>ev_payload = m, ev_id = i, ev_options = None\<rparr>, True)"
  by (simp add: raw_envelope_def decode_envelope_def decode_struct_def field_named_def into_def
      zero_envelope_def read_message read_back)

end
