(* ===== verification/Http.thy ===== *)
theory Http
  imports Sessions Decode
begin

text \<open>
  The HTTP API (internal/http/server.go). The router is gorilla/mux: an endpoint here is a route
  with the session id it matched, its query parameter or its body. A response has a status, a
  content type when the handler sets one, and a body. A JSON body is the value that is encoded.
\<close>

datatype endpoint =
    PostConnect string
  | PostDisconnect string
  | PostReload string
  | GetQr string
  | GetStatus string
  | PostFakeCall string string
  | GetResolve string string
  | GetHealth
  | GetReady

datatype body = NoBody | TextBody string | BytesBody bytes | JsonBody json

record response =
  rs_status :: nat
  rs_content_type :: "string option"
  rs_body :: body

definition reply :: "nat \<Rightarrow> body \<Rightarrow> response" where
  "reply code b = \<lparr>rs_status = code, rs_content_type = None, rs_body = b\<rparr>"

definition reply_json :: "nat \<Rightarrow> json \<Rightarrow> response" where
  "reply_json code v =
     \<lparr>rs_status = code, rs_content_type = Some ''application/json'', rs_body = JsonBody v\<rparr>"

definition http_error :: "string \<Rightarrow> nat \<Rightarrow> response" where
  \<comment> \<open>\<open>http.Error\<close>\<close>
  "http_error msg code =
     \<lparr>rs_status = code, rs_content_type = Some ''text/plain; charset=utf-8'',
      rs_body = TextBody (msg @ [CHR 0x0A])\<rparr>"

section \<open>Handlers\<close>

definition status_json :: "session_status \<Rightarrow> json" where
  "status_json st =
     JObj ([(''session_id'', JStr (ss_session_id st)), (''connected'', JBool (ss_connected st)),
            (''logged_in'', JBool (ss_logged_in st))] @
           (if ss_device_jid st = [] then [] else [(''device_jid'', JStr (ss_device_jid st))]))"

definition resolve_json :: "resolve_result \<Rightarrow> json" where
  "resolve_json r =
     JObj [(''input'', JStr (rr_input r)), (''normalized_pn'', JStr (rr_normalized_pn r)),
       (''pn_jid'', JStr (rr_pn_jid r)), (''dest_jid'', JStr (rr_dest_jid r))]"

text \<open>
  An outcome as a response: an error by the first function. The server answers a panic by closing
  the connection, written as status 0; none of the operations panics, as is shown below.
\<close>

definition answer ::
  "(string \<Rightarrow> response) \<Rightarrow> ('a \<Rightarrow> response) \<Rightarrow> (string, 'a) outcome \<times> sys \<Rightarrow> response \<times> sys" where
  "answer bad good m =
     (case m of
        (Ok v, s) \<Rightarrow> (good v, s)
      | (Err e, s) \<Rightarrow> (bad e, s)
      | (Panic r, s) \<Rightarrow> (reply 0 NoBody, s))"

definition handle_status :: "env \<Rightarrow> string \<Rightarrow> sys \<Rightarrow> response \<times> sys" where
  "handle_status E sid s =
     answer (\<lambda>e. http_error e 404) (\<lambda>st. reply_json 200 (status_json st)) (status E sid s)"

definition handle_resolve :: "env \<Rightarrow> string \<Rightarrow> string \<Rightarrow> sys \<Rightarrow> response \<times> sys" where
  "handle_resolve E sid query s =
     (let to = trim_space query in
      if to = [] then (http_error ''missing to query param'' 400, s)
      else answer (\<lambda>e. http_error e 404) (\<lambda>r. reply_json 200 (resolve_json r)) (resolve_dest E sid to s, s))"

record fake_call_request =
  fc_to :: string
  fc_ring_ms :: int

definition decode_fake_call :: "fake_call_request decoder" where
  "decode_fake_call =
     decode_struct
       [(''to'', into fc_to (\<lambda>y. fc_to_update (\<lambda>_. y)) decode_string),
        (''ring_ms'', into fc_ring_ms (\<lambda>y. fc_ring_ms_update (\<lambda>_. y)) decode_int)]"

text \<open>\<open>decodeJSON\<close> decodes the first value of the body; what follows it is not read.\<close>

definition decode_json :: "'a decoder \<Rightarrow> 'a \<Rightarrow> string \<Rightarrow> 'a option" where
  "decode_json d zero b =
     (case parse_value (json_fuel b) 0 b of
        None \<Rightarrow> None
      | Some (v, r) \<Rightarrow> (case d v zero of (x, ok) \<Rightarrow> if ok then Some x else None))"

definition handle_fake_call :: "env \<Rightarrow> string \<Rightarrow> string \<Rightarrow> sys \<Rightarrow> response \<times> sys" where
  "handle_fake_call E sid b s =
     (case decode_json decode_fake_call \<lparr>fc_to = [], fc_ring_ms = 0\<rparr> b of
        None \<Rightarrow> (http_error ''invalid json payload'' 400, s)
      | Some req \<Rightarrow>
          (let to = trim_space (fc_to req);
               ms = (if fc_ring_ms req \<le> 0 then 15000 else fc_ring_ms req) in
           if to = [] then (http_error ''missing to'' 400, s)
           else
             answer (\<lambda>e. http_error e 400)
               (\<lambda>call. reply_json 202
                  (JObj [(''call_id'', JStr call), (''ring_ms'', JInt ms), (''to'', JStr to)]))
               (fake_call E sid to ms s)))"

definition handle_connect :: "env \<Rightarrow> string \<Rightarrow> sys \<Rightarrow> response \<times> sys" where
  "handle_connect E sid s =
     answer (\<lambda>e. reply 500 (TextBody e)) (\<lambda>c. reply 204 NoBody) (connect E sid s)"

definition handle_disconnect :: "string \<Rightarrow> sys \<Rightarrow> response \<times> sys" where
  "handle_disconnect sid s = (reply 204 NoBody, disconnect sid s)"

definition handle_reload :: "env \<Rightarrow> string \<Rightarrow> sys \<Rightarrow> response \<times> sys" where
  "handle_reload E sid s =
     answer (\<lambda>e. reply 500 (TextBody e)) (\<lambda>_. reply 204 NoBody) (reload E sid s)"

definition handle_qr :: "string \<Rightarrow> sys \<Rightarrow> response \<times> sys" where
  "handle_qr sid s =
     answer (\<lambda>e. reply (if contains e ''not connected'' then 404 else 500) (TextBody e))
       (\<lambda>qr. case base64_decode qr of
          Some png \<Rightarrow>
            \<lparr>rs_status = 200, rs_content_type = Some ''image/png'', rs_body = BytesBody png\<rparr>
        | None \<Rightarrow> reply 500 (TextBody ''illegal base64 data''))
       (get_qr sid s, s)"

definition handle_health :: response where
  "handle_health = reply 200 NoBody"

text \<open>\<open>ready\<close> is the server's flag, set by \<open>Start\<close> and cleared by \<open>Shutdown\<close>.\<close>

definition handle_ready :: "bool \<Rightarrow> response" where
  "handle_ready ready = (if ready then reply 200 (TextBody ''ready'') else reply 503 NoBody)"

fun serve :: "env \<Rightarrow> bool \<Rightarrow> endpoint \<Rightarrow> sys \<Rightarrow> response \<times> sys" where
  "serve E ready (PostConnect sid) s = handle_connect E sid s"
| "serve E ready (PostDisconnect sid) s = handle_disconnect sid s"
| "serve E ready (PostReload sid) s = handle_reload E sid s"
| "serve E ready (GetQr sid) s = handle_qr sid s"
| "serve E ready (GetStatus sid) s = handle_status E sid s"
| "serve E ready (PostFakeCall sid b) s = handle_fake_call E sid b s"
| "serve E ready (GetResolve sid query) s = handle_resolve E sid query s"
| "serve E ready GetHealth s = (handle_health, s)"
| "serve E ready GetReady s = (handle_ready ready, s)"

section \<open>Routes\<close>

text \<open>
  The routes that \<open>NewServer\<close> registers. A path is its segments, as the router splits it; a
  variable matches one segment that is not empty. What has no route is answered by the router.
\<close>

datatype http_method = MethodGet | MethodPost | MethodOther

definition session_routes :: "http_method \<Rightarrow> string \<Rightarrow> string \<Rightarrow> (string \<times> (string \<Rightarrow> endpoint)) list" where
  "session_routes meth query b =
     (case meth of
        MethodPost \<Rightarrow>
          [(''connect'', PostConnect), (''disconnect'', PostDisconnect), (''reload'', PostReload),
           (''fakecall'', \<lambda>sid. PostFakeCall sid b)]
      | MethodGet \<Rightarrow>
          [(''qr'', GetQr), (''status'', GetStatus), (''resolve'', \<lambda>sid. GetResolve sid query)]
      | MethodOther \<Rightarrow> [])"

definition route :: "http_method \<Rightarrow> string list \<Rightarrow> string \<Rightarrow> string \<Rightarrow> endpoint option" where
  "route meth path query b =
     (case path of
        [p] \<Rightarrow>
          if meth \<noteq> MethodGet then None
          else if p = ''healthz'' then Some GetHealth
          else if p = ''readyz'' then Some GetReady else None
      | [p, sid, operation] \<Rightarrow>
          if p \<noteq> ''sessions'' \<or> sid = [] then None
          else map_option (\<lambda>f. f sid) (map_of (session_routes meth query b) operation)
      | _ \<Rightarrow> None)"

text \<open>Only a \<open>POST\<close> reaches an operation that changes a session.\<close>

fun changes_session :: "endpoint \<Rightarrow> bool" where
  "changes_session (PostConnect sid) = True"
| "changes_session (PostDisconnect sid) = True"
| "changes_session (PostReload sid) = True"
| "changes_session (PostFakeCall sid b) = True"
| "changes_session _ = False"

lemma only_post_changes:
  assumes "route meth path query b = Some ep" and "changes_session ep"
  shows "meth = MethodPost"
  using assms
  by (cases meth) (auto simp: route_def session_routes_def split: list.splits if_splits)

lemma others_keep_sessions:
  assumes "\<not> changes_session ep"
  shows "settled (snd (serve E ready ep s)) = settled s"
  using assms
  by (cases ep) (auto simp: handle_qr_def handle_status_def handle_resolve_def answer_def status_def Let_def
      is_connected_def is_logged_in_def get_client_def split: option.split outcome.split)

section \<open>What the API answers\<close>

text \<open>No operation behind the API panics.\<close>

lemma connect_no_panic: "\<not> is_panic (fst (connect E sid s))"
  by (simp add: connect_def split: option.split sum.split prod.split)

lemma resolve_dest_no_panic: "\<not> is_panic (resolve_dest E sid to s)"
  by (simp add: resolve_dest_def Let_def split: option.split)

lemma status_no_panic: "\<not> is_panic (fst (status E sid s))"
  by (simp add: status_def split: option.split prod.split)

lemma reload_no_panic: "\<not> is_panic (fst (reload E sid s))"
proof -
  have "\<not> is_panic (map_outcome id (\<lambda>_. ()) r)" if "\<not> is_panic r" for r :: "(string, client) outcome"
    using that by (cases r) auto
  with connect_no_panic show ?thesis
    by (auto simp: reload_def split: prod.split) (metis fst_conv)
qed

lemma get_qr_no_panic: "\<not> is_panic (get_qr sid s)"
  by (simp add: get_qr_def split: option.split)

lemma fake_call_no_panic: "\<not> is_panic (fst (fake_call E sid to ms s))"
proof -
  have "resolve_dest E sid to s \<noteq> Panic r" for s r
    using resolve_dest_no_panic [of E sid to s] by auto
  then show ?thesis
    by (auto simp: fake_call_def must_have_def ring_def Let_def split: option.split prod.split outcome.split bool.split)
qed

lemmas handlers_do_not_panic =
  connect_no_panic reload_no_panic get_qr_no_panic status_no_panic fake_call_no_panic resolve_dest_no_panic

lemmas response_defs = reply_def reply_json_def http_error_def

text \<open>What an operation does to the map of the sessions.\<close>

lemma load_keeps_clients: "m_clients (load_session_overrides E sid s) = m_clients s"
  by (simp add: load_session_overrides_def Let_def fetch_uno_config_def redis_get_def log_effect_def
      set_overrides_def split: option.split sum.split)

lemma start_client_clients:
  "\<exists>ent. ce_client ent = Some c \<and> m_clients (start_client E sid c s) = (m_clients s)(sid \<mapsto> ent)"
  by (rule exI [of _ "new_entry c sid (register_event_handlers c sid (load_session_overrides E sid s))"])
    (simp add: start_client_def register_event_handlers_def spawn_def Let_def load_keeps_clients, simp add: new_entry_def)

text \<open>How a connection ends: with an error and no new session, or with the client started.\<close>

lemma connect_cases:
  assumes "connect E sid s = (r, s')" and "get_client sid s = None"
  obtains (started) c s1 where "r = Ok c" "s' = start_client E sid c s1" "m_clients s1 = m_clients s"
      "m_redis_url s1 = m_redis_url s"
  | (error) e where "r = Err e" "m_clients s' = m_clients s"
proof -
  have quiet: "m_clients (status_set sid v t) = m_clients t" "m_clients (log_effect e t) = m_clients t"
    "m_clients (spawn g t) = m_clients t" "m_redis_url (status_set sid v t) = m_redis_url t"
    "m_redis_url (log_effect e t) = m_redis_url t" "m_redis_url (spawn g t) = m_redis_url t" for v t e g
    by (simp_all add: status_set_def log_effect_def spawn_def Let_def)
  have go: "m_clients s1 = m_clients s \<Longrightarrow> m_redis_url s1 = m_redis_url s \<Longrightarrow>
      \<exists>s2. start_client E sid c s1 = start_client E sid c s2 \<and> m_clients s2 = m_clients s \<and>
        m_redis_url s2 = m_redis_url s" for c s1
    by blast
  have "case r of
      Ok c \<Rightarrow> \<exists>s1. s' = start_client E sid c s1 \<and> m_clients s1 = m_clients s \<and> m_redis_url s1 = m_redis_url s
    | Err e \<Rightarrow> m_clients s' = m_clients s | Panic e \<Rightarrow> False"
    using assms(1) unfolding connect_def assms(2) option.case
    by (auto simp: mkdir_all_def open_store_def first_device_def new_client_def qr_channel_def quiet
        intro!: go split: option.splits sum.splits if_splits)
  then show ?thesis using started error by (cases r) auto
qed

lemma connect_clients:
  assumes "connect E sid s = (r, s')"
  shows "m_clients s' = (m_clients s)(sid := m_clients s' sid) \<and> (get_client sid s' = None) = (\<exists>e. r = Err e) \<and>
    (if get_client sid s = None then True else s' = s)"
proof (cases "get_client sid s")
  case None
  from assms None show ?thesis
  proof (cases rule: connect_cases)
    case (started c s1)
    obtain ent where "ce_client ent = Some c" "m_clients s' = (m_clients s)(sid \<mapsto> ent)"
      using start_client_clients [of c E sid s1] started by auto
    then show ?thesis using started(1) None by (simp add: get_client_def)
  next
    case (error e)
    then show ?thesis using None by (simp add: get_client_def)
  qed
next
  case (Some c)
  with assms show ?thesis by (auto simp: connect_def)
qed

lemma disconnect_clients: "m_clients (disconnect sid s) = (m_clients s)(sid := None)"
  by (auto simp: disconnect_def Let_def status_set_def log_effect_def fun_eq_iff split: option.split)

lemma reload_clients:
  assumes "reload E sid s = (r, s')"
  shows "m_clients s' = (m_clients s)(sid := m_clients s' sid) \<and> (get_client sid s' = None) = (\<exists>e. r = Err e) \<and>
    (if m_clients s sid = None then s' = s else True)"
proof (cases "m_clients s sid")
  case None
  with assms show ?thesis by (auto simp: reload_def get_client_def)
next
  case (Some ent)
  let ?s = "disconnect sid (status_set sid ''connecting'' s)"
  obtain r1 where c: "connect E sid ?s = (r1, s')" and r: "r = map_outcome id (\<lambda>_. ()) r1"
    using assms Some by (auto simp: reload_def split: prod.splits)
  have "m_clients ?s = (m_clients s)(sid := None)"
    unfolding disconnect_clients by (simp add: status_set_def log_effect_def Let_def)
  moreover have "(\<exists>e. r = Err e) = (\<exists>e. r1 = Err e)" unfolding r by (cases r1) auto
  ultimately show ?thesis using connect_clients [OF c] Some by auto
qed

text \<open>A ring-only call that is accepted leaves a goroutine behind; one that is not leaves none.\<close>

lemma fake_call_goroutines:
  assumes "fake_call E sid to ms s = (r, s')"
  shows "(goroutines s' = goroutines s) = (\<exists>e. r = Err e)"
  using assms
  by (auto simp: fake_call_def must_have_def ring_def Let_def message_id_def send_node_def log_effect_def
      spawn_def is_connected_def is_logged_in_def resolve_dest_def
      split: option.splits prod.splits outcome.splits bool.splits if_splits)

text \<open>
  C21: The API answers every request, and its status is the truth about what happened. Connecting
  and reloading answer 204 exactly when the session has a client afterwards, and 500 otherwise;
  neither touches another session, connecting a session that has a client changes nothing, and
  neither does reloading one that does not exist. Disconnecting answers 204 and the session is
  gone. The QR endpoint answers 200 for a code that is there, 404 without one. The status
  endpoint answers 200 exactly for a session with a client, and so does resolving a number that
  is not blank. A call is accepted with 202 exactly when the goroutine that ends it was started.
\<close>

theorem api_answers:
  "case serve E ready ep s of (r, s') \<Rightarrow>
     (case ep of
        PostConnect sid \<Rightarrow>
          m_clients s' = (m_clients s)(sid := m_clients s' sid) \<and>
          rs_status r = (if get_client sid s' = None then 500 else 204) \<and>
          (if get_client sid s = None then True else s' = s)
      | PostDisconnect sid \<Rightarrow> m_clients s' = (m_clients s)(sid := None) \<and> rs_status r = 204
      | PostReload sid \<Rightarrow>
          m_clients s' = (m_clients s)(sid := m_clients s' sid) \<and>
          rs_status r = (if get_client sid s' = None then 500 else 204) \<and>
          (if m_clients s sid = None then s' = s else True)
      | GetQr sid \<Rightarrow>
          s' = s \<and>
          rs_status r =
            (case qr_by_session s sid of
               None \<Rightarrow> 404
             | Some q \<Rightarrow>
                 if qr_png_base64 q = [] then 404 else if base64_decode (qr_png_base64 q) = None then 500 else 200)
      | GetStatus sid \<Rightarrow> rs_status r = (if get_client sid s = None then 404 else 200)
      | PostFakeCall sid b \<Rightarrow> rs_status r = (if goroutines s' = goroutines s then 400 else 202)
      | GetResolve sid q \<Rightarrow>
          s' = s \<and>
          rs_status r = (if trim_space q = [] then 400 else if get_client sid s = None then 404 else 200)
      | GetHealth \<Rightarrow> s' = s \<and> rs_status r = 200
      | GetReady \<Rightarrow> s' = s \<and> rs_status r = (if ready then 200 else 503))"
proof (cases ep)
  case (PostConnect sid)
  obtain r s' where c: "connect E sid s = (r, s')" by (metis prod.collapse)
  then show ?thesis
    using connect_clients [OF c] connect_no_panic [of E sid s]
    by (cases r) (auto simp: PostConnect handle_connect_def answer_def response_defs split: if_splits)
next
  case (PostReload sid)
  obtain r s' where c: "reload E sid s = (r, s')" by (metis prod.collapse)
  then show ?thesis
    using reload_clients [OF c] reload_no_panic [of E sid s]
    by (cases r) (auto simp: PostReload handle_reload_def answer_def response_defs split: if_splits)
next
  case (PostFakeCall sid b)
  have "answer bad good (fake_call E sid to ms s) = (r, s') \<Longrightarrow> (\<And>e. rs_status (bad e) = 400) \<Longrightarrow>
      (\<And>v. rs_status (good v) = 202) \<Longrightarrow>
      rs_status r = (if goroutines s' = goroutines s then 400 else 202)" for bad good to ms r s'
    using fake_call_goroutines [of E sid to ms s] fake_call_no_panic [of E sid to ms s]
    by (cases "fake_call E sid to ms s"; cases "fst (fake_call E sid to ms s)") (auto simp: answer_def)
  then show ?thesis
    unfolding PostFakeCall
    by (auto simp: handle_fake_call_def Let_def response_defs split: option.split)
next
  case (GetQr sid)
  have "contains ''qr not ready or session not connected'' ''not connected''" by code_simp
  then show ?thesis
    by (simp add: GetQr handle_qr_def answer_def get_qr_def response_defs split: option.split)
next
  case (GetResolve sid q)
  then show ?thesis
    by (simp add: handle_resolve_def answer_def resolve_dest_def Let_def response_defs split: option.split)
next
  case (GetStatus sid)
  then show ?thesis
    by (simp add: handle_status_def answer_def status_def response_defs split: option.split prod.split)
qed (simp_all add: handle_disconnect_def disconnect_clients handle_health_def handle_ready_def response_defs)


text \<open>
  C22: The image of a pairing code reaches the browser as the encoder made it: after a code has
  arrived for a session, its QR endpoint answers with the very bytes, until another item arrives.
\<close>

theorem qr_roundtrip:
  assumes "qi_event item = ''code''" and "lib_qr_png E (qi_code item) \<noteq> []"
  shows "fst (serve E ready (GetQr sid) (qr_item_received E sid item s)) =
    \<lparr>rs_status = 200, rs_content_type = Some ''image/png'',
     rs_body = BytesBody (lib_qr_png E (qi_code item))\<rparr>"
proof -
  have "base64 (lib_qr_png E (qi_code item)) \<noteq> []"
    using assms(2) by (cases "lib_qr_png E (qi_code item)" rule: base64.cases) (auto simp: Let_def)
  then have "get_qr sid (qr_item_received E sid item s) = Ok (base64 (lib_qr_png E (qi_code item)))"
    by (simp add: get_qr_def qr_item_received_def assms(1) time_now_def)
  then show ?thesis by (simp add: handle_qr_def answer_def base64_roundtrip)
qed

theorem qr_roundtrip_witness:
  "rs_body (fst (serve (silent_env\<lparr>lib_qr_png := (\<lambda>c. ''PNG'' @ c)\<rparr>) True (GetQr ''5511'')
     (qr_item_received (silent_env\<lparr>lib_qr_png := (\<lambda>c. ''PNG'' @ c)\<rparr>) ''5511''
       \<lparr>qi_event = ''code'', qi_code = ''2@abc''\<rparr> idle_sys))) = BytesBody ''PNG2@abc''"
  using qr_roundtrip [of "\<lparr>qi_event = ''code'', qi_code = ''2@abc''\<rparr>"
      "silent_env\<lparr>lib_qr_png := (\<lambda>c. ''PNG'' @ c)\<rparr>" True "''5511''" idle_sys] by simp

end
