(* ===== verification/Consumer.thy ===== *)
theory Consumer
  imports Config Decode Send
begin

text \<open>
  The AMQP side that receives (internal/amqp): \<open>InitExchange\<close>, the set-up of the consumer, and
  what it does with a delivery; its loop is in the theory \<open>Lifecycle\<close>. A delivery that is a message
  is sent by a goroutine of its own; deliveries are acknowledged as they arrive (auto-ack), so a
  failed one is not repeated.
\<close>

section \<open>Broker calls\<close>

definition queue_declare :: "env \<Rightarrow> chan \<Rightarrow> string \<Rightarrow> sys \<Rightarrow> string option \<times> sys" where
  "queue_declare E c q s = (env_queue_declare E (tick s) c q, log_effect (EQueueDeclare q) s)"

definition queue_bind :: "env \<Rightarrow> chan \<Rightarrow> string \<Rightarrow> string \<Rightarrow> string \<Rightarrow> sys \<Rightarrow> string option \<times> sys" where
  "queue_bind E c q key ex s = (env_queue_bind E (tick s) c q key ex, log_effect (EQueueBind q key ex) s)"

definition consume :: "env \<Rightarrow> chan \<Rightarrow> string \<Rightarrow> sys \<Rightarrow> string option \<times> sys" where
  "consume E c q s = (env_consume E (tick s) c q, log_effect (EConsume q) s)"

text \<open>A call whose error is returned behind a label, and the calls after it otherwise.\<close>

definition or_fail ::
  "string \<Rightarrow> string option \<times> sys \<Rightarrow> (sys \<Rightarrow> (string, 'a) outcome \<times> sys) \<Rightarrow> (string, 'a) outcome \<times> sys" where
  "or_fail label m f = (case m of (Some e, s) \<Rightarrow> (Err (label @ e), s) | (None, s) \<Rightarrow> f s)"

section \<open>Set-up\<close>

definition declare_queue :: "env \<Rightarrow> config \<Rightarrow> chan \<Rightarrow> sys \<Rightarrow> (string, unit) outcome \<times> sys" where
  "declare_queue E cfg ch s =
     or_fail ''failed to declare queue: '' (queue_declare E ch (cf_amqp_queue cfg) s) (\<lambda>s1.
     or_fail ''failed to bind queue: ''
       (queue_bind E ch (cf_amqp_queue cfg) (cf_amqp_binding cfg) (cf_amqp_exchange cfg) s1) (\<lambda>s2.
     (Ok (), s2)))"

text \<open>The deferred calls of \<open>InitExchange\<close> close the channel and the connection on every path.\<close>

definition init_exchange :: "env \<Rightarrow> config \<Rightarrow> sys \<Rightarrow> (string, unit) outcome \<times> sys" where
  "init_exchange E cfg s =
     (if cf_amqp_url cfg = [] then (Ok (), s)
      else
        (case amqp_dial E (cf_amqp_url cfg) s of
           (Inl e, s1) \<Rightarrow> (Err (''failed to dial AMQP: '' @ e), s1)
         | (Inr conn, s1) \<Rightarrow>
             map_prod id (log_effect (EAmqpClose conn))
               (case amqp_channel E conn s1 of
                  (Inl e, s2) \<Rightarrow> (Err (''failed to open channel: '' @ e), s2)
                | (Inr ch, s2) \<Rightarrow>
                    map_prod id (log_effect (EChanClose ch))
                      (or_fail ''failed to declare exchange: ''
                         (amqp_declare E ch (cf_amqp_exchange cfg) ''topic'' s2)
                         (\<lambda>s3. if cf_amqp_queue cfg = [] then (Ok (), s3)
                               else declare_queue E cfg ch s3)))))"

text \<open>
  The set-up of \<open>Start\<close>: \<open>Ok None\<close> without a broker, and the connection and channel that the
  deliveries come from otherwise. Its errors leave the connection open.
\<close>

definition consumer_setup :: "env \<Rightarrow> config \<Rightarrow> sys \<Rightarrow> (string, (conn \<times> chan) option) outcome \<times> sys" where
  "consumer_setup E cfg s =
     (if cf_amqp_url cfg = [] then (Ok None, s)
      else
        (case amqp_dial E (cf_amqp_url cfg) s of
           (Inl e, s1) \<Rightarrow> (Err (''failed to dial AMQP: '' @ e), s1)
         | (Inr conn, s1) \<Rightarrow>
             (case amqp_channel E conn s1 of
                (Inl e, s2) \<Rightarrow> (Err (''failed to open channel: '' @ e), s2)
              | (Inr ch, s2) \<Rightarrow>
                  or_fail ''failed to declare exchange: ''
                    (amqp_declare E ch (cf_amqp_exchange cfg) ''topic'' s2) (\<lambda>s3.
                  case declare_queue E cfg ch s3 of
                    (Ok _, s4) \<Rightarrow>
                      or_fail ''failed to consume from queue: '' (consume E ch (cf_amqp_queue cfg) s4)
                        (\<lambda>s5. (Ok (Some (conn, ch)), s5))
                  | (Err e, s4) \<Rightarrow> (Err e, s4)
                  | (Panic r, s4) \<Rightarrow> (Panic r, s4)))))"

text \<open>The end of \<open>Start\<close> when its context is cancelled.\<close>

definition consumer_stop :: "conn \<Rightarrow> chan \<Rightarrow> sys \<Rightarrow> sys" where
  "consumer_stop conn ch s = log_effect (EAmqpClose conn) (log_effect (EChanClose ch) s)"

section \<open>The session of a delivery\<close>

definition binding_prefix :: "string \<Rightarrow> string" where
  "binding_prefix binding =
     (case index_any binding ''*#'' of
        Some i \<Rightarrow> trim_suffix (take i binding) ''.''
      | None \<Rightarrow> binding)"

definition suffix_from_routing_key :: "string \<Rightarrow> string \<Rightarrow> string" where
  "suffix_from_routing_key binding rk =
     (let p = binding_prefix binding in
      if p \<noteq> [] \<and> has_prefix rk (p @ ''.'') then trim_prefix rk (p @ ''.'')
      else last (split_on (CHR ''.'') rk))"

section \<open>Deliveries\<close>

definition probe_payload :: "string \<Rightarrow> (string \<times> json) list option" where
  \<comment> \<open>the map under \<open>payload\<close>; \<open>None\<close> when the body does not decode\<close>
  "probe_payload body =
     (case parse_json body of
        None \<Rightarrow> None
      | Some r \<Rightarrow>
          (case decode_struct [(''payload'', decode_map)] r [] of (p, ok) \<Rightarrow> if ok then Some p else None))"

definition is_webhook :: "string \<Rightarrow> bool" where
  "is_webhook body =
     (case probe_payload body of
        None \<Rightarrow> False
      | Some p \<Rightarrow> list_ex (\<lambda>k. map_of p k \<noteq> None) [''status'', ''statuses'', ''object'', ''entry''])"

definition blank_message :: "outgoing_message \<Rightarrow> bool" where
  "blank_message m =
     (om_type m = [] \<and> om_text m = None \<and> om_image m = None \<and> om_document m = None \<and>
      om_audio m = None \<and> om_sticker m = None)"

text \<open>
  The message of a body: an envelope, or the message itself when the body is no envelope or the
  envelope's payload is blank. The id of the envelope is kept in both cases.
\<close>

definition decode_delivery :: "string \<Rightarrow> outgoing_message option" where
  "decode_delivery body =
     (case parse_json body of
        None \<Rightarrow> None
      | Some r \<Rightarrow>
          (case decode_envelope r zero_envelope of
             (ev, ok) \<Rightarrow>
               map_option
                 (\<lambda>m. if ev_id ev \<noteq> [] \<and> om_message_id m = [] then m\<lparr>om_message_id := ev_id ev\<rparr> else m)
                 (if ok \<and> \<not> blank_message (ev_payload ev) then Some (ev_payload ev)
                  else (case decode_message r zero_message of
                          (m, ok2) \<Rightarrow> if ok2 then Some m else None))))"

definition deliver :: "config \<Rightarrow> string \<Rightarrow> string \<Rightarrow> sys \<Rightarrow> sys" where
  "deliver cfg body rk s =
     (if is_webhook body then s
      else
        (case decode_delivery body of
           None \<Rightarrow> s
         | Some m \<Rightarrow>
             s\<lparr>goroutines := goroutines s @ [GSend m (suffix_from_routing_key (cf_amqp_binding cfg) rk)]\<rparr>))"

text \<open>The goroutine of a delivery: its error goes to the log, a panic ends the process.\<close>

definition run_send :: "env \<Rightarrow> outgoing_message \<Rightarrow> string \<Rightarrow> sys \<Rightarrow> (string, unit) outcome \<times> sys" where
  "run_send E m phone s =
     (case send E (Some phone) m s of
        (Panic r, s1) \<Rightarrow> (Panic r, s1)
      | (_, s1) \<Rightarrow> (Ok (), s1))"

section \<open>What the consumer ignores, and whose message it is\<close>

lemma dom_fold_put:
  "k \<in> fst ` set kvs \<or> map_of m k \<noteq> None \<Longrightarrow> map_of (fold (\<lambda>(k, v). put k v) kvs m) k \<noteq> None"
proof (induction kvs arbitrary: m)
  case (Cons kv kvs)
  show ?case
    using Cons.prems by (cases kv) (auto intro!: Cons.IH simp del: not_None_eq)
qed simp

lemma probe_of_object:
  assumes "parse_json body = Some (RObj [(''payload'', r)])" and "any_of_raw r = Some (JObj kvs)"
    and "k \<in> fst ` set kvs"
  shows "\<exists>p. probe_payload body = Some p \<and> map_of p k \<noteq> None"
proof -
  obtain ms where r: "r = RObj ms" using assms(2) by (cases r) auto
  have "decode_map r [] = (fold (\<lambda>(k, v). put k v) kvs [], True)"
    using assms(2) unfolding decode_map_def map_of_raw_def r by (simp del: any_of_raw.simps)
  then have "probe_payload body = Some (fold (\<lambda>(k, v). put k v) kvs [])"
    by (simp add: probe_payload_def assms(1) decode_struct_def field_named_def)
  with dom_fold_put [of k kvs "[]"] assms(3) show ?thesis by auto
qed

text \<open>
  C24: The consumer ignores the adapter's own webhooks: a body that wraps a well-formed Cloud
  webhook as the publisher wraps it starts no sending, whatever queue it arrives from.
\<close>

theorem own_webhooks_ignored:
  assumes "parse_json body = Some (RObj [(''payload'', r)])" and "any_of_raw r = Some p" and "cloud_wf sid p"
  shows "deliver cfg body rk s = s"
proof -
  obtain kvs where p: "p = JObj kvs" "map_of kvs ''object'' \<noteq> None"
    using assms(3) by (cases p) (auto simp: cloud_wf_def)
  then have "''object'' \<in> fst ` set kvs" by (simp add: map_of_eq_None_iff)
  from probe_of_object [OF assms(1) assms(2) [unfolded p(1)] this]
  show ?thesis by (auto simp: deliver_def is_webhook_def)
qed

definition own_webhook_body :: string where
  "own_webhook_body = ''{\"payload\":{\"object\":\"whatsapp_business_account\",\"entry\":[{\"id\":\"55\",\"changes\":[{\"value\":{\"messaging_product\":\"whatsapp\",\"metadata\":{\"phone_number_id\":\"55\"}}}]}]}}''"

definition own_webhook :: raw where
  "own_webhook =
     RObj [(''object'', RStr ''whatsapp_business_account''),
       (''entry'', RArr [RObj [(''id'', RStr ''55''),
          (''changes'', RArr [RObj [(''value'', RObj [(''messaging_product'', RStr ''whatsapp''),
             (''metadata'', RObj [(''phone_number_id'', RStr ''55'')])])]])]])]"

lemma own_webhook_parsed: "parse_json own_webhook_body = Some (RObj [(''payload'', own_webhook)])"
  by code_simp

lemma own_webhook_json:
  "\<exists>p. any_of_raw own_webhook = Some p \<and> cloud_wf ''55'' p"
  unfolding own_webhook_def
  by (simp add: cloud_wf_def field_of_def value_of_def digits_only_def is_digit_def)

theorem own_webhooks_ignored_witness:
  "deliver (new_config silent_env) own_webhook_body ''5562'' idle_sys = idle_sys"
  using own_webhook_json own_webhooks_ignored [OF own_webhook_parsed] by blast

text \<open>
  C25: With a binding that is a prefix and a wildcard, the session of a delivery is the rest of
  its routing key behind the prefix, dots and all.
\<close>

theorem routing_key_suffix:
  assumes "p \<noteq> []" and "set p \<inter> {CHR ''*'', CHR ''#''} = {}" and "w \<in> {CHR ''*'', CHR ''#''}"
  shows "suffix_from_routing_key (p @ ''.'' @ w # rest) (p @ ''.'' @ sid) = sid"
proof -
  have "index_any ((p @ ''.'') @ w # rest) ''*#'' = Some (length (p @ ''.''))"
    by (rule index_any_append) (use assms in auto)
  then have "binding_prefix (p @ ''.'' @ w # rest) = p"
    by (simp add: binding_prefix_def trim_suffix_def)
  then show ?thesis
    using assms(1) has_prefix_append [of "p @ ''.''" sid]
    by (simp add: suffix_from_routing_key_def trim_prefix_def)
qed

theorem routing_key_suffix_witness:
  "suffix_from_routing_key ''provider.whatsmeow.*'' ''provider.whatsmeow.5511'' = ''5511''"
  using routing_key_suffix [of "''provider.whatsmeow''" "CHR ''*''" "[]" "''5511''"] by simp

text \<open>
  C26: The set-up of the exchange closes the connection it opens, and before that the channel if
  it opened one, on every path and as the last thing it does, with no
  use of the broker behind it.
\<close>

definition closing :: "effect \<Rightarrow> bool" where
  "closing e \<longleftrightarrow> (case e of EAmqpClose _ \<Rightarrow> True | EChanClose _ \<Rightarrow> True | _ \<Rightarrow> False)"

theorem init_exchange_closes:
  assumes "cf_amqp_url cfg \<noteq> []" and "env_amqp_dial E (tick s) (cf_amqp_url cfg) = Inr conn"
  shows "\<exists>calls. list_all (\<lambda>e. \<not> closing e) calls \<and>
    effects (snd (init_exchange E cfg s)) = effects s @ EAmqpDial (cf_amqp_url cfg) # calls @
      (case env_amqp_channel E (Suc (tick s)) conn of Inl e \<Rightarrow> [] | Inr ch \<Rightarrow> [EChanClose ch]) @
      [EAmqpClose conn]"
  using assms
  by (auto simp: init_exchange_def amqp_dial_def amqp_channel_def amqp_declare_def log_effect_def
      or_fail_def declare_queue_def queue_declare_def queue_bind_def closing_def split: sum.split option.split)

text \<open>A broker that accepts the connection and refuses the exchange.\<close>

definition refusing_env :: env where
  "refusing_env = silent_env\<lparr>env_amqp_dial := (\<lambda>t u. Inr 3), env_amqp_channel := (\<lambda>t c. Inr 4)\<rparr>"

theorem init_exchange_closes_witness:
  "\<exists>calls. effects (snd (init_exchange refusing_env (new_config refusing_env) idle_sys)) =
     calls @ [EChanClose 4, EAmqpClose 3]"
proof -
  have "cf_amqp_url (new_config refusing_env) \<noteq> []"
    by (simp add: new_config_def get_env_def split: option.split)
  from init_exchange_closes [OF this, of refusing_env idle_sys 3] show ?thesis
    by (auto simp: refusing_env_def)
qed

text \<open>
  C27: The consumer sets up in the order connection, exchange, queue, binding, consumption, and
  consumes only when all of it has been done. When a step fails it stops there and leaves the
  connection that it has opened as it is: nothing closes it.
\<close>

definition setup_calls :: "config \<Rightarrow> effect list" where
  "setup_calls cfg =
     [EAmqpDial (cf_amqp_url cfg), EAmqpDeclare (cf_amqp_exchange cfg) ''topic'',
      EQueueDeclare (cf_amqp_queue cfg),
      EQueueBind (cf_amqp_queue cfg) (cf_amqp_binding cfg) (cf_amqp_exchange cfg),
      EConsume (cf_amqp_queue cfg)]"

theorem consumer_setup_order:
  assumes "cf_amqp_url cfg \<noteq> []" and "consumer_setup E cfg s = (r, s')"
  shows "(\<exists>conn ch. r = Ok (Some (conn, ch)) \<and> effects s' = effects s @ setup_calls cfg) \<or>
    (\<exists>e k. r = Err e \<and> k < 5 \<and> effects s' = effects s @ take (Suc k) (setup_calls cfg))"
proof -
  have below_5: "(\<exists>k<5. P k) \<longleftrightarrow> P 0 \<or> P 1 \<or> P 2 \<or> P 3 \<or> P 4" for P :: "nat \<Rightarrow> bool"
    by (auto simp: less_Suc_eq numeral_eq_Suc)
  show ?thesis
    using assms
    by (auto simp: consumer_setup_def or_fail_def declare_queue_def amqp_dial_def amqp_channel_def
        amqp_declare_def queue_declare_def queue_bind_def consume_def log_effect_def setup_calls_def
        below_5 split: sum.splits option.splits)
qed

theorem consumer_setup_order_witness:
  "\<exists>e k. fst (consumer_setup refusing_env (new_config refusing_env) idle_sys) = Err e \<and> k < 5 \<and>
     effects (snd (consumer_setup refusing_env (new_config refusing_env) idle_sys)) =
       take (Suc k) (setup_calls (new_config refusing_env))"
proof -
  let ?m = "consumer_setup refusing_env (new_config refusing_env) idle_sys"
  have url: "cf_amqp_url (new_config refusing_env) \<noteq> []"
    by (simp add: new_config_def get_env_def split: option.split)
  then have "fst ?m = Err ''failed to declare exchange: down''"
    by (simp add: consumer_setup_def amqp_dial_def amqp_channel_def amqp_declare_def or_fail_def
        refusing_env_def silent_env_def)
  moreover have "effects idle_sys = []" by (simp add: idle_sys_def new_client_manager_def)
  ultimately show ?thesis
    using consumer_setup_order [OF url prod.collapse [symmetric], of refusing_env idle_sys] by simp
qed

section \<open>From a delivery to a message\<close>

lemma those_keys:
  "those (map (\<lambda>(k, v). map_option (Pair k) (f v)) kvs) = Some ms \<Longrightarrow> map fst ms = map fst kvs"
  by (induction kvs arbitrary: ms) (auto split: option.splits)

lemma keys_fold_put: "fst ` set (fold (\<lambda>(k, v). put k v) ms m) \<subseteq> fst ` set ms \<union> fst ` set m"
proof (induction ms arbitrary: m)
  case (Cons kv ms)
  have "fst ` set (put (fst kv) (snd kv) m) = insert (fst kv) (fst ` set m)"
    using fst_put [of "fst kv" "snd kv" m] by (metis image_set insert_absorb list.set(2) list.simps(15)
      set_append sup.commute Un_insert_right empty_set sup_bot_right)
  with Cons.IH [of "put (fst kv) (snd kv) m"] show ?case by (cases kv) auto
qed simp

lemma map_of_raw_keys: "map_of_raw (RObj kvs) = Some ms \<Longrightarrow> fst ` set ms \<subseteq> fst ` set kvs"
proof -
  assume "map_of_raw (RObj kvs) = Some ms"
  then obtain ns where ns: "those (map (\<lambda>(k, v). map_option (Pair k) (any_of_raw v)) kvs) = Some ns"
    "ms = fold (\<lambda>(k, v). put k v) ns []"
    by (auto simp: map_of_raw_def split: option.splits)
  with keys_fold_put [of ns "[]"] those_keys [OF ns(1)] show ?thesis by (metis image_set list.set(1) image_empty sup_bot_right)
qed

lemma decode_map_keys: "decode_map (RObj kvs) [] = (p, True) \<Longrightarrow> fst ` set p \<subseteq> fst ` set kvs"
  using keys_fold_put [of _ "[]"] map_of_raw_keys [of kvs]
  by (force simp: decode_map_def split: option.splits)

lemma envelope_is_no_webhook:
  assumes "parse_json body = Some (raw_envelope i m)"
  shows "\<not> is_webhook body"
proof -
  obtain p ok where p: "decode_map (raw_message m) [] = (p, ok)" by force
  have "probe_payload body = (if ok then Some p else None)"
    by (simp add: probe_payload_def assms raw_envelope_def decode_struct_def field_named_def p)
  moreover have "map_of p k = None" if ok: "ok" and k: "k \<in> {''status'', ''statuses'', ''object'', ''entry''}" for k
  proof -
    obtain kvs where kvs: "raw_message m = RObj kvs" "k \<notin> fst ` set kvs"
      using k by (auto simp: raw_message_def)
    then show ?thesis
      using decode_map_keys [of kvs p] p ok by (auto simp: map_of_eq_None_iff)
  qed
  ultimately show ?thesis by (auto simp: is_webhook_def)
qed

text \<open>
  C6: A delivery that is a message starts one sending of that message: whatever the fields of
  the message are, decoding the envelope gives them back, with the envelope's id where the
  message has none, for the session that the routing key names.
\<close>

theorem delivery_starts_send:
  assumes "parse_json body = Some (raw_envelope i m)" and "\<not> blank_message m"
  shows "deliver cfg body rk s = s\<lparr>goroutines := goroutines s @
    [GSend (if i \<noteq> [] \<and> om_message_id m = [] then m\<lparr>om_message_id := i\<rparr> else m)
       (suffix_from_routing_key (cf_amqp_binding cfg) rk)]\<rparr>"
  using envelope_is_no_webhook [OF assms(1)] assms by (simp add: deliver_def decode_delivery_def read_envelope)

text \<open>A message with a mention and without a context, as the queue carries it.\<close>

definition mention_message :: outgoing_message where
  "mention_message = zero_message\<lparr>om_type := ''text'', om_to := ''123'', om_mentions := [''551'']\<rparr>"

definition mention_body :: string where
  "mention_body =
     ''{\"payload\":{\"messaging_product\":\"\",\"type\":\"text\",\"to\":\"123\",\"body\":\"\",\"text\":null,'' @
     ''\"image\":null,\"document\":null,\"video\":null,\"audio\":null,\"sticker\":null,\"contacts\":[],'' @
     ''\"media_url\":\"\",\"caption\":\"\",\"session_id\":\"\",\"message_id\":\"\",\"context\":null,'' @
     ''\"mentions\":[\"551\"]},\"id\":\"M9\"}''"

lemma mention_body_parsed: "parse_json mention_body = Some (raw_envelope ''M9'' mention_message)"
proof -
  have "parse_json mention_body = Some (RObj [(''payload'', RObj
     [(''messaging_product'', RStr []), (''type'', RStr ''text''), (''to'', RStr ''123''),
      (''body'', RStr []), (''text'', RNull), (''image'', RNull), (''document'', RNull),
      (''video'', RNull), (''audio'', RNull), (''sticker'', RNull), (''contacts'', RArr []),
      (''media_url'', RStr []), (''caption'', RStr []), (''session_id'', RStr []),
      (''message_id'', RStr []), (''context'', RNull), (''mentions'', RArr [RStr ''551''])]),
      (''id'', RStr ''M9'')])"
    by code_simp
  then show ?thesis
    by (simp add: raw_envelope_def raw_message_def mention_message_def zero_message_def raw_pointer_def raw_strings_def)
qed

theorem delivery_starts_send_witness:
  "length (goroutines (deliver (new_config silent_env) mention_body ''provider.whatsmeow.5562'' idle_sys)) = 1"
  using delivery_starts_send [OF mention_body_parsed, of "new_config silent_env" "''provider.whatsmeow.5562''" idle_sys]
  by (simp add: blank_message_def mention_message_def zero_message_def idle_sys_def new_client_manager_def)

end
