(* ===== verification/Process.thy ===== *)
theory Process
  imports Http Consumer
begin

text \<open>
  The process: the start in cmd/whatsmeow-adapter/main.go, and a step relation whose steps are
  the HTTP requests, the deliveries of the consumer, the events of WhatsApp and the goroutines,
  in any order. Each is atomic here; the theory \<open>Sharing\<close> shows for which variables the locks
  make it so. A panic of a goroutine ends the process; the HTTP server and whatsmeow catch those
  of their handlers.
\<close>

section \<open>The start\<close>

datatype startup = Running_with config | Exit_1

definition manager_of :: "config \<Rightarrow> sys" where
  "manager_of cfg =
     (let s = new_client_manager (cf_session_store cfg) (cf_webhook_base cfg)
        (cf_audio_ptt_default cfg) (cf_reject_calls cfg) (cf_reject_calls_message cfg)
        (cf_auto_mark_read_on_message cfg) (cf_pn_resolver_url cfg) (cf_ignore_status_broadcast cfg)
        (cf_ignore_newsletters cfg) (cf_redis_url cfg) (cf_check_user_exists cfg) in
      if cf_always_online cfg then enable_always_online (seconds (cf_always_online_interval_seconds cfg)) s
      else s)"

definition boot :: "env \<Rightarrow> startup \<times> sys" where
  "boot E =
     (let cfg = new_config E;
          s1 = status_init (\<lambda>u. env_redis_url_error E u = None) (cf_redis_url cfg) (manager_of cfg);
          s2 = snd (restore_saved_sessions E s1) in
      case init_exchange E cfg s2 of
        (Ok _, s3) \<Rightarrow>
          (Running_with cfg,
           snd (init_webhook_publisher E (Some (cf_amqp_url cfg)) (cf_amqp_webhook_exchange cfg) s3))
      | (_, s3) \<Rightarrow> (Exit_1, s3))"

section \<open>Steps\<close>

datatype process = Alive sys | Crashed string

fun run_goroutine :: "env \<Rightarrow> goroutine \<Rightarrow> sys \<Rightarrow> (string, unit) outcome \<times> sys" where
  "run_goroutine E (GConnect sid c) s = (Ok (), run_connect E sid c s)"
| "run_goroutine E (GWatchQr sid c) s = (Ok (), s)"
| "run_goroutine E (GRestore sid) s = (Ok (), snd (connect E sid s))"
| "run_goroutine E (GEndCall c call own dest ms) s = (Ok (), run_end_call E c call own dest s)"
| "run_goroutine E (GMarkRead sid c info) s = (Ok (), mark_read_event E c info s)"
| "run_goroutine E (GSend m phone) s = run_send E m phone s"

definition take_goroutine :: "nat \<Rightarrow> sys \<Rightarrow> sys" where
  "take_goroutine i s = s\<lparr>goroutines := take i (goroutines s) @ drop (Suc i) (goroutines s)\<rparr>"

text \<open>\<open>background\<close> are the steps that no client of the adapter asks for.\<close>

inductive background :: "env \<Rightarrow> process \<Rightarrow> process \<Rightarrow> bool" for E where
  Event: "(c, sid) \<in> set (handlers s) \<Longrightarrow> background E (Alive s) (Alive (snd (handle_event E sid c ev s)))"
| Pairing:
    "GWatchQr sid c \<in> set (goroutines s) \<Longrightarrow> background E (Alive s) (Alive (qr_item_received E sid item s))"
| Run:
    "i < length (goroutines s) \<Longrightarrow>
     run_goroutine E (goroutines s ! i) (take_goroutine i s) = (Ok u, s') \<Longrightarrow>
     background E (Alive s) (Alive s')"
| Run_panic:
    "i < length (goroutines s) \<Longrightarrow>
     run_goroutine E (goroutines s ! i) (take_goroutine i s) = (Panic r, s') \<Longrightarrow>
     background E (Alive s) (Crashed r)"
| Refresh_begin:
    "i < length (refreshers s) \<Longrightarrow> rf_phase (refreshers s ! i) = NotStarted \<Longrightarrow>
     refresher_begin i s = (Ok u, s') \<Longrightarrow> background E (Alive s) (Alive s')"
| Refresh_panic:
    "i < length (refreshers s) \<Longrightarrow> rf_phase (refreshers s ! i) = NotStarted \<Longrightarrow>
     refresher_begin i s = (Panic r, s') \<Longrightarrow> background E (Alive s) (Crashed r)"
| Refresh_tick:
    "i < length (refreshers s) \<Longrightarrow> rf_phase (refreshers s ! i) = Running \<Longrightarrow>
     background E (Alive s) (Alive (refresher_tick E i s))"
| Refresh_done:
    "i < length (refreshers s) \<Longrightarrow> rf_phase (refreshers s ! i) = Running \<Longrightarrow>
     rf_cancelled (refreshers s ! i) \<Longrightarrow> background E (Alive s) (Alive (refresher_done i s))"

inductive step :: "env \<Rightarrow> config \<Rightarrow> process \<Rightarrow> process \<Rightarrow> bool" for E cfg where
  Request: "step E cfg (Alive s) (Alive (snd (serve E ready ep s)))"
| Delivery: "step E cfg (Alive s) (Alive (deliver cfg body rk s))"
| Background: "background E p p' \<Longrightarrow> step E cfg p p'"

inductive reachable :: "env \<Rightarrow> config \<Rightarrow> sys \<Rightarrow> process \<Rightarrow> bool" for E cfg s0 where
  Start: "reachable E cfg s0 (Alive s0)"
| Step: "reachable E cfg s0 p \<Longrightarrow> step E cfg p p' \<Longrightarrow> reachable E cfg s0 p'"

inductive_cases crashed_background: "background E (Crashed r) p"
inductive_cases crashed_steps: "step E cfg (Crashed r) p"
inductive_cases step_crashes: "step E cfg (Alive s) (Crashed r)"

section \<open>What ends the process\<close>

lemma goroutine_panics:
  "is_panic (fst (run_goroutine E g s)) \<longleftrightarrow>
     (\<exists>m phone. g = GSend m phone \<and> is_panic (fst (send E (Some phone) m s)))"
  by (cases g) (auto simp: run_send_def split: prod.split outcome.split)

lemma crashing_background:
  "(\<exists>r. background E (Alive s) (Crashed r)) \<longleftrightarrow>
     (\<exists>i < length (refreshers s). rf_phase (refreshers s ! i) = NotStarted \<and> rf_interval (refreshers s ! i) \<le> 0) \<or>
     (\<exists>i < length (goroutines s). is_panic (fst (run_goroutine E (goroutines s ! i) (take_goroutine i s))))"
    (is "?crash \<longleftrightarrow> ?ticker \<or> ?panic")
proof
  assume ?crash
  then obtain r where "background E (Alive s) (Crashed r)" ..
  then show "?ticker \<or> ?panic"
  proof cases
    case (Run_panic i s')
    then have "is_panic (fst (run_goroutine E (goroutines s ! i) (take_goroutine i s)))" by simp
    with Run_panic(1) show ?thesis by blast
  next
    case (Refresh_panic i s')
    then show ?thesis by (auto simp: refresher_begin_def split: if_splits)
  qed
next
  assume "?ticker \<or> ?panic"
  then show ?crash
  proof
    assume ?ticker
    then obtain i where i: "i < length (refreshers s)" "rf_phase (refreshers s ! i) = NotStarted"
      "rf_interval (refreshers s ! i) \<le> 0" by blast
    show ?crash
      by (rule exI, rule background.Refresh_panic [OF i(1,2)]) (simp add: refresher_begin_def i(3))
  next
    assume ?panic
    then obtain i where i: "i < length (goroutines s)"
      "is_panic (fst (run_goroutine E (goroutines s ! i) (take_goroutine i s)))" by blast
    obtain r s' where "run_goroutine E (goroutines s ! i) (take_goroutine i s) = (Panic r, s')"
      using i(2) by (cases "run_goroutine E (goroutines s ! i) (take_goroutine i s)") (auto elim: is_panic.elims)
    with i(1) show ?crash by (blast intro: background.Run_panic)
  qed
qed

lemma crashing_step: "step E cfg (Alive s) (Crashed r) \<longleftrightarrow> background E (Alive s) (Crashed r)"
  by (blast elim: step_crashes intro: step.Background)

end
