(* ===== verification/Invariants.thy ===== *)
theory Invariants
  imports Process
begin

text \<open>
  Invariants of the process. The locale \<open>session_invariant\<close> says what a predicate on the sessions
  has to be kept by, and gives it for every step and every reachable state. Its instances: the
  environment wins over the configuration in Redis (\<open>env_first\<close>), the sessions and their
  refreshers are consistent (\<open>well_kept\<close>), a refresher that no entry can cancel stays so
  (\<open>lost\<close>), and the LID cache holds no LID (\<open>no_lids\<close>).
\<close>

section \<open>Operations that leave the sessions alone\<close>

named_theorems calms \<open>operations that leave the settled state as it is, and no LID in the LID cache\<close>

lemma status_set_calm [calms]: "calm s (status_set sid v s)"
  by (simp add: status_set_def Let_def)

lemma send_calm [calms]: "calm s (snd (send E ctx m s))"
proof (cases rule: send_cases [of E ctx m s])
  case (sent cli dest ci s1)
  have "sends_one (session_of ctx m) cli m (fits m s) dest s (send E ctx m s)"
    using send_by_type_one [OF sent(4)] sent(6) by simp
  then show ?thesis by (simp add: sends_one_def)
qed (auto simp: extends_calm)

lemma run_send_calm [calms]: "calm s (snd (run_send E m phone s))"
  using send_calm [of s E "Some phone" m] by (auto simp: run_send_def split: prod.splits outcome.splits)

lemma emit_cloud_message_calm [calms]: "calm s (snd (emit_cloud_message E sid c info m s))"
proof (cases rule: emit_cloud_message_cases [of E sid c info m s])
  case (revoked rid s1)
  with calm_trans [OF extends_calm [OF revoked(2)] extends_calm [OF emitters_extend(2)]]
  show ?thesis by simp
next
  case (content from' wire contact m s1)
  with calm_trans [OF extends_calm [OF content(3)] extends_calm [OF deliver_webhook_extends]]
  show ?thesis by simp
qed (auto simp: extends_calm)

lemma emit_cloud_receipt_calm [calms]: "calm s (snd (emit_cloud_receipt E sid ev s))"
  using emitters_extend(1) by (rule extends_calm)

lemma handle_call_rejection_calm [calms]: "calm s (handle_call_rejection E sid c creator call s)"
  using call_rejection by blast

lemma resolve_if_lid_calm: "calm s (snd (resolve_if_lid E c j s))"
  using extends_calm [OF resolve_lid_extends [of s E c j mark_read_attempts]]
  by (auto simp: resolve_if_lid_def split: prod.split option.split)

lemma mark_read_calm [calms]: "calm s (mark_read_event E c info s)"
proof -
  obtain r1 s1 where 1: "resolve_if_lid E c (mi_chat info) s = (r1, s1)" by (metis prod.collapse)
  obtain r2 s2 where 2: "resolve_if_lid E c (effective_sender info) s1 = (r2, s2)" by (metis prod.collapse)
  have "calm s s1" "calm s1 s2"
    using resolve_if_lid_calm [of s E c "mi_chat info"] resolve_if_lid_calm [of s1 E c "effective_sender info"]
    by (simp_all add: 1 2)
  then have "calm s s2" by (rule calm_trans)
  with 1 2 show ?thesis by (simp add: mark_read_event_def time_now_def wa_mark_read_def)
qed

lemma session_calls_calm [calms]:
  "calm s (snd (mkdir_all E p s))" "calm s (snd (open_store E p s))"
  "calm s (snd (first_device E p s))" "calm s (snd (new_client E s))"
  "calm s (snd (qr_channel E c s))" "calm s (snd (is_connected E c s))"
  "calm s (snd (is_logged_in E c s))" "calm s (snd (message_id E c s))"
  "calm s (snd (send_node E c n s))" "calm s (snd (redis_get E p k s))"
  "calm s (snd (wa_connect E c s))" "calm s (snd (stat E p s))"
  by (simp_all add: mkdir_all_def open_store_def first_device_def new_client_def qr_channel_def
      is_connected_def is_logged_in_def message_id_def send_node_def redis_get_def wa_connect_def stat_def)

lemma run_connect_calm [calms]: "calm s (run_connect E sid c s)"
  using calm_trans [OF _ status_set_calm] by (simp add: run_connect_def wa_connect_def split: option.split)

lemma run_end_call_calm [calms]: "calm s (run_end_call E c call own dest s)"
  by (auto simp: run_end_call_def message_id_def send_node_def)

lemma status_calm [calms]: "calm s (snd (status E sid s))"
  by (auto simp: status_def is_connected_def is_logged_in_def split: option.split)

lemma refresher_tick_calm [calms]: "calm s (refresher_tick E i s)"
  by (simp add: refresher_tick_def is_connected_def Let_def split: bool.split)

lemma fetch_calm [calms]: "calm s (snd (fetch_uno_config E url phone s))"
  by (simp add: fetch_uno_config_def redis_get_def split: sum.split)

lemmas status_set_settled = calm_settled [OF status_set_calm]
lemmas fetch_settled = calm_settled [OF fetch_calm]

section \<open>Invariants\<close>

text \<open>
  What an invariant of the sessions has to be kept by: the primitive updates that the steps are
  made of. Everything else follows for every step and every reachable state. A predicate that
  counts goroutines may allow those of the adapter to be started and taken, but no sending
  (\<open>session_steps\<close>); one that does not look at them allows any (\<open>session_invariant\<close>).
\<close>

fun is_send :: "goroutine \<Rightarrow> bool" where
  "is_send (GSend m phone) = True"
| "is_send _ = False"

locale session_updates =
  fixes E :: env and Inv :: "sys \<Rightarrow> bool"
  assumes same: "calm s s' \<Longrightarrow> Inv s \<Longrightarrow> Inv s'"
    and codes: "Inv s \<Longrightarrow> Inv (s\<lparr>qr_by_session := q\<rparr>)"
    and phases: "Inv s \<Longrightarrow> (ph = Ended \<longrightarrow> rf_cancelled (refreshers s ! i)) \<Longrightarrow> i < length (refreshers s) \<Longrightarrow>
      Inv (set_phase i ph s)"
    and started: "Inv s \<Longrightarrow> get_client sid s = None \<Longrightarrow> Inv (start_client E sid c s)"
    and removed: "Inv s \<Longrightarrow> Inv (s\<lparr>m_clients := (m_clients s)(sid := None)\<rparr>)"
    and online: "Inv s \<Longrightarrow> Inv (maybe_start_always_online sid c s)"
    and offline: "Inv s \<Longrightarrow> Inv (stop_always_online sid s)"

locale session_steps = session_updates +
  assumes spawned: "Inv s \<Longrightarrow> \<not> is_send g \<Longrightarrow> Inv (spawn g s)"
    and taken: "Inv s \<Longrightarrow> Inv (take_goroutine i s)"
begin

lemma status_kept: "Inv s \<Longrightarrow> Inv (status_set sid v s)"
  by (rule same [OF status_set_calm])

lemma logged: "Inv s \<Longrightarrow> Inv (log_effect e s)"
  by (rule same) simp_all

lemma connected: "Inv s \<Longrightarrow> Inv (snd (connect E sid s))"
proof (cases "get_client sid s")
  case None
  assume I: "Inv s"
  let ?s = "status_set sid ''connecting'' s"
  have step: "m = (x, s2) \<Longrightarrow> calm s1 (snd m) \<Longrightarrow> Inv s1 \<and> get_client sid s1 = None \<Longrightarrow>
      Inv s2 \<and> get_client sid s2 = None" for m :: "'x \<times> sys" and x s1 s2
    using same [of s1 s2] settled_eqD(1) [OF calm_settled, of s1 s2] by (auto simp: get_client_def)
  have 0: "Inv ?s \<and> get_client sid ?s = None"
    using I None by (intro step [of "((), ?s)" "()" ?s s]) (simp_all add: calms)
  obtain r1 s1 where 1: "mkdir_all E (session_path sid s) ?s = (r1, s1)" by (metis prod.collapse)
  obtain r2 s2 where 2: "open_store E (session_dsn sid s) s1 = (r2, s2)" by (metis prod.collapse)
  obtain r3 s3 where 3: "first_device E (session_dsn sid s) s2 = (r3, s3)" by (metis prod.collapse)
  obtain c s4 where 4: "new_client E s3 = (c, s4)" by (metis prod.collapse)
  obtain r5 s5 where 5: "qr_channel E c s4 = (r5, s5)" by (metis prod.collapse)
  have i1: "Inv s1 \<and> get_client sid s1 = None" by (rule step [OF 1 _ 0]) (rule calms)
  have i2: "Inv s2 \<and> get_client sid s2 = None" by (rule step [OF 2 _ i1]) (rule calms)
  have i3: "Inv s3 \<and> get_client sid s3 = None" by (rule step [OF 3 _ i2]) (rule calms)
  have i4: "Inv s4 \<and> get_client sid s4 = None" by (rule step [OF 4 _ i3]) (rule calms)
  have i5: "Inv s5 \<and> get_client sid s5 = None" by (rule step [OF 5 _ i4]) (rule calms)
  have "get_client sid (spawn g s5) = get_client sid s5" for g by (simp add: get_client_def spawn_def)
  with i5 have "Inv (start_client E sid c (spawn g s5))" if "\<not> is_send g" for g
    using that by (intro started spawned) simp_all
  then show ?thesis
    using i1 i2 i3 i4 i5 started [of s4 sid c]
    by (simp add: connect_def None 1 2 3 4 5 split: option.split sum.split)
qed (simp add: connect_def)

lemma disconnected: "Inv s \<Longrightarrow> Inv (disconnect sid s)"
proof -
  assume "Inv s"
  then have "Inv ((log_effect e s)\<lparr>m_clients := (m_clients (log_effect e s))(sid := None)\<rparr>)" for e
    by (intro removed logged)
  with \<open>Inv s\<close> removed [of s sid] show ?thesis
    by (auto simp: disconnect_def Let_def split: option.split intro!: status_kept)
qed

lemma reloaded: "Inv s \<Longrightarrow> Inv (snd (reload E sid s))"
  using connected [OF disconnected [OF status_kept], of s sid sid sid "''connecting''"]
  by (auto simp: reload_def split: prod.split)

lemma rung: "Inv s \<Longrightarrow> Inv (snd (ring E c dest ms s))"
proof -
  assume "Inv s"
  obtain i1 s1 where 1: "message_id E c (s\<lparr>tick := Suc (tick s)\<rparr>) = (i1, s1)" by (metis prod.collapse)
  obtain i2 s2 where 2: "message_id E c s1 = (i2, s2)" by (metis prod.collapse)
  let ?n = "ECallOffer c i1 i2 (lib_to_non_ad E (env_own_id E (tick s) c)) dest"
  obtain r3 s3 where 3: "send_node E c ?n s2 = (r3, s3)" by (metis prod.collapse)
  have "calm (s\<lparr>tick := Suc (tick s)\<rparr>) s1" "calm s1 s2" "calm s2 s3"
    using session_calls_calm(8) [of "s\<lparr>tick := Suc (tick s)\<rparr>" E c] session_calls_calm(8) [of s1 E c]
      session_calls_calm(9) [of s2 E c ?n] by (simp_all add: 1 2 3)
  moreover have "calm s (s\<lparr>tick := Suc (tick s)\<rparr>)" by simp
  ultimately have "calm s s3" by (blast intro: calm_trans)
  then have "Inv s3" using \<open>Inv s\<close> by (rule same)
  then show ?thesis by (simp add: ring_def Let_def 1 2 3 spawned split: option.split)
qed

lemma called: "Inv s \<Longrightarrow> Inv (snd (fake_call E sid to ms s))"
proof -
  assume I: "Inv s"
  have "is_connected E c s = (b, s1) \<Longrightarrow> Inv s1" for c b s1
    using session_calls_calm(6) [of s E c] same [OF _ I] by simp
  moreover have "is_connected E c s = (b, s1) \<Longrightarrow> is_logged_in E c s1 = (b', s2) \<Longrightarrow> Inv s2" for c b s1 b' s2
    using session_calls_calm(6) [of s E c] session_calls_calm(7) [of s1 E c] same [OF calm_trans I] by simp
  ultimately show ?thesis using I
    by (auto simp: fake_call_def intro!: rung split: outcome.split option.split prod.split bool.split)
qed

lemma served: "Inv s \<Longrightarrow> Inv (snd (serve E ready ep s))"
proof -
  assume I: "Inv s"
  have answer: "snd (answer bad good m) = snd m" for bad :: "string \<Rightarrow> response" and good and m :: "(string, 'x) outcome \<times> sys"
    by (auto simp: answer_def split: prod.split outcome.split)
  show ?thesis
  proof (cases ep)
    case (PostFakeCall sid b)
    then show ?thesis using I
      by (auto simp: handle_fake_call_def Let_def answer split: option.split intro!: called)
  next
    case (GetStatus sid)
    then show ?thesis using same [OF status_calm I] by (simp add: handle_status_def answer)
  next
    case (GetResolve sid q)
    then show ?thesis using I by (simp add: handle_resolve_def Let_def answer)
  qed (use I in \<open>simp_all add: handle_connect_def handle_disconnect_def handle_reload_def handle_qr_def
      answer connected disconnected reloaded\<close>)
qed

lemma handled: "Inv s \<Longrightarrow> Inv (snd (handle_event E sid c ev s))"
proof -
  assume I: "Inv s"
  show ?thesis
  proof (cases ev)
    case (EvMessage info m)
    obtain r s1 where e: "emit_cloud_message E sid c info m s = (r, s1)" by (metis prod.collapse)
    then have "Inv s1" using same [OF emit_cloud_message_calm I] by (metis snd_conv)
    then show ?thesis
      by (cases r) (simp_all add: EvMessage handle_message_def e spawned)
  next
    case (EvReceipt rc)
    obtain r s1 where e: "emit_cloud_receipt E sid rc s = (r, s1)" by (metis prod.collapse)
    then have "Inv s1" using same [OF emit_cloud_receipt_calm I] by (metis snd_conv)
    then show ?thesis by (cases r) (simp_all add: EvReceipt e)
  qed (use I same [OF handle_call_rejection_calm I] in
      \<open>simp_all add: online offline status_kept send_presence_def logged\<close>)
qed

lemma ran: "Inv s \<Longrightarrow> Inv (snd (run_goroutine E g s))"
  by (cases g) (simp_all add: connected same [OF run_connect_calm] same [OF run_end_call_calm]
      same [OF mark_read_calm] same [OF run_send_calm])

lemma coded: "Inv s \<Longrightarrow> Inv (qr_item_received E sid item s)"
proof -
  assume I: "Inv s"
  then have "Inv (s\<lparr>tick := t, qr_by_session := q\<rparr>)" for t q
    by (intro codes) (rule same [OF _ I], simp)
  with I show ?thesis
    by (auto simp: qr_item_received_def time_now_def Let_def intro!: codes status_kept)
qed

lemma background_kept:
  assumes "background E (Alive s) (Alive s')" "Inv s"
  shows "Inv s'"
  using assms(1)
proof cases
  case Run
  with ran taken [OF assms(2)] show ?thesis by (metis snd_conv)
next
  case (Refresh_begin i u)
  then have s': "s' = set_phase i Running (log_effect (EPresence (rf_client (refreshers s ! i))) s)"
    by (auto simp: refresher_begin_def split: if_splits)
  show ?thesis unfolding s' using Refresh_begin(1) assms(2)
    by (intro phases logged) (simp_all add: log_effect_def)
next
  case Refresh_tick
  then show ?thesis using same [OF refresher_tick_calm assms(2)] by simp
next
  case Refresh_done
  then show ?thesis using phases [OF assms(2)] by (simp add: refresher_done_def)
qed (use assms(2) in \<open>auto intro: handled coded\<close>)

end

locale session_invariant = session_updates +
  assumes goroutines: "Inv s \<Longrightarrow> Inv (s\<lparr>goroutines := gs\<rparr>)"

sublocale session_invariant \<subseteq> session_steps
  by unfold_locales (simp_all add: spawn_def take_goroutine_def goroutines)

context session_invariant
begin

lemma delivered: "Inv s \<Longrightarrow> Inv (deliver cfg body rk s)"
  by (simp add: deliver_def goroutines split: option.split)

lemma stepped:
  assumes "step E cfg (Alive s) (Alive s')" "Inv s"
  shows "Inv s'"
  using assms(1)
proof cases
  case Background
  with assms(2) show ?thesis by (blast intro: background_kept)
qed (use assms(2) in \<open>auto intro: served delivered\<close>)

lemma reached:
  assumes "reachable E cfg s0 p" "Inv s0"
  shows "case p of Alive s \<Rightarrow> Inv s | Crashed r \<Rightarrow> True"
  using assms(1)
proof induction
  case (Step p p')
  show ?case
  proof (cases p)
    case (Alive s)
    with Step stepped [of cfg s] show ?thesis by (cases p') auto
  next
    case (Crashed r)
    with Step(2) show ?thesis by (auto elim: crashed_steps crashed_background)
  qed
qed (simp add: assms(2))

end

section \<open>The environment wins\<close>

text \<open>
  The settings that are fixed at the start, and the overrides that the environment forbids.
\<close>

type_synonym settings = "bool \<times> string \<times> bool \<times> bool \<times> bool \<times> bool \<times> int"

definition fixed_settings :: "sys \<Rightarrow> settings" where
  "fixed_settings s =
     (m_reject_calls s, m_reject_msg s, m_auto_mark_read s, m_ignore_status_broadcast s,
      m_ignore_newsletters s, m_always_online s, m_always_online_every s)"

lemma fixed_settings_settled:
  assumes "settled s' = settled s"
  shows "fixed_settings s' = fixed_settings s"
proof -
  have "m_always_online_every (settled s) = m_always_online_every s" for s :: sys
    by (simp add: settled_def)
  then have "m_always_online_every s' = m_always_online_every s" using assms by metis
  then show ?thesis by (simp add: fixed_settings_def settled_eqD [OF assms])
qed

lemma fixed_settings_update [simp]:
  "fixed_settings (s\<lparr>goroutines := gs\<rparr>) = fixed_settings s"
  "fixed_settings (s\<lparr>tick := t\<rparr>) = fixed_settings s"
  by (simp_all add: fixed_settings_def)

definition respects_env :: "env \<Rightarrow> session_overrides \<Rightarrow> bool" where
  "respects_env E ov \<longleftrightarrow>
     (is_set E ''REJECT_CALLS'' \<longrightarrow> ov_reject_calls ov = None) \<and>
     (is_set E ''REJECT_CALLS_MESSAGE'' \<longrightarrow> ov_reject_msg ov = None) \<and>
     (is_set E ''MARK_READ_ON_MESSAGE'' \<longrightarrow> ov_auto_mark_read ov = None) \<and>
     (is_set E ''IGNORE_STATUS_BROADCAST'' \<longrightarrow> ov_ignore_status_broadcast ov = None) \<and>
     (is_set E ''IGNORE_NEWSLETTERS'' \<longrightarrow> ov_ignore_newsletters ov = None) \<and>
     (is_set E ''ALWAYS_ONLINE'' \<longrightarrow> ov_always_online ov = None \<and> ov_always_online_every ov = None)"

definition env_wins :: "env \<Rightarrow> settings \<Rightarrow> sys \<Rightarrow> bool" where
  "env_wins E fs s \<longleftrightarrow>
     fixed_settings s = fs \<and> (\<forall>sid ov. m_overrides s sid = Some ov \<longrightarrow> respects_env E ov)"

lemma override_respects_env: "respects_env E ov \<Longrightarrow> respects_env E (override_with E cfg ov)"
  by (simp add: respects_env_def override_with_def unless_set_def Let_def)

lemma no_overrides_respect: "respects_env E no_overrides"
  by (simp add: respects_env_def no_overrides_def)

lemma env_wins_settled:
  assumes "settled s' = settled s" "env_wins E fs s"
  shows "env_wins E fs s'"
  using assms(2) by (simp add: env_wins_def fixed_settings_settled [OF assms(1)] settled_eqD(3) [OF assms(1)])

lemma env_wins_update [simp]:
  "env_wins E fs (s\<lparr>goroutines := gs\<rparr>) = env_wins E fs s"
  "env_wins E fs (s\<lparr>qr_by_session := q\<rparr>) = env_wins E fs s"
  "env_wins E fs (s\<lparr>refreshers := rs\<rparr>) = env_wins E fs s"
  "env_wins E fs (s\<lparr>m_clients := cs\<rparr>) = env_wins E fs s"
  "env_wins E fs (s\<lparr>handlers := hs\<rparr>) = env_wins E fs s"
  by (simp_all add: env_wins_def fixed_settings_def)

lemma env_wins_load: "env_wins E fs s \<Longrightarrow> env_wins E fs (load_session_overrides E sid s)"
proof -
  assume I: "env_wins E fs s"
  obtain r s1 where f: "fetch_uno_config E (m_redis_url s) (digits_only sid) s = (r, s1)" by (metis prod.collapse)
  then have "env_wins E fs s1" using env_wins_settled [OF fetch_settled I] by (metis snd_conv)
  then have "env_wins E fs (set_overrides sid (override_with E cfg
      (case m_overrides s1 sid of Some ov \<Rightarrow> ov | None \<Rightarrow> no_overrides)) s1)" for cfg
    by (auto simp: env_wins_def fixed_settings_def intro!: override_respects_env no_overrides_respect
        split: option.split)
  with I \<open>env_wins E fs s1\<close> show ?thesis
    by (simp add: load_session_overrides_def Let_def f split: option.split)
qed

lemma start_client_eq:
  "start_client E sid c s =
     (let s1 = load_session_overrides E sid s in
      s1\<lparr>handlers := handlers s1 @ [(c, sid)], m_clients := (m_clients s1)(sid \<mapsto> new_entry c sid s1),
         goroutines := goroutines s1 @ [GConnect sid c]\<rparr>)"
  by (simp add: start_client_def register_event_handlers_def spawn_def new_entry_def session_dsn_def
      session_path_def Let_def)

lemmas presence_defs =
  maybe_start_always_online_def stop_always_online_def cancel_refresher_def set_presence_cancel_def
  set_phase_def

interpretation env_first: session_invariant E "env_wins E fs" for E fs
proof
  show "env_wins E fs (set_phase i ph s)" if "env_wins E fs s" for i ph s
    using that by (simp add: set_phase_def)
  show "env_wins E fs (start_client E sid c s)" if "env_wins E fs s" for sid c s
    using env_wins_load [OF that] by (simp add: start_client_eq Let_def)
  show "env_wins E fs (maybe_start_always_online sid c s)" "env_wins E fs (stop_always_online sid s)"
    if "env_wins E fs s" for sid c s
    using that by (simp_all add: presence_defs Let_def split: option.split)
qed (auto intro: env_wins_settled calm_settled)

section \<open>Sessions, handlers and refreshers\<close>

text \<open>
  Every session in the map has a client whose events are handled for it; a refresher that an
  entry can cancel exists, is not cancelled yet, and belongs to no other entry.
\<close>

definition owns :: "sys \<Rightarrow> string \<Rightarrow> nat \<Rightarrow> bool" where
  "owns s sid i \<longleftrightarrow> (\<exists>ent. m_clients s sid = Some ent \<and> ce_presence_cancel ent = Some i)"

definition entry_ok :: "sys \<Rightarrow> string \<Rightarrow> client_entry \<Rightarrow> bool" where
  "entry_ok s sid ent \<longleftrightarrow>
     ce_session ent = sid \<and> (\<exists>c. ce_client ent = Some c \<and> (c, sid) \<in> set (handlers s))"

definition sessions_ok :: "sys \<Rightarrow> bool" where
  "sessions_ok s \<longleftrightarrow>
     (\<forall>sid ent. m_clients s sid = Some ent \<longrightarrow> entry_ok s sid ent) \<and>
     (\<forall>sid i. owns s sid i \<longrightarrow> i < length (refreshers s) \<and> \<not> rf_cancelled (refreshers s ! i) \<and>
        rf_phase (refreshers s ! i) \<noteq> Ended) \<and>
     (\<forall>sid sid' i. owns s sid i \<longrightarrow> owns s sid' i \<longrightarrow> sid = sid')"

text \<open>A refresher that no entry can cancel, and that has not been.\<close>

definition orphan :: "nat \<Rightarrow> sys \<Rightarrow> bool" where
  "orphan i s \<longleftrightarrow>
     i < length (refreshers s) \<and> \<not> rf_cancelled (refreshers s ! i) \<and>
     rf_phase (refreshers s ! i) \<noteq> Ended \<and> (\<forall>sid. \<not> owns s sid i)"

lemma owns_update [simp]:
  "owns (s\<lparr>goroutines := gs\<rparr>) = owns s" "owns (s\<lparr>qr_by_session := q\<rparr>) = owns s"
  "owns (s\<lparr>refreshers := rs\<rparr>) = owns s" "owns (s\<lparr>handlers := hs\<rparr>) = owns s"
  by (simp_all add: owns_def fun_eq_iff)

lemma owns_settled:
  assumes "settled s' = settled s"
  shows "owns s' = owns s"
  by (simp add: owns_def fun_eq_iff settled_eqD(1) [OF assms])

lemma owns_clients:
  "owns (s\<lparr>m_clients := (m_clients s)(sid := None)\<rparr>) sid' i \<longleftrightarrow> sid' \<noteq> sid \<and> owns s sid' i"
  "owns (s\<lparr>m_clients := (m_clients s)(sid \<mapsto> ent)\<rparr>) sid' i \<longleftrightarrow>
     (if sid' = sid then ce_presence_cancel ent = Some i else owns s sid' i)"
  by (auto simp: owns_def)

lemma load_keeps:
  "m_clients (load_session_overrides E sid s) = m_clients s"
  "refreshers (load_session_overrides E sid s) = refreshers s"
  "handlers (load_session_overrides E sid s) = handlers s"
proof -
  obtain r s1 where f: "fetch_uno_config E (m_redis_url s) (digits_only sid) s = (r, s1)" by (metis prod.collapse)
  then have s1: "settled s1 = settled s" using fetch_settled by (metis snd_conv)
  have "m_clients (set_overrides sid ov t) = m_clients t" "refreshers (set_overrides sid ov t) = refreshers t"
    "handlers (set_overrides sid ov t) = handlers t" for ov t
    by (simp_all add: set_overrides_def)
  then show "m_clients (load_session_overrides E sid s) = m_clients s"
    "refreshers (load_session_overrides E sid s) = refreshers s"
    "handlers (load_session_overrides E sid s) = handlers s"
    by (simp_all add: load_session_overrides_def Let_def f settled_eqD [OF s1]
        split: option.split)
qed

lemma sessions_ok_settled:
  assumes "settled s' = settled s" "sessions_ok s"
  shows "sessions_ok s'"
  using assms(2)
  by (simp add: sessions_ok_def entry_ok_def owns_settled [OF assms(1)] settled_eqD [OF assms(1)])

lemma orphan_settled:
  assumes "settled s' = settled s" "orphan i s"
  shows "orphan i s'"
  using assms(2) by (simp add: orphan_def owns_settled [OF assms(1)] settled_eqD [OF assms(1)])

lemma phase_keeps [simp]:
  "m_clients (set_phase i ph s) = m_clients s" "handlers (set_phase i ph s) = handlers s"
  "length (refreshers (set_phase i ph s)) = length (refreshers s)" "owns (set_phase i ph s) = owns s"
  by (simp_all add: set_phase_def)

lemma phase_refresher:
  "j < length (refreshers s) \<Longrightarrow> refreshers (set_phase i ph s) ! j =
     (if j = i then (refreshers s ! i)\<lparr>rf_phase := ph\<rparr> else refreshers s ! j)"
  by (simp add: set_phase_def nth_list_update)

lemma cancel_keeps [simp]:
  "m_clients (cancel_refresher c s) = m_clients s" "handlers (cancel_refresher c s) = handlers s"
  "length (refreshers (cancel_refresher c s)) = length (refreshers s)" "owns (cancel_refresher c s) = owns s"
  by (simp_all add: cancel_refresher_def split: option.split)

lemma cancel_refresher_at:
  "j < length (refreshers s) \<Longrightarrow> refreshers (cancel_refresher c s) ! j =
     (if c = Some j then (refreshers s ! j)\<lparr>rf_cancelled := True\<rparr> else refreshers s ! j)"
  by (auto simp: cancel_refresher_def nth_list_update split: option.split)

text \<open>Starting and stopping, from the entry they find.\<close>

lemma maybe_start_cases:
  obtains (idle) "maybe_start_always_online sid c s = s"
  | (started) ent rs where "m_clients s sid = Some ent" "ce_client ent \<noteq> None"
      "rs = refreshers (cancel_refresher (ce_presence_cancel ent) s)"
      "maybe_start_always_online sid c s =
         s\<lparr>refreshers := rs @ [\<lparr>rf_client = c, rf_interval = online_every sid s, rf_cancelled = False,
              rf_phase = NotStarted\<rparr>],
           m_clients := (m_clients s)(sid \<mapsto> ent\<lparr>ce_presence_cancel := Some (length rs)\<rparr>)\<rparr>"
proof (cases "m_clients s sid")
  case None
  show ?thesis by (rule idle) (simp add: None maybe_start_always_online_def)
next
  case (Some ent)
  show ?thesis
  proof (cases "should_be_online sid s \<and> ce_client ent \<noteq> None")
    case True
    with Some show ?thesis
      by (intro started [OF Some _ refl])
        (auto simp: presence_defs Let_def split: option.split)
  next
    case False
    with Some show ?thesis by (intro idle) (auto simp: maybe_start_always_online_def)
  qed
qed

lemma stop_cases:
  obtains (idle) "stop_always_online sid s = s" "\<And>i. \<not> owns s sid i"
  | (stopped) ent i where "m_clients s sid = Some ent" "ce_presence_cancel ent = Some i"
      "stop_always_online sid s =
         s\<lparr>refreshers := refreshers (cancel_refresher (Some i) s),
           m_clients := (m_clients s)(sid \<mapsto> ent\<lparr>ce_presence_cancel := None\<rparr>)\<rparr>"
proof (cases "m_clients s sid")
  case None
  show ?thesis by (rule idle) (simp_all add: None stop_always_online_def owns_def)
next
  case (Some ent)
  then show ?thesis
    by (cases "ce_presence_cancel ent")
      (auto simp: presence_defs owns_def intro: idle stopped)
qed

text \<open>Both invariants survive a change of the entry of one session.\<close>

lemma sessions_okI:
  assumes "\<And>sid ent. m_clients s sid = Some ent \<Longrightarrow> entry_ok s sid ent"
    and "\<And>sid i. owns s sid i \<Longrightarrow> i < length (refreshers s)"
    and "\<And>sid i. owns s sid i \<Longrightarrow> \<not> rf_cancelled (refreshers s ! i) \<and> rf_phase (refreshers s ! i) \<noteq> Ended"
    and "\<And>sid sid' i. owns s sid i \<Longrightarrow> owns s sid' i \<Longrightarrow> sid = sid'"
  shows "sessions_ok s"
  using assms unfolding sessions_ok_def by blast

lemma sessions_okD:
  assumes "sessions_ok s"
  shows "m_clients s sid = Some ent \<Longrightarrow> entry_ok s sid ent"
    "owns s sid i \<Longrightarrow> i < length (refreshers s)" "owns s sid i \<Longrightarrow> \<not> rf_cancelled (refreshers s ! i) \<and> rf_phase (refreshers s ! i) \<noteq> Ended"
    "owns s sid i \<Longrightarrow> owns s sid' i \<Longrightarrow> sid = sid'"
  using assms unfolding sessions_ok_def by blast+

lemma entry_ok_update [simp]:
  "entry_ok (s\<lparr>refreshers := rs\<rparr>) = entry_ok s" "entry_ok (s\<lparr>m_clients := cs\<rparr>) = entry_ok s"
  "entry_ok s sid (ent\<lparr>ce_presence_cancel := x\<rparr>) = entry_ok s sid ent"
  by (simp_all add: entry_ok_def fun_eq_iff)

lemma sessions_ok_start: "sessions_ok s \<Longrightarrow> sessions_ok (maybe_start_always_online sid c s)"
proof (cases rule: maybe_start_cases [of sid c s])
  case (started ent rs)
  assume ok: "sessions_ok s"
  let ?n = "length rs"
  have rs: "length rs = length (refreshers s)"
    "j < length rs \<Longrightarrow> ce_presence_cancel ent \<noteq> Some j \<Longrightarrow> rs ! j = refreshers s ! j" for j
    using started(3) by (auto simp: cancel_refresher_at)
  have mine: "ce_presence_cancel ent = Some i \<Longrightarrow> owns s sid i" for i
    using started(1) by (simp add: owns_def)
  show ?thesis
    unfolding started(4)
  proof (rule sessions_okI)
    fix sid' i
    let ?s = "s\<lparr>refreshers := rs @ [\<lparr>rf_client = c, rf_interval = online_every sid s, rf_cancelled = False,
        rf_phase = NotStarted\<rparr>], m_clients := (m_clients s)(sid \<mapsto> ent\<lparr>ce_presence_cancel := Some ?n\<rparr>)\<rparr>"
    have own: "owns ?s sid' i \<longleftrightarrow> (if sid' = sid then i = ?n else owns s sid' i)" for sid' i
      by (auto simp: owns_def)
    show "i < length (refreshers ?s)" if "owns ?s sid' i"
      using that [unfolded own] sessions_okD(2) [OF ok, of sid' i] rs(1) by (auto split: if_splits)
    show "\<not> rf_cancelled (refreshers ?s ! i) \<and> rf_phase (refreshers ?s ! i) \<noteq> Ended" if "owns ?s sid' i"
    proof (cases "sid' = sid")
      case True
      with that [unfolded own] show ?thesis by simp
    next
      case False
      with that [unfolded own] have o: "owns s sid' i" by simp
      with False mine [of i] sessions_okD(4) [OF ok o] have "ce_presence_cancel ent \<noteq> Some i" by blast
      with sessions_okD(2,3) [OF ok o] rs show ?thesis by (simp add: nth_append)
    qed
    show "sid' = sid''" if "owns ?s sid' i" "owns ?s sid'' i" for sid''
      using that [unfolded own] sessions_okD(2) [OF ok, of sid' i] sessions_okD(2) [OF ok, of sid'' i]
        sessions_okD(4) [OF ok, of sid' i sid''] rs(1) by (auto split: if_splits)
  qed (use sessions_okD(1) [OF ok] started(1) in \<open>auto split: if_splits\<close>)
qed simp

lemma sessions_ok_stop: "sessions_ok s \<Longrightarrow> sessions_ok (stop_always_online sid s)"
proof (cases rule: stop_cases [of sid s])
  case (stopped ent i)
  assume ok: "sessions_ok s"
  have mine: "owns s sid i" using stopped(1,2) by (simp add: owns_def)
  let ?s = "s\<lparr>refreshers := refreshers (cancel_refresher (Some i) s),
      m_clients := (m_clients s)(sid \<mapsto> ent\<lparr>ce_presence_cancel := None\<rparr>)\<rparr>"
  have own: "owns ?s sid' j \<longleftrightarrow> sid' \<noteq> sid \<and> owns s sid' j" for sid' j
    by (auto simp: owns_def)
  show ?thesis
    unfolding stopped(3)
  proof (rule sessions_okI)
    fix sid' j assume o: "owns ?s sid' j"
    then have o': "owns s sid' j" "sid' \<noteq> sid" unfolding own by simp_all
    with mine sessions_okD(4) [OF ok] have "j \<noteq> i" by blast
    with o' sessions_okD(2,3) [OF ok] show "\<not> rf_cancelled (refreshers ?s ! j) \<and> rf_phase (refreshers ?s ! j) \<noteq> Ended" "j < length (refreshers ?s)"
      by (auto simp: cancel_refresher_at)
  next
    fix sid' sid'' j assume "owns ?s sid' j" "owns ?s sid'' j"
    then show "sid' = sid''" unfolding own using sessions_okD(4) [OF ok] by blast
  qed (use sessions_okD(1) [OF ok] stopped(1) in \<open>auto split: if_splits\<close>)
qed simp

lemma sessions_ok_connect:
  assumes "sessions_ok s"
  shows "sessions_ok (start_client E sid c s)"
proof (rule sessions_okI)
  let ?s = "start_client E sid c s"
  have own: "owns ?s sid' i \<longleftrightarrow> sid' \<noteq> sid \<and> owns s sid' i" for sid' i
    by (simp add: start_client_eq Let_def owns_def load_keeps new_entry_def)
  show "i < length (refreshers ?s)" "\<not> rf_cancelled (refreshers ?s ! i) \<and> rf_phase (refreshers ?s ! i) \<noteq> Ended"
    if "owns ?s sid' i" for sid' i
    using that [unfolded own] sessions_okD(2,3) [OF assms, of sid' i]
    by (simp_all add: start_client_eq Let_def load_keeps)
  show "sid' = sid''" if "owns ?s sid' i" "owns ?s sid'' i" for sid' sid'' i
    using that [unfolded own] sessions_okD(4) [OF assms] by blast
  show "entry_ok ?s sid' ent" if "m_clients ?s sid' = Some ent" for sid' ent
    using that sessions_okD(1) [OF assms, of sid' ent]
    by (auto simp: start_client_eq Let_def entry_ok_def load_keeps new_entry_def split: if_splits)
qed

interpretation well_kept: session_invariant E sessions_ok for E
proof
  show "sessions_ok (set_phase i ph s)"
    if "sessions_ok s" "ph = Ended \<longrightarrow> rf_cancelled (refreshers s ! i)" "i < length (refreshers s)" for i ph s
    using sessions_okD [OF that(1)] that(2)
    by (intro sessions_okI) (auto simp: phase_refresher entry_ok_def)
  show "sessions_ok (s\<lparr>m_clients := (m_clients s)(sid := None)\<rparr>)" if "sessions_ok s" for s sid
    using sessions_okD [OF that] by (intro sessions_okI) (auto simp: owns_clients split: if_splits)
  show "sessions_ok (s\<lparr>goroutines := gs\<rparr>)" "sessions_ok (s\<lparr>qr_by_session := q\<rparr>)" if "sessions_ok s" for s gs q
    using that by (simp_all add: sessions_ok_def entry_ok_def)
qed (auto intro: sessions_ok_settled [OF calm_settled] sessions_ok_start sessions_ok_stop sessions_ok_connect)

interpretation lost: session_invariant E "orphan k" for E k
proof
  show "orphan k (set_phase i ph s)"
    if "orphan k s" "ph = Ended \<longrightarrow> rf_cancelled (refreshers s ! i)" for i ph s
    using that by (auto simp: orphan_def phase_refresher)
  show "orphan k (s\<lparr>m_clients := (m_clients s)(sid := None)\<rparr>)" if "orphan k s" for s sid
    using that by (simp add: orphan_def owns_clients)
  show "orphan k (s\<lparr>goroutines := gs\<rparr>)" "orphan k (s\<lparr>qr_by_session := q\<rparr>)" if "orphan k s" for s gs q
    using that by (simp_all add: orphan_def)
  show "orphan k (start_client E sid c s)" if "orphan k s" for sid c s
    using that by (auto simp: orphan_def start_client_eq Let_def load_keeps owns_def new_entry_def)
  show "orphan k (maybe_start_always_online sid c s)" if "orphan k s" for sid c s
  proof (cases rule: maybe_start_cases [of sid c s])
    case (started ent rs)
    from started(1) that have "ce_presence_cancel ent \<noteq> Some k" by (auto simp: orphan_def owns_def)
    with started(3) that show ?thesis
      unfolding started(4) by (auto simp: orphan_def owns_def nth_append cancel_refresher_at)
  qed (simp add: that)
  show "orphan k (stop_always_online sid s)" if "orphan k s" for sid s
  proof (cases rule: stop_cases [of sid s])
    case (stopped ent i)
    with that have "i \<noteq> k" by (auto simp: orphan_def owns_def)
    with that show ?thesis
      unfolding stopped(3) by (auto simp: orphan_def owns_def cancel_refresher_at)
  qed (simp add: that)
qed (auto intro: orphan_settled [OF calm_settled])

section \<open>The LID cache\<close>

text \<open>No step puts a LID into the LID cache: what it gives for a LID is a phone-number JID.\<close>

lemma start_client_lids: "lid_ad_cache (start_client E sid c s) = lid_ad_cache s"
  by (simp add: start_client_eq Let_def load_session_overrides_def fetch_uno_config_def redis_get_def
      log_effect_def set_overrides_def split: option.split sum.split)

interpretation no_lids: session_invariant E lids_resolved for E
proof
  show "lids_resolved (start_client E sid c s)" if "lids_resolved s" for sid c s
    using that start_client_lids lids_resolved_cache by metis
  show "lids_resolved (maybe_start_always_online sid c s)" "lids_resolved (stop_always_online sid s)"
    if "lids_resolved s" for sid c s
    using that by (simp_all add: lids_resolved_def presence_defs Let_def split: option.split)
  show "lids_resolved s'" if "calm s s'" "lids_resolved s" for s s' using that by (rule calm_lids)
qed (simp_all add: set_phase_def lids_resolved_def)

section \<open>The start satisfies the invariants\<close>

text \<open>The start changes no part of the manager that the invariants are about.\<close>

definition kept_parts :: "sys \<Rightarrow> (string \<rightharpoonup> client_entry) \<times> (string \<rightharpoonup> session_overrides) \<times> settings" where
  "kept_parts s = (m_clients s, m_overrides s, fixed_settings s)"

lemma kept_parts_settled: "settled s = settled (s'\<lparr>goroutines := g\<rparr>) \<Longrightarrow> kept_parts s = kept_parts s'"
  using settled_eqD(1,3) [of s "s'\<lparr>goroutines := g\<rparr>"] fixed_settings_settled [of s "s'\<lparr>goroutines := g\<rparr>"]
  by (simp add: kept_parts_def)

lemma kept_parts_settled': "settled s = settled s' \<Longrightarrow> kept_parts s = kept_parts s'"
  using kept_parts_settled [where g = "goroutines s'" and s = s and s' = s'] by simp

lemma restore_entries_settled:
  "settled (snd (restore_entries E es s)) = settled (s\<lparr>goroutines := goroutines (snd (restore_entries E es s))\<rparr>)"
proof (induction E es s rule: restore_entries.induct)
  case (2 E name is_dir es s)
  then show ?case
    by (cases is_dir)
      (auto simp: stat_def spawn_def settled_def split: option.split prod.split)
qed simp

lemma restore_keeps: "kept_parts (snd (restore_saved_sessions E s)) = kept_parts s"
proof -
  have "kept_parts (s\<lparr>tick := n\<rparr>) = kept_parts s" for n by (simp add: kept_parts_def fixed_settings_def)
  then show ?thesis
    using kept_parts_settled [OF restore_entries_settled]
    by (simp add: restore_saved_sessions_def split: sum.split)
qed

lemma init_exchange_calm: "calm s (snd (init_exchange E cfg s))"
  by (simp add: init_exchange_def or_fail_def declare_queue_def amqp_dial_def amqp_channel_def
      amqp_declare_def queue_declare_def queue_bind_def split: sum.split option.split)

lemma init_publisher_keeps: "kept_parts (snd (init_webhook_publisher E url ex s)) = kept_parts s"
proof -
  have "kept_parts (s\<lparr>webhook_pub_once := b\<rparr>) = kept_parts s" for b
    by (simp add: kept_parts_def fixed_settings_def)
  moreover have "kept_parts (s\<lparr>webhook_pub := b\<rparr>) = kept_parts s" for b and s :: sys
    by (simp add: kept_parts_def fixed_settings_def)
  moreover have "kept_parts s'' = kept_parts s'" if "ensure E p s' = (e, p', s'')" for p p' e s' s''
    using kept_parts_settled' [OF extends_settled [OF ensure_extends [of s' E p]]] that by simp
  ultimately show ?thesis
    by (simp add: init_webhook_publisher_def Let_def split: prod.split)
qed

lemma boot_state:
  "m_clients (snd (boot E)) = Map.empty \<and> m_overrides (snd (boot E)) = Map.empty \<and>
   fixed_settings (snd (boot E)) = fixed_settings (manager_of (new_config E))"
proof -
  have "kept_parts (status_init ok url s) = kept_parts s" for ok url s
    by (simp add: status_init_def kept_parts_def fixed_settings_def)
  moreover have "kept_parts s3 = kept_parts s2" if "init_exchange E cfg s2 = (r, s3)" for cfg r s2 s3
    using kept_parts_settled' [OF calm_settled [OF init_exchange_calm [of s2 E cfg]]] that by simp
  ultimately have "kept_parts (snd (boot E)) = kept_parts (manager_of (new_config E))"
    by (auto simp: boot_def Let_def init_publisher_keeps restore_keeps split: prod.split outcome.split)
  moreover have "m_clients (manager_of cfg) = Map.empty" "m_overrides (manager_of cfg) = Map.empty" for cfg
    by (simp_all add: manager_of_def Let_def new_client_manager_def enable_always_online_def)
  ultimately show ?thesis by (simp add: kept_parts_def)
qed

text \<open>The period of the presence that the environment gives: none without \<open>ALWAYS_ONLINE\<close>.\<close>

definition online_period :: "config \<Rightarrow> int" where
  "online_period cfg =
     (if cf_always_online cfg then
        (let d = seconds (cf_always_online_interval_seconds cfg) in if d \<le> 0 then 60 * nano else d)
      else 0)"

lemma boot_settings:
  "fixed_settings (snd (boot E)) =
     (cf_reject_calls (new_config E), cf_reject_calls_message (new_config E),
      cf_auto_mark_read_on_message (new_config E), cf_ignore_status_broadcast (new_config E),
      cf_ignore_newsletters (new_config E), cf_always_online (new_config E), online_period (new_config E))"
  unfolding boot_state [THEN conjunct2, THEN conjunct2]
  by (simp add: manager_of_def Let_def new_client_manager_def enable_always_online_def fixed_settings_def online_period_def)

lemma boot_env_wins: "env_wins E (fixed_settings (snd (boot E))) (snd (boot E))"
  by (simp add: env_wins_def boot_state)

lemma boot_sessions_ok: "sessions_ok (snd (boot E))"
  by (simp add: sessions_ok_def owns_def boot_state)

lemma boot_lids_resolved: "lids_resolved (snd (boot E))"
proof -
  have "lids_resolved (status_init ok url s) = lids_resolved s" for ok url s
    by (simp add: status_init_def lids_resolved_def)
  moreover have "lids_resolved s3" if "init_exchange E cfg s2 = (r, s3)" "lids_resolved s2" for cfg r s2 s3
    using calm_lids [OF init_exchange_calm that(2), of E cfg] that(1) by simp
  moreover have "lids_resolved (snd (init_webhook_publisher E url ex s))" if "lids_resolved s" for url ex s
  proof -
    have "lids_resolved (s'\<lparr>webhook_pub_once := b\<rparr>) = lids_resolved s'"
      "lids_resolved (s'\<lparr>webhook_pub := p\<rparr>) = lids_resolved s'" for b p and s' :: sys
      by (simp_all add: lids_resolved_def)
    moreover have "lids_resolved s'' " if "ensure E p s' = (e, p', s'')" "lids_resolved s'" for p p' e s' s''
      using calm_lids [OF extends_calm [OF ensure_extends [of s' E p]] that(2)] that(1) by simp
    ultimately show ?thesis using that
      by (auto simp: init_webhook_publisher_def Let_def split: prod.split)
  qed
  moreover have "lids_resolved (snd (restore_saved_sessions E s)) = lids_resolved s" for s
  proof -
    have "lid_ad_cache (snd (restore_entries E es s)) = lid_ad_cache s" for es s
      by (induction E es s rule: restore_entries.induct)
        (auto simp: stat_def spawn_def split: option.split prod.split)
    then show ?thesis
      by (simp add: restore_saved_sessions_def lids_resolved_def split: sum.split)
  qed
  moreover have "lids_resolved (manager_of cfg)" for cfg
    by (simp add: manager_of_def Let_def new_client_manager_def enable_always_online_def lids_resolved_def)
  ultimately show ?thesis
    by (auto simp: boot_def Let_def split: prod.split outcome.split)
qed

end
