(* ===== verification/Lifecycle.thy ===== *)
theory Lifecycle
  imports Invariants
begin

text \<open>
  The running process from the start of the consumer and the HTTP server to the return of main
  (cmd/whatsmeow-adapter/main.go, \<open>Start\<close> of internal/amqp/consumer.go, \<open>Start\<close> and \<open>Shutdown\<close> of
  internal/http/server.go): the phases of its three goroutines around the state of the manager.
  A delivery needs a consumer that consumes, a request a server that accepted it. The invariants of
  the process hold over the whole life; what ends it, and the reply to a rejected call, follow.

  Of net/http the model has what the code uses: \<open>ListenAndServe\<close> blocks and returns an error when
  it cannot listen or accept, or once \<open>Shutdown\<close> has been called; \<open>Shutdown\<close> closes the
  listener, waits for the requests in flight and returns.
\<close>

section \<open>State\<close>

datatype consumer_phase =
    ConsumerNew
  | ConsumerIdle
  | Consuming conn chan
  | ConsumerReturned "string option"

datatype server_phase = ServerNew | ServerReady | Listening | ServerReturned

datatype main_phase = Waiting | Signalled | Cancelled | Unready | Draining | Exited | Died string

record adapter =
  ap_sys :: sys
  ap_consumer :: consumer_phase
  ap_server :: server_phase
  ap_main :: main_phase
  ap_cancelled :: bool
  ap_ready :: bool
  ap_shutdown :: bool
  ap_requests :: "endpoint list"

text \<open>When the goroutines of the consumer and of the server have been started, and main waits.\<close>

definition launched :: "sys \<Rightarrow> adapter" where
  "launched s =
     \<lparr>ap_sys = s, ap_consumer = ConsumerNew, ap_server = ServerNew, ap_main = Waiting,
      ap_cancelled = False, ap_ready = False, ap_shutdown = False, ap_requests = []\<rparr>"

fun alive :: "main_phase \<Rightarrow> bool" where
  "alive Exited = False"
| "alive (Died r) = False"
| "alive _ = True"

section \<open>The consumer\<close>

text \<open>\<open>Start\<close> up to its loop: without a broker it waits for the end, and on an error it returns.\<close>

definition consumer_start :: "env \<Rightarrow> config \<Rightarrow> adapter \<Rightarrow> adapter" where
  "consumer_start E cfg a =
     (case consumer_setup E cfg (ap_sys a) of
        (Ok None, s) \<Rightarrow> a\<lparr>ap_sys := s, ap_consumer := ConsumerIdle\<rparr>
      | (Ok (Some (conn, ch)), s) \<Rightarrow> a\<lparr>ap_sys := s, ap_consumer := Consuming conn ch\<rparr>
      | (Err e, s) \<Rightarrow> a\<lparr>ap_sys := s, ap_consumer := ConsumerReturned (Some e)\<rparr>
      | (Panic r, s) \<Rightarrow> a\<lparr>ap_sys := s, ap_main := Died r\<rparr>)"

text \<open>
  A turn of its loop. When the context is cancelled and a delivery is there as well, \<open>select\<close>
  takes either.
\<close>

inductive consumer_step :: "env \<Rightarrow> config \<Rightarrow> adapter \<Rightarrow> adapter \<Rightarrow> bool" for E cfg where
  Begin: "ap_consumer a = ConsumerNew \<Longrightarrow> consumer_step E cfg a (consumer_start E cfg a)"
| Idle_end:
    "ap_consumer a = ConsumerIdle \<Longrightarrow> ap_cancelled a \<Longrightarrow>
     consumer_step E cfg a (a\<lparr>ap_consumer := ConsumerReturned None\<rparr>)"
| Stop:
    "ap_consumer a = Consuming conn ch \<Longrightarrow> ap_cancelled a \<Longrightarrow>
     consumer_step E cfg a
       (a\<lparr>ap_sys := consumer_stop conn ch (ap_sys a), ap_consumer := ConsumerReturned None\<rparr>)"
| Deliver:
    "ap_consumer a = Consuming conn ch \<Longrightarrow>
     consumer_step E cfg a (a\<lparr>ap_sys := deliver cfg body rk (ap_sys a)\<rparr>)"
| Closed:
    "ap_consumer a = Consuming conn ch \<Longrightarrow>
     consumer_step E cfg a
       (a\<lparr>ap_consumer := ConsumerReturned (Some ''AMQP deliveries channel closed'')\<rparr>)"

section \<open>The HTTP server\<close>

definition response_to :: "env \<Rightarrow> adapter \<Rightarrow> endpoint \<Rightarrow> response" where
  "response_to E a ep = fst (serve E (ap_ready a) ep (ap_sys a))"

inductive server_step :: "env \<Rightarrow> adapter \<Rightarrow> adapter \<Rightarrow> bool" for E where
  Set_ready:
    "ap_server a = ServerNew \<Longrightarrow> server_step E a (a\<lparr>ap_ready := True, ap_server := ServerReady\<rparr>)"
| Listen:
    "ap_server a = ServerReady \<Longrightarrow> \<not> ap_shutdown a \<Longrightarrow> server_step E a (a\<lparr>ap_server := Listening\<rparr>)"
| Listen_fails: "ap_server a = ServerReady \<Longrightarrow> server_step E a (a\<lparr>ap_server := ServerReturned\<rparr>)"
| Listen_ends: "ap_server a = Listening \<Longrightarrow> server_step E a (a\<lparr>ap_server := ServerReturned\<rparr>)"
| Accept:
    "ap_server a = Listening \<Longrightarrow> \<not> ap_shutdown a \<Longrightarrow>
     server_step E a (a\<lparr>ap_requests := ap_requests a @ [ep]\<rparr>)"
| Answer:
    "i < length (ap_requests a) \<Longrightarrow>
     server_step E a
       (a\<lparr>ap_sys := snd (serve E (ap_ready a) (ap_requests a ! i) (ap_sys a)),
          ap_requests := take i (ap_requests a) @ drop (Suc i) (ap_requests a)\<rparr>)"

section \<open>Main\<close>

text \<open>After the signal: cancel the context, clear the flag, shut the server down, return.\<close>

definition main_step :: "adapter \<Rightarrow> adapter option" where
  "main_step a =
     (case ap_main a of
        Waiting \<Rightarrow> Some (a\<lparr>ap_main := Signalled\<rparr>)
      | Signalled \<Rightarrow> Some (a\<lparr>ap_main := Cancelled, ap_cancelled := True\<rparr>)
      | Cancelled \<Rightarrow> Some (a\<lparr>ap_main := Unready, ap_ready := False\<rparr>)
      | Unready \<Rightarrow> Some (a\<lparr>ap_main := Draining, ap_shutdown := True\<rparr>)
      | Draining \<Rightarrow> if ap_requests a = [] then Some (a\<lparr>ap_main := Exited\<rparr>) else None
      | _ \<Rightarrow> None)"

inductive advance :: "env \<Rightarrow> config \<Rightarrow> adapter \<Rightarrow> adapter \<Rightarrow> bool" for E cfg where
  Consumer: "alive (ap_main a) \<Longrightarrow> consumer_step E cfg a a' \<Longrightarrow> advance E cfg a a'"
| Server: "alive (ap_main a) \<Longrightarrow> server_step E a a' \<Longrightarrow> advance E cfg a a'"
| Main: "main_step a = Some a' \<Longrightarrow> advance E cfg a a'"
| Background:
    "alive (ap_main a) \<Longrightarrow> background E (Alive (ap_sys a)) (Alive s) \<Longrightarrow> advance E cfg a (a\<lparr>ap_sys := s\<rparr>)"
| Crash:
    "alive (ap_main a) \<Longrightarrow> background E (Alive (ap_sys a)) (Crashed r) \<Longrightarrow>
     advance E cfg a (a\<lparr>ap_main := Died r\<rparr>)"

text \<open>The life of the adapter in given surroundings: only when its start did not end it.\<close>

definition lives :: "env \<Rightarrow> config \<Rightarrow> adapter \<Rightarrow> bool" where
  "lives E cfg a \<longleftrightarrow> (\<exists>s. boot E = (Running_with cfg, s) \<and> (advance E cfg)\<^sup>*\<^sup>* (launched s) a)"

inductive_cases consumer_stepE: "consumer_step E cfg a a'"
inductive_cases server_stepE: "server_step E a a'"
inductive_cases advanceE: "advance E cfg a a'"

lemma life_induct [consumes 1, case_names launched advance]:
  assumes "lives E cfg a"
    and "\<And>s. boot E = (Running_with cfg, s) \<Longrightarrow> P (launched s)"
    and "\<And>a a'. lives E cfg a \<Longrightarrow> P a \<Longrightarrow> advance E cfg a a' \<Longrightarrow> P a'"
  shows "P a"
proof -
  obtain s where s: "boot E = (Running_with cfg, s)" "(advance E cfg)\<^sup>*\<^sup>* (launched s) a"
    using assms(1) by (auto simp: lives_def)
  from s(2) show ?thesis
  proof (induction rule: rtranclp_induct)
    case (step a a')
    with s(1) have "lives E cfg a" by (auto simp: lives_def)
    with step assms(3) show ?case by blast
  qed (simp add: s(1) assms(2))
qed

lemma main_step_parts:
  assumes "main_step a = Some a'"
  shows "ap_sys a' = ap_sys a" "ap_consumer a' = ap_consumer a" "ap_server a' = ap_server a"
    "ap_requests a' = ap_requests a"
  using assms by (auto simp: main_step_def split: main_phase.splits if_splits)

lemma server_step_parts:
  assumes "server_step E a a'"
  shows "ap_consumer a' = ap_consumer a" "ap_main a' = ap_main a" "ap_cancelled a' = ap_cancelled a"
    "ap_shutdown a' = ap_shutdown a"
  using assms by (auto elim: server_stepE)

section \<open>What the life keeps of the sessions\<close>

lemma consumer_setup_calm: "calm s (snd (consumer_setup E cfg s))"
  by (simp add: consumer_setup_def or_fail_def declare_queue_def amqp_dial_def amqp_channel_def
      amqp_declare_def queue_declare_def queue_bind_def consume_def split: sum.split option.split)

lemma consumer_setup_no_panic: "consumer_setup E cfg s \<noteq> (Panic r, s')"
  by (auto simp: consumer_setup_def or_fail_def declare_queue_def split: sum.split option.split prod.split)

lemma consumer_start_sys: "ap_sys (consumer_start E cfg a) = snd (consumer_setup E cfg (ap_sys a))"
  by (simp add: consumer_start_def split: prod.split outcome.split option.split)

lemma consumer_start_parts:
  "ap_server (consumer_start E cfg a) = ap_server a" "ap_main (consumer_start E cfg a) = ap_main a"
  "ap_requests (consumer_start E cfg a) = ap_requests a" "ap_ready (consumer_start E cfg a) = ap_ready a"
  "ap_shutdown (consumer_start E cfg a) = ap_shutdown a"
  "ap_cancelled (consumer_start E cfg a) = ap_cancelled a"
  by (auto simp: consumer_start_def consumer_setup_no_panic split: prod.split outcome.split option.split)

lemma consumer_step_parts:
  assumes "consumer_step E cfg a a'"
  shows "ap_server a' = ap_server a" "ap_main a' = ap_main a" "ap_requests a' = ap_requests a"
    "ap_ready a' = ap_ready a" "ap_shutdown a' = ap_shutdown a" "ap_cancelled a' = ap_cancelled a"
  using assms by (auto elim!: consumer_stepE simp: consumer_start_parts)

context session_steps
begin

lemma advanced:
  assumes "advance E cfg a a'" and "Inv (ap_sys a)"
    and "\<And>conn ch body rk. ap_consumer a = Consuming conn ch \<Longrightarrow> Inv (deliver cfg body rk (ap_sys a))"
  shows "Inv (ap_sys a')"
  using assms(1)
proof cases
  case Consumer
  from Consumer(2) show ?thesis
    by cases (use assms(2,3) in \<open>auto simp: consumer_start_sys consumer_stop_def
      intro: logged same [OF consumer_setup_calm]\<close>)
next
  case Server
  from Server(2) show ?thesis by cases (use assms(2) in \<open>auto intro: served\<close>)
next
  case Main
  then show ?thesis using main_step_parts assms(2) by metis
qed (use assms(2) in \<open>auto intro: background_kept\<close>)

end

context session_invariant
begin

lemma lived: "lives E cfg a \<Longrightarrow> Inv (snd (boot E)) \<Longrightarrow> Inv (ap_sys a)"
proof (induction rule: life_induct)
  case (launched s)
  then show ?case by (simp add: launched_def)
next
  case (advance a a')
  then show ?case by (blast intro: advanced delivered)
qed

end

text \<open>The sessions stay consistent, the environment wins and the LID cache holds no LID, until the process ends.\<close>

lemma life_sessions_ok: "lives E cfg a \<Longrightarrow> sessions_ok (ap_sys a)"
  by (rule well_kept.lived [OF _ boot_sessions_ok])

lemma life_env_wins: "lives E cfg a \<Longrightarrow> env_wins E (fixed_settings (snd (boot E))) (ap_sys a)"
  by (rule env_first.lived [OF _ boot_env_wins])

lemma life_lids_resolved: "lives E cfg a \<Longrightarrow> lids_resolved (ap_sys a)"
  by (rule no_lids.lived [OF _ boot_lids_resolved])

section \<open>A consumer that has returned\<close>

definition sendings :: "sys \<Rightarrow> nat" where
  "sendings s = length (filter is_send (goroutines s))"

lemma start_client_sendings: "sendings (start_client E sid c s) = sendings s"
proof -
  obtain r s1 where f: "fetch_uno_config E (m_redis_url s) (digits_only sid) s = (r, s1)" by (metis prod.collapse)
  then have s1: "settled s1 = settled s" using fetch_settled by (metis snd_conv)
  have "goroutines (load_session_overrides E sid s) = goroutines s"
    by (simp add: load_session_overrides_def Let_def f settled_eqD [OF s1] set_overrides_def split: option.split)
  then show ?thesis by (simp add: start_client_eq Let_def sendings_def)
qed

lemma filter_without: "length (filter P (take i xs @ drop (Suc i) xs)) \<le> length (filter P xs)"
proof (cases "i < length xs")
  case True
  then have "filter P xs = filter P (take i xs @ xs ! i # drop (Suc i) xs)"
    by (simp only: id_take_nth_drop [symmetric])
  then show ?thesis by simp
qed simp

interpretation sending: session_steps E "\<lambda>s. sendings s \<le> n" for E n
proof
  show "sendings s' \<le> n" if "calm s s'" "sendings s \<le> n" for s s'
    using that(2) by (simp add: sendings_def settled_eqD [OF calm_settled [OF that(1)]])
  show "sendings (take_goroutine i s) \<le> n" if "sendings s \<le> n" for s i
    using that filter_without [of is_send i "goroutines s"] by (simp add: sendings_def take_goroutine_def)
  show "sendings (maybe_start_always_online sid c s) \<le> n" "sendings (stop_always_online sid s) \<le> n"
    if "sendings s \<le> n" for sid c s
    using that by (simp_all add: sendings_def presence_defs Let_def split: option.split)
qed (simp_all add: start_client_sendings, simp_all add: sendings_def set_phase_def spawn_def)

lemma returned_consumer_advance:
  assumes "advance E cfg a a'" and "ap_consumer a = ConsumerReturned r"
  shows "ap_consumer a' = ConsumerReturned r \<and> sendings (ap_sys a') \<le> sendings (ap_sys a)"
proof
  show "ap_consumer a' = ConsumerReturned r"
    using assms by cases
      (auto elim: consumer_stepE simp: main_step_parts(2) server_step_parts(1))
  show "sendings (ap_sys a') \<le> sendings (ap_sys a)"
    by (rule sending.advanced [OF assms(1)]) (simp_all add: assms(2))
qed

text \<open>
  For examples: a broker that grants everything, the life in which the consumer consumes and the
  server has accepted a readiness probe, and the one in which the broker has ended the deliveries.
\<close>

definition granting_env :: env where
  "granting_env = silent_env\<lparr>env_amqp_dial := (\<lambda>t u. Inr 3), env_amqp_channel := (\<lambda>t c. Inr 4),
     env_amqp_declare := (\<lambda>t c x k. None), env_queue_declare := (\<lambda>t c q. None),
     env_queue_bind := (\<lambda>t c q k x. None), env_consume := (\<lambda>t c q. None)\<rparr>"

definition probed :: adapter where
  "probed =
     (launched (snd (consumer_setup granting_env (new_config granting_env) (snd (boot granting_env)))))
       \<lparr>ap_consumer := Consuming 3 4, ap_server := Listening, ap_ready := True, ap_requests := [GetReady]\<rparr>"

definition abandoned :: adapter where
  "abandoned = probed\<lparr>ap_consumer := ConsumerReturned (Some ''AMQP deliveries channel closed'')\<rparr>"

lemma granting_boots: "fst (boot granting_env) = Running_with (new_config granting_env)"
  by (simp add: boot_def Let_def init_exchange_def or_fail_def declare_queue_def amqp_dial_def amqp_channel_def
      amqp_declare_def queue_declare_def queue_bind_def granting_env_def)

lemma granting_consumes:
  "fst (consumer_setup granting_env (new_config granting_env) s) = Ok (Some (3, 4))"
proof -
  have "cf_amqp_url (new_config granting_env) \<noteq> []"
    by (simp add: new_config_def get_env_def split: option.split)
  then show ?thesis
    by (simp add: consumer_setup_def or_fail_def declare_queue_def amqp_dial_def amqp_channel_def
        amqp_declare_def queue_declare_def queue_bind_def consume_def granting_env_def)
qed

lemma probed_lives: "lives granting_env (new_config granting_env) probed"
proof -
  let ?E = granting_env and ?cfg = "new_config granting_env"
  let ?s = "snd (boot ?E)"
  let ?a1 = "consumer_start ?E ?cfg (launched ?s)"
  let ?a2 = "?a1\<lparr>ap_ready := True, ap_server := ServerReady\<rparr>"
  let ?a3 = "?a2\<lparr>ap_server := Listening\<rparr>"
  have a1: "?a1 = (launched (snd (consumer_setup ?E ?cfg ?s)))\<lparr>ap_consumer := Consuming 3 4\<rparr>"
    using granting_consumes [of ?s]
    by (auto simp: consumer_start_def launched_def split: prod.split)
  have "advance ?E ?cfg (launched ?s) ?a1"
    by (intro advance.Consumer consumer_step.Begin) (simp_all add: launched_def)
  moreover have "advance ?E ?cfg ?a1 ?a2"
    by (intro advance.Server server_step.Set_ready) (simp_all add: consumer_start_parts launched_def)
  moreover have "advance ?E ?cfg ?a2 ?a3"
    by (intro advance.Server server_step.Listen) (simp_all add: consumer_start_parts launched_def)
  moreover have "advance ?E ?cfg ?a3 (?a3\<lparr>ap_requests := ap_requests ?a3 @ [GetReady]\<rparr>)"
    by (intro advance.Server server_step.Accept) (simp_all add: consumer_start_parts launched_def)
  moreover have "?a3\<lparr>ap_requests := ap_requests ?a3 @ [GetReady]\<rparr> = probed"
    unfolding a1 by (simp add: probed_def launched_def)
  ultimately have "(advance ?E ?cfg)\<^sup>*\<^sup>* (launched ?s) probed"
    by (metis (no_types, lifting) rtranclp.rtrancl_into_rtrancl rtranclp.rtrancl_refl)
  then show ?thesis unfolding lives_def using granting_boots by (metis prod.collapse)
qed

lemma abandoned_lives: "lives granting_env (new_config granting_env) abandoned"
proof -
  have "advance granting_env (new_config granting_env) probed abandoned"
    unfolding abandoned_def
    by (intro advance.Consumer consumer_step.Closed [of _ 3 4]) (simp_all add: probed_def launched_def)
  with probed_lives show ?thesis unfolding lives_def by (metis rtranclp.rtrancl_into_rtrancl)
qed

text \<open>
  C7: A consumer that has returned is never started again, for whatever reason it returned: from
  then on no sending is started, although the process goes on and answers its API.
\<close>

theorem consumer_stops_for_good:
  assumes "(advance E cfg)\<^sup>*\<^sup>* a a'" and "ap_consumer a = ConsumerReturned r"
  shows "ap_consumer a' = ConsumerReturned r \<and> sendings (ap_sys a') \<le> sendings (ap_sys a)"
  using assms(1)
proof (induction rule: rtranclp_induct)
  case base
  from assms(2) show ?case by simp
next
  case (step b c)
  with returned_consumer_advance [of E cfg b c r] show ?case by auto
qed

theorem consumer_stops_for_good_witness:
  "ap_consumer (abandoned\<lparr>ap_main := Signalled\<rparr>) = ConsumerReturned (Some ''AMQP deliveries channel closed'')"
proof -
  have "advance silent_env (new_config silent_env) abandoned (abandoned\<lparr>ap_main := Signalled\<rparr>)"
    by (intro advance.Main) (simp add: main_step_def abandoned_def probed_def launched_def)
  then have "(advance silent_env (new_config silent_env))\<^sup>*\<^sup>* abandoned (abandoned\<lparr>ap_main := Signalled\<rparr>)"
    by (rule r_into_rtranclp)
  from consumer_stops_for_good [OF this] show ?thesis by (simp add: abandoned_def)
qed

section \<open>Readiness\<close>

definition serving :: "adapter \<Rightarrow> bool" where
  "serving a \<longleftrightarrow>
     (ap_requests a \<noteq> [] \<longrightarrow> ap_server a \<in> {Listening, ServerReturned}) \<and>
     (ap_server a \<noteq> ServerNew \<longrightarrow> ap_main a \<in> {Waiting, Signalled, Cancelled} \<longrightarrow> ap_ready a)"

lemma serving_advance:
  assumes "advance E cfg a a'" and "serving a"
  shows "serving a'"
  using assms(1)
proof cases
  case Consumer
  then show ?thesis using assms(2) by (simp add: serving_def consumer_step_parts [OF Consumer(2)])
next
  case Server
  from Server(2) assms(2) show ?thesis by cases (auto simp: serving_def)
next
  case Main
  then show ?thesis using assms(2)
    by (auto simp: serving_def main_step_def split: main_phase.splits if_splits)
qed (use assms(2) in \<open>simp_all add: serving_def\<close>)

lemma life_serving: "lives E cfg a \<Longrightarrow> serving a"
proof (induction rule: life_induct)
  case (launched s)
  then show ?case by (simp add: serving_def launched_def)
qed (blast intro: serving_advance)

text \<open>
  C20: Until main clears the flag, every readiness probe that the server has accepted is answered
  with 200: the answer says nothing about the queue, in whatever phase the consumer is.
\<close>

theorem readiness_ignores_consumer:
  assumes "lives E cfg a" and "ap_main a \<in> {Waiting, Signalled, Cancelled}" and "GetReady \<in> set (ap_requests a)"
  shows "rs_status (response_to E a GetReady) = 200"
proof -
  have "ap_ready a"
    using life_serving [OF assms(1)] assms(2,3) by (auto simp: serving_def)
  then show ?thesis by (simp add: response_to_def handle_ready_def reply_def)
qed

theorem readiness_ignores_consumer_witness:
  "rs_status (response_to granting_env abandoned GetReady) = 200"
  by (rule readiness_ignores_consumer [OF abandoned_lives]) (simp_all add: abandoned_def probed_def launched_def)

section \<open>Shutdown\<close>

definition stopping :: "main_phase \<Rightarrow> nat" where
  "stopping m = (case m of Signalled \<Rightarrow> 4 | Cancelled \<Rightarrow> 3 | Unready \<Rightarrow> 2 | Draining \<Rightarrow> 1 | _ \<Rightarrow> 0)"

definition to_go :: "adapter \<Rightarrow> nat" where
  "to_go a = stopping (ap_main a) + length (ap_requests a)"

text \<open>The next step of a shutdown: a request that is still in flight, or a step of main.\<close>

lemma shutdown_step:
  assumes "stopping (ap_main a) > 0"
  obtains a' where "advance E cfg a a'" "to_go a = Suc (to_go a')" "ap_consumer a' = ap_consumer a"
    "ap_main a' = Exited \<and> ap_requests a' = [] \<or> stopping (ap_main a') > 0"
proof (cases "ap_requests a")
  case Nil
  obtain a' where a': "main_step a = Some a'"
    using assms Nil by (auto simp: main_step_def stopping_def split: main_phase.splits)
  show ?thesis
  proof (rule that)
    show "advance E cfg a a'" using a' by (rule advance.Main)
    show "to_go a = Suc (to_go a')" "ap_main a' = Exited \<and> ap_requests a' = [] \<or> stopping (ap_main a') > 0"
      using a' assms Nil by (auto simp: main_step_def to_go_def stopping_def split: main_phase.splits)
  qed (rule main_step_parts(2) [OF a'])
next
  case (Cons ep eps)
  let ?a = "a\<lparr>ap_sys := snd (serve E (ap_ready a) ep (ap_sys a)), ap_requests := eps\<rparr>"
  have "server_step E a ?a" using server_step.Answer [of 0 a E] Cons by simp
  moreover have "alive (ap_main a)"
    using assms by (cases "ap_main a") (simp_all add: stopping_def)
  ultimately show ?thesis
    using that [of ?a] assms Cons by (simp add: advance.Server to_go_def)
qed

lemma shutdown_run:
  assumes "stopping (ap_main a) > 0"
  shows "\<exists>a'. (advance E cfg ^^ to_go a) a a' \<and> ap_main a' = Exited \<and> ap_requests a' = [] \<and>
    ap_consumer a' = ap_consumer a"
  using assms
proof (induction "to_go a" arbitrary: a)
  case 0
  then show ?case by (simp add: to_go_def)
next
  case (Suc n)
  obtain b where b: "advance E cfg a b" "to_go a = Suc (to_go b)" "ap_consumer b = ap_consumer a"
    "ap_main b = Exited \<and> ap_requests b = [] \<or> stopping (ap_main b) > 0"
    using shutdown_step [OF Suc.prems] by metis
  have "\<exists>a'. (advance E cfg ^^ to_go b) b a' \<and> ap_main a' = Exited \<and> ap_requests a' = [] \<and>
      ap_consumer a' = ap_consumer b"
    using b(4)
  proof
    assume "ap_main b = Exited \<and> ap_requests b = []"
    then show ?thesis by (simp add: to_go_def stopping_def)
  next
    assume "stopping (ap_main b) > 0"
    with Suc.hyps(1) [of b] Suc.hyps(2) b(2) show ?thesis by simp
  qed
  with b show ?case by (metis relpowp_Suc_I2)
qed

text \<open>Once the listener is closed, nothing that goes on takes the end further away.\<close>

lemma draining_progress:
  assumes "advance E cfg a a'" and "ap_main a = Draining" and "ap_shutdown a"
  shows "to_go a' \<le> to_go a \<and> (ap_main a' = Draining \<and> ap_shutdown a' \<or> \<not> alive (ap_main a'))"
  using assms(1)
proof cases
  case Consumer
  then show ?thesis using assms(2,3) by (simp add: to_go_def consumer_step_parts [OF Consumer(2)])
next
  case Server
  from Server(2) assms(2,3) show ?thesis by cases (auto simp: to_go_def)
next
  case Main
  then show ?thesis using assms(2) by (auto simp: main_step_def to_go_def stopping_def split: if_splits)
qed (use assms(2,3) in \<open>simp_all add: to_go_def stopping_def\<close>)

lemma draining_advance:
  assumes "advance E cfg a a'" and "ap_main a = Draining \<longrightarrow> ap_shutdown a"
  shows "ap_main a' = Draining \<longrightarrow> ap_shutdown a'"
  using assms(1)
proof cases
  case Consumer
  then show ?thesis using assms(2) by (simp add: consumer_step_parts [OF Consumer(2)])
next
  case Server
  then show ?thesis using assms(2) by (simp add: server_step_parts [OF Server(2)])
next
  case Main
  then show ?thesis by (auto simp: main_step_def split: main_phase.splits if_splits)
qed (use assms(2) in simp_all)

lemma life_draining: "lives E cfg a \<Longrightarrow> ap_main a = Draining \<longrightarrow> ap_shutdown a"
proof (induction rule: life_induct)
  case (launched s)
  then show ?case by (simp add: launched_def)
qed (rule draining_advance)

text \<open>
  C8: After a signal the process can always end, with the requests that it has accepted answered:
  one step for each of them, and the steps that main has left. Once the listener is closed,
  nothing that happens meanwhile adds to them.
\<close>

theorem shutdown_exits:
  assumes "lives E cfg a" and "ap_main a \<in> {Signalled, Cancelled, Unready, Draining}"
  shows "(\<exists>a'. (advance E cfg ^^ to_go a) a a' \<and> ap_main a' = Exited \<and> ap_requests a' = []) \<and>
    (ap_main a = Draining \<longrightarrow> (\<forall>a'. advance E cfg a a' \<longrightarrow> to_go a' \<le> to_go a))"
proof -
  have "stopping (ap_main a) > 0" using assms(2) by (auto simp: stopping_def)
  with shutdown_run [of a E cfg] draining_progress [of E cfg a] life_draining [OF assms(1)]
  show ?thesis by blast
qed

theorem shutdown_exits_witness:
  "\<exists>a'. (advance granting_env (new_config granting_env) ^^ 5) (probed\<lparr>ap_main := Signalled\<rparr>) a' \<and>
     ap_main a' = Exited \<and> ap_requests a' = []"
proof -
  have "advance granting_env (new_config granting_env) probed (probed\<lparr>ap_main := Signalled\<rparr>)"
    by (intro advance.Main) (simp add: main_step_def probed_def launched_def)
  with probed_lives have "lives granting_env (new_config granting_env) (probed\<lparr>ap_main := Signalled\<rparr>)"
    unfolding lives_def by (metis rtranclp.rtrancl_into_rtrancl)
  from shutdown_exits [OF this] show ?thesis
    by (simp add: to_go_def stopping_def probed_def launched_def)
qed

lemma nothing_after_exit: "ap_main a = Exited \<Longrightarrow> \<not> advance E cfg a a'"
  by (auto elim!: advanceE simp: main_step_def)

text \<open>
  C19: Main does not wait for the consumer: from every state in which the consumer consumes, the
  process can end with it still consuming, so that neither the AMQP channel nor the connection is
  closed, by this goroutine or any other.
\<close>

theorem exit_leaves_consumer:
  assumes "lives E cfg a" and "alive (ap_main a)" and "ap_consumer a = Consuming conn ch"
  shows "\<exists>a'. lives E cfg a' \<and> (advance E cfg)\<^sup>*\<^sup>* a a' \<and> ap_main a' = Exited \<and>
    ap_consumer a' = Consuming conn ch \<and> (\<forall>a''. \<not> advance E cfg a' a'')"
proof -
  obtain b where b: "(advance E cfg)\<^sup>*\<^sup>* a b" "stopping (ap_main b) > 0" "ap_consumer b = Consuming conn ch"
  proof (cases "ap_main a = Waiting")
    case True
    then have "advance E cfg a (a\<lparr>ap_main := Signalled\<rparr>)"
      by (intro advance.Main) (simp add: main_step_def)
    with that [of "a\<lparr>ap_main := Signalled\<rparr>", OF r_into_rtranclp] assms(3) show ?thesis by (simp add: stopping_def)
  next
    case False
    with assms(2) have "stopping (ap_main a) > 0" by (cases "ap_main a") (simp_all add: stopping_def)
    with that [of a] assms(3) show ?thesis by simp
  qed
  obtain a' where a': "(advance E cfg)\<^sup>*\<^sup>* b a'" "ap_main a' = Exited" "ap_consumer a' = Consuming conn ch"
    using shutdown_run [OF b(2), of E cfg] b(3) by (metis relpowp_imp_rtranclp)
  have run: "(advance E cfg)\<^sup>*\<^sup>* a a'" using b(1) a'(1) by simp
  with assms(1) have "lives E cfg a'" by (meson lives_def rtranclp_trans)
  with run a' nothing_after_exit show ?thesis by blast
qed

theorem exit_leaves_consumer_witness:
  "\<exists>a'. lives granting_env (new_config granting_env) a' \<and> ap_main a' = Exited \<and> ap_consumer a' = Consuming 3 4"
  using exit_leaves_consumer [OF probed_lives, of 3 4] by (auto simp: probed_def launched_def)

section \<open>What ends a life\<close>

lemma main_step_ends:
  "main_step a = Some a' \<Longrightarrow> alive (ap_main a) \<Longrightarrow>
   (\<not> alive (ap_main a')) = (ap_main a = Draining \<and> ap_requests a = [])"
  by (auto simp: main_step_def split: main_phase.splits if_splits)

text \<open>A step ends the process when a goroutine panics, or when main returns.\<close>

lemma life_ends:
  assumes "alive (ap_main a)"
  shows "(\<exists>a'. advance E cfg a a' \<and> \<not> alive (ap_main a')) =
    ((\<exists>r. background E (Alive (ap_sys a)) (Crashed r)) \<or> ap_main a = Draining \<and> ap_requests a = [])"
    (is "?ends = ?how")
proof
  assume ?ends
  then obtain a' where a': "advance E cfg a a'" "\<not> alive (ap_main a')" by blast
  from a'(1) show ?how
    by cases (use a'(2) assms in \<open>auto simp: consumer_step_parts(2) server_step_parts(2) main_step_ends\<close>)
next
  assume ?how
  then show ?ends
  proof
    assume "\<exists>r. background E (Alive (ap_sys a)) (Crashed r)"
    then obtain r where "advance E cfg a (a\<lparr>ap_main := Died r\<rparr>)" using assms advance.Crash by blast
    then show ?ends by force
  next
    assume "ap_main a = Draining \<and> ap_requests a = []"
    then have "main_step a = Some (a\<lparr>ap_main := Exited\<rparr>)" by (simp add: main_step_def)
    then have "advance E cfg a (a\<lparr>ap_main := Exited\<rparr>)" by (rule advance.Main)
    then show ?ends by force
  qed
qed

lemma init_exchange_no_panic: "init_exchange E cfg s \<noteq> (Panic r, s')"
  by (auto simp: init_exchange_def or_fail_def declare_queue_def split: sum.split option.split prod.split)

section \<open>A call that is rejected\<close>

text \<open>
  C14: Over the whole life of the adapter the reply to a rejected call goes to a telephone number
  and never to a LID. When a call is offered, exactly one message is sent if the session rejects
  calls, has a reply text that is not blank, and the caller is no LID or a LID that the cache or
  WhatsApp resolves: the trimmed text, through the client that got the call. Otherwise none is
  sent. No session, setting or pairing code changes.
\<close>

theorem call_reply_never_to_lid:
  assumes "lives E cfg a"
  shows "\<exists>ms. sends (effects (snd (handle_event E sid cli (EvCallOffer creator call_id) (ap_sys a)))) =
      sends (effects (ap_sys a)) @ ms \<and>
    ms = (if get_reject_calls sid (ap_sys a) \<and> trim_space (get_reject_msg sid (ap_sys a)) \<noteq> [] then
            (case reply_target E cli creator call_id (ap_sys a) of
               None \<Rightarrow> []
             | Some j \<Rightarrow>
                 [(cli, j, empty_message\<lparr>wm_conversation :=
                     Some (trim_space (get_reject_msg sid (ap_sys a)))\<rparr>, None)])
          else []) \<and>
    list_all (\<lambda>(c, j, w, i). \<not> is_lid_jid j) ms \<and>
    settled (snd (handle_event E sid cli (EvCallOffer creator call_id) (ap_sys a))) = settled (ap_sys a)"
  using call_rejection [of "ap_sys a" E sid cli creator call_id]
    reply_target_no_lid [OF life_lids_resolved [OF assms], of E cli creator call_id]
  by (auto simp: calm_settled split: option.split)

definition busy_env :: env where
  "busy_env = granting_env\<lparr>env_lookup := (\<lambda>n. if n = ''REJECT_CALLS_MESSAGE'' then Some ''busy'' else None),
     env_pn_for_lid := (\<lambda>t c j. Inr (empty_jid\<lparr>j_user := ''5511'', j_server := default_user_server\<rparr>)),
     env_send_message := (\<lambda>t c j w i. Inr ''3EB0'')\<rparr>"

lemma busy_boots: "fst (boot busy_env) = Running_with (new_config busy_env)"
  by (simp add: boot_def Let_def init_exchange_def or_fail_def declare_queue_def amqp_dial_def amqp_channel_def
      amqp_declare_def queue_declare_def queue_bind_def busy_env_def granting_env_def)

lemma no_backslash: "\<not> contains ''busy'' [CHR 0x5C, CHR ''n'']"
  by code_simp

lemma busy_settings:
  "get_reject_calls sid (snd (boot busy_env)) = True" "get_reject_msg sid (snd (boot busy_env)) = ''busy''"
proof -
  have cfg: "cf_reject_calls (new_config busy_env) = True" "cf_reject_calls_message (new_config busy_env) = ''busy''"
    by (simp_all add: new_config_def get_env_bool_def reject_message_def get_env_def busy_env_def granting_env_def
        silent_env_def Let_def no_backslash)
  show "get_reject_calls sid (snd (boot busy_env)) = True" "get_reject_msg sid (snd (boot busy_env)) = ''busy''"
    using boot_settings [of busy_env] boot_state [of busy_env] cfg
    by (simp_all add: fixed_settings_def get_reject_calls_def get_reject_msg_def)
qed

lemma busy_target: "reply_target busy_env cli (empty_jid\<lparr>j_user := ''77'', j_server := ''lid''\<rparr>) call_id s \<noteq> None"
  by (auto simp: reply_target_def strip_device_def is_lid_jid_def resolve_lid_to_ad_def time_now_def
      default_lid_attempts_def numeral_3_eq_3 wa_pn_for_lid_def busy_env_def default_user_server_def
      granting_env_def silent_env_def split: option.split)

theorem call_reply_never_to_lid_witness:
  "\<exists>j. sends (effects (snd (handle_event busy_env ''5562'' 1
      (EvCallOffer (empty_jid\<lparr>j_user := ''77'', j_server := ''lid''\<rparr>) ''C1'') (snd (boot busy_env))))) =
    sends (effects (snd (boot busy_env))) @
      [(1, j, empty_message\<lparr>wm_conversation := Some ''busy''\<rparr>, None)] \<and> \<not> is_lid_jid j"
proof -
  have "boot busy_env = (Running_with (new_config busy_env), snd (boot busy_env))"
    using busy_boots by (metis prod.collapse)
  then have lives: "lives busy_env (new_config busy_env) (launched (snd (boot busy_env)))"
    by (auto simp: lives_def)
  obtain j where "reply_target busy_env 1 (empty_jid\<lparr>j_user := ''77'', j_server := ''lid''\<rparr>) ''C1''
      (snd (boot busy_env)) = Some j" using busy_target by blast
  moreover have "trim_space ''busy'' = ''busy''" by code_simp
  ultimately show ?thesis
    using call_reply_never_to_lid [OF lives, of "''5562''" 1 "empty_jid\<lparr>j_user := ''77'', j_server := ''lid''\<rparr>" "''C1''"]
    by (simp add: launched_def busy_settings)
qed

end
