(* ===== verification/Locks.thy ===== *)
theory Locks
  imports Prelude
begin

text \<open>
  Threads that share variables and take locks. A thread is what it has done and what it has still
  to do; a step of one of them is an interleaving step, which a lock that another thread holds
  can forbid. The locks and variables are the mutexes of the program and what its goroutines
  share; which accesses its functions make, and in which order, is in the theory \<open>Sharing\<close>.

  A pending \<open>Lock\<close> of a \<open>sync.RWMutex\<close> holds up later calls of \<open>RLock\<close>. That only takes schedules
  away, and none that is needed here: no function takes a lock while it holds one.
\<close>

datatype lock = ManagerMu | CacheMu | QrMu | PublisherMu

datatype shared =
    Clients | Overrides | PresenceCancel | PnCache
  | AvatarCache | GroupNameCache | LidCache | QrBySession
  | WebhookPub | PublisherConn | PublisherChannel
  | Ready

datatype action = RLock lock | RUnlock lock | Lock lock | Unlock lock | Read shared | Write shared

datatype mode = Reading | Exclusive

type_synonym holding = "lock \<Rightarrow> mode option"

type_synonym thread = "action list \<times> action list"

fun after :: "action \<Rightarrow> holding \<Rightarrow> holding" where
  "after (RLock l) h = h(l := Some Reading)"
| "after (Lock l) h = h(l := Some Exclusive)"
| "after (RUnlock l) h = h(l := None)"
| "after (Unlock l) h = h(l := None)"
| "after (Read v) h = h"
| "after (Write v) h = h"

definition held :: "action list \<Rightarrow> holding" where
  "held p = fold after p (\<lambda>l. None)"

lemma held_Nil [simp]: "held [] l = None"
  by (simp add: held_def)

lemma held_snoc [simp]: "held (p @ [a]) = after a (held p)"
  by (simp add: held_def)

fun may_take :: "thread list \<Rightarrow> action \<Rightarrow> bool" where
  "may_take ts (RLock l) = list_all (\<lambda>t. held (fst t) l \<noteq> Some Exclusive) ts"
| "may_take ts (Lock l) = list_all (\<lambda>t. held (fst t) l = None) ts"
| "may_take ts _ = True"

inductive move :: "thread list \<Rightarrow> thread list \<Rightarrow> bool" where
  "i < length ts \<Longrightarrow> ts ! i = (d, a # t) \<Longrightarrow> may_take ts a \<Longrightarrow> move ts (ts[i := (d @ [a], t)])"

inductive_cases moveE: "move ts ts'"

definition start :: "action list list \<Rightarrow> thread list" where
  "start ps = map (Pair []) ps"

text \<open>A data race: two threads are about to access the variable, and one of them to write it.\<close>

fun about_to :: "shared \<Rightarrow> thread \<Rightarrow> bool option" where
  "about_to v (d, Read w # t) = (if w = v then Some False else None)"
| "about_to v (d, Write w # t) = (if w = v then Some True else None)"
| "about_to v _ = None"

definition racing :: "shared \<Rightarrow> thread list \<Rightarrow> bool" where
  "racing v ts \<longleftrightarrow>
     (\<exists>i < length ts. \<exists>j < length ts. i \<noteq> j \<and> about_to v (ts ! i) = Some True \<and> about_to v (ts ! j) \<noteq> None)"

definition finished :: "thread list \<Rightarrow> bool" where
  "finished ts \<longleftrightarrow> list_all (\<lambda>t. snd t = []) ts"

section \<open>Mutual exclusion\<close>

definition excluding :: "thread list \<Rightarrow> bool" where
  "excluding ts \<longleftrightarrow>
     (\<forall>i < length ts. \<forall>j < length ts. \<forall>l. i \<noteq> j \<longrightarrow> held (fst (ts ! i)) l = Some Exclusive \<longrightarrow>
        held (fst (ts ! j)) l = None)"

lemma excludingD:
  "excluding ts \<Longrightarrow> held (fst (ts ! i)) l = Some Exclusive \<Longrightarrow> i < length ts \<Longrightarrow> j < length ts \<Longrightarrow> i \<noteq> j \<Longrightarrow>
    held (fst (ts ! j)) l = None"
  by (auto simp: excluding_def)

lemma excluding_start: "excluding (start ps)"
  by (simp add: excluding_def start_def)

lemma excluding_move:
  assumes "move ts ts'" and "excluding ts"
  shows "excluding ts'"
  using assms(1)
proof cases
  case (1 i d a t)
  have i: "held (fst (ts ! i)) = held d" by (simp add: 1(3))
  have free: "held (fst (ts ! j)) l = None"
    if "j < length ts" "j \<noteq> i" "after a (held d) l = Some Exclusive" for j l
    using that 1(4) excludingD [OF assms(2), of i l j] i 1(2)
    by (cases a) (auto simp: list_all_length split: if_splits)
  have kept: "after a (held d) l = None"
    if "j < length ts" "j \<noteq> i" "held (fst (ts ! j)) l = Some Exclusive" for j l
    using that 1(4) excludingD [OF assms(2), of j l i] i 1(2)
    by (cases a) (auto simp: list_all_length)
  have "held (fst (ts[i := (d @ [a], t)] ! k)) = (if k = i then after a (held d) else held (fst (ts ! k)))"
    if "k < length ts" for k
    using that by (simp add: nth_list_update)
  then show ?thesis
    using excludingD [OF assms(2)] free kept unfolding 1(1) excluding_def length_list_update
    by (metis (no_types, lifting))
qed

text \<open>What a thread has done and has still to do is its program, and the threads stay in number.\<close>

lemma move_programs:
  assumes "move ts ts'"
  shows "map (\<lambda>(d, t). d @ t) ts' = map (\<lambda>(d, t). d @ t) ts"
  using assms
proof cases
  case (1 i d a t)
  let ?f = "\<lambda>(d, t). d @ t"
  have "(map ?f ts)[i := d @ a # t] = map ?f ts"
    by (rule list_update_same_conv [THEN iffD2]) (simp_all add: 1)
  then show ?thesis unfolding 1(1) map_update by simp
qed

lemma moves_programs: "move\<^sup>*\<^sup>* ts ts' \<Longrightarrow> map (\<lambda>(d, t). d @ t) ts' = map (\<lambda>(d, t). d @ t) ts"
  by (induction rule: rtranclp_induct) (simp_all add: move_programs)

lemma moves_excluding: "move\<^sup>*\<^sup>* ts ts' \<Longrightarrow> excluding ts \<Longrightarrow> excluding ts'"
  by (induction rule: rtranclp_induct) (auto intro: excluding_move)

lemma reached_thread:
  assumes "move\<^sup>*\<^sup>* (start ps) ts" and "i < length ts"
  shows "i < length ps \<and> fst (ts ! i) @ snd (ts ! i) = ps ! i"
proof -
  have m: "map (\<lambda>(d, t). d @ t) ts = ps"
    using moves_programs [OF assms(1)] by (simp add: start_def comp_def)
  then have "ps ! i = (\<lambda>(d, t). d @ t) (ts ! i)" using assms(2) by auto
  with m assms(2) show ?thesis by (auto simp: case_prod_beta)
qed

section \<open>A discipline that excludes races\<close>

text \<open>
  A program follows a discipline when it holds the lock that guards a variable whenever it
  accesses it, exclusively when it writes.
\<close>

fun follows :: "(shared \<Rightarrow> lock option) \<Rightarrow> holding \<Rightarrow> action list \<Rightarrow> bool" where
  "follows g h [] = True"
| "follows g h (a # p) =
     ((case a of
         Read v \<Rightarrow> (case g v of None \<Rightarrow> True | Some l \<Rightarrow> h l \<noteq> None)
       | Write v \<Rightarrow> (case g v of None \<Rightarrow> True | Some l \<Rightarrow> h l = Some Exclusive)
       | _ \<Rightarrow> True) \<and> follows g (after a h) p)"

lemma follows_append [simp]: "follows g h (p @ q) \<longleftrightarrow> follows g h p \<and> follows g (fold after p h) q"
  by (induction p arbitrary: h) auto

lemma about_to_follows:
  assumes "about_to v (d, t) = Some w" and "follows g (held d) t" and "g v = Some l"
  shows "if w then held d l = Some Exclusive else held d l \<noteq> None"
  using assms by (cases "(v, (d, t))" rule: about_to.cases) (auto split: if_splits)

lemma disciplined_never_race:
  assumes "list_all (follows g (\<lambda>l. None)) ps" and "g v = Some l" and "move\<^sup>*\<^sup>* (start ps) ts"
  shows "\<not> racing v ts"
proof
  assume "racing v ts"
  then obtain i j w where ij: "i < length ts" "j < length ts" "i \<noteq> j"
    "about_to v (ts ! i) = Some True" "about_to v (ts ! j) = Some w"
    by (auto simp: racing_def)
  have "follows g (held (fst (ts ! k))) (snd (ts ! k))" if "k < length ts" for k
    using reached_thread [OF assms(3) that] assms(1)
    by (metis follows_append held_def list_all_length)
  from about_to_follows [OF _ this assms(2)] ij
  have "held (fst (ts ! i)) l = Some Exclusive" "held (fst (ts ! j)) l \<noteq> None"
    by (metis prod.collapse option.distinct(1))+
  moreover have "excluding ts" using moves_excluding [OF assms(3) excluding_start] .
  ultimately show False using excludingD [of ts i l j] ij(1-3) by simp
qed

section \<open>Progress\<close>

definition all_locks :: "lock list" where
  "all_locks = [ManagerMu, CacheMu, QrMu, PublisherMu]"

definition holds_none :: "holding \<Rightarrow> bool" where
  "holds_none h \<longleftrightarrow> list_all (\<lambda>l. h l = None) all_locks"

lemma holds_none_iff: "holds_none h \<longleftrightarrow> h = (\<lambda>l. None)"
proof -
  have "l \<in> set all_locks" for l by (cases l) (simp_all add: all_locks_def)
  then show ?thesis by (auto simp: holds_none_def list_all_iff)
qed

text \<open>A program that takes one lock at a time, and holds none at its end.\<close>

fun one_at_a_time :: "holding \<Rightarrow> action list \<Rightarrow> bool" where
  "one_at_a_time h [] = holds_none h"
| "one_at_a_time h (a # p) =
     ((case a of RLock l \<Rightarrow> holds_none h | Lock l \<Rightarrow> holds_none h | _ \<Rightarrow> True) \<and> one_at_a_time (after a h) p)"

lemma one_at_a_time_append:
  "one_at_a_time h p \<Longrightarrow> one_at_a_time (\<lambda>l. None) q \<Longrightarrow> one_at_a_time h (p @ q)"
  by (induction p arbitrary: h) (auto simp: holds_none_iff)

lemma one_at_a_time_rest: "one_at_a_time h (p @ q) \<Longrightarrow> one_at_a_time (fold after p h) q"
  by (induction p arbitrary: h) auto

lemma one_at_a_time_held: "one_at_a_time h p \<Longrightarrow> fold after p h = (\<lambda>l. None)"
  by (induction p arbitrary: h) (auto simp: holds_none_iff)

text \<open>No thread is ever stuck while another can go on, and nothing goes on for ever.\<close>

lemma not_stuck:
  assumes "list_all (one_at_a_time (\<lambda>l. None)) ps" and "move\<^sup>*\<^sup>* (start ps) ts" and "\<not> finished ts"
  shows "\<exists>ts'. move ts ts'"
proof (rule ccontr)
  assume stuck: "\<nexists>ts'. move ts ts'"
  have one: "one_at_a_time (held (fst (ts ! k))) (snd (ts ! k))" if "k < length ts" for k
    using reached_thread [OF assms(2) that] assms(1)
    by (metis held_def list_all_length one_at_a_time_rest)
  have blocked: "\<not> may_take ts a" if "k < length ts" "snd (ts ! k) = a # t" for k a t
    using stuck move.intros [of k ts "fst (ts ! k)" a t] that by (metis prod.collapse)
  have none: "held (fst (ts ! k)) = (\<lambda>l. None)" if "k < length ts" for k
  proof (cases "snd (ts ! k)")
    case Nil
    with one [OF that] show ?thesis by (simp add: holds_none_iff)
  next
    case (Cons a t)
    with one [OF that] blocked [OF that Cons] show ?thesis by (cases a) (simp_all add: holds_none_iff)
  qed
  obtain k a t where "k < length ts" "snd (ts ! k) = a # t"
    using assms(3) by (auto simp: finished_def list_all_length neq_Nil_conv)
  with blocked have "\<not> may_take ts a" by blast
  then show False using none by (cases a) (auto simp: list_all_length)
qed

definition left :: "thread list \<Rightarrow> nat" where
  "left ts = sum_list (map (\<lambda>t. length (snd t)) ts)"

lemma move_left: "move ts ts' \<Longrightarrow> left ts = Suc (left ts')"
proof (erule moveE)
  fix i d a t
  assume i: "i < length ts" "ts ! i = (d, a # t)" and ts': "ts' = ts[i := (d @ [a], t)]"
  have "length (snd (ts ! i)) \<le> left ts"
    unfolding left_def using i(1) by (intro member_le_sum_list) auto
  with i show "left ts = Suc (left ts')" by (simp add: ts' left_def map_update sum_list_update)
qed

lemma moves_bounded: "(move ^^ n) ts ts' \<Longrightarrow> n + left ts' = left ts"
proof (induction n arbitrary: ts')
  case (Suc n)
  then obtain b where "(move ^^ n) ts b" "move b ts'" by auto
  with Suc.IH [of b] move_left [of b ts'] show ?case by simp
qed simp

section \<open>Races that happen\<close>

lemma move_ith:
  assumes "i < length ts" and "ts ! i = (d, a # t)" and "may_take ts a"
  shows "move ts (ts[i := (d @ [a], t)])"
  using assms by (rule move.intros)

text \<open>While the other threads hold nothing, a thread can run as far as it likes.\<close>

lemma solo_run:
  assumes "i < length ts" and "ts ! i = (d, p @ q)" and "one_at_a_time (held d) (p @ q)"
    and "\<And>j. j < length ts \<Longrightarrow> j \<noteq> i \<Longrightarrow> held (fst (ts ! j)) = (\<lambda>l. None)"
  shows "move\<^sup>*\<^sup>* ts (ts[i := (d @ p, q)])"
  using assms
proof (induction p arbitrary: ts d)
  case Nil
  then have "ts[i := (d, q)] = ts" by (metis append_Nil list_update_id)
  then show ?case by simp
next
  case (Cons a p)
  let ?ts = "ts[i := (d @ [a], p @ q)]"
  have "held (fst (ts ! j)) l = None" if "holds_none (held d)" "j < length ts" for j l
    using that Cons.prems(2,4) by (cases "j = i") (auto simp: holds_none_iff)
  then have "may_take ts a"
    using Cons.prems(3) by (cases a) (auto simp: list_all_length)
  with Cons.prems(1,2) have step: "move ts ?ts" by (intro move_ith) simp_all
  have "move\<^sup>*\<^sup>* ?ts (?ts[i := ((d @ [a]) @ p, q)])"
    by (rule Cons.IH) (use Cons.prems in \<open>auto simp: nth_list_update\<close>)
  with step show ?case by (simp add: converse_rtranclp_into_rtranclp)
qed

lemma unlocked_race:
  assumes "i < length ps" "j < length ps" "i \<noteq> j"
    and i: "ps ! i = p @ r" "held p = (\<lambda>l. None)" "about_to v (p, r) = Some w"
    and j: "ps ! j = q @ s" "about_to v (q, s) = Some w'"
    and "one_at_a_time (\<lambda>l. None) (ps ! i)" "one_at_a_time (\<lambda>l. None) (ps ! j)" and "w \<or> w'"
  shows "\<exists>ts. move\<^sup>*\<^sup>* (start ps) ts \<and> racing v ts"
proof -
  let ?ts1 = "(start ps)[i := (p, r)]"
  let ?ts2 = "?ts1[j := (q, s)]"
  have none: "held [] = (\<lambda>l. None)" by (simp add: held_def)
  have run1: "move\<^sup>*\<^sup>* (start ps) ?ts1"
    using solo_run [of i "start ps" "[]" p r] assms by (simp add: start_def none)
  have run2: "move\<^sup>*\<^sup>* ?ts1 ?ts2"
    using solo_run [of j ?ts1 "[]" q s] assms by (simp add: start_def none nth_list_update)
  have "?ts2 ! i = (p, r)" "?ts2 ! j = (q, s)" "length ?ts2 = length ps"
    using assms(1-3) by (simp_all add: start_def)
  then have "racing v ?ts2"
    using assms(1-3) i(3) j(2) \<open>w \<or> w'\<close> unfolding racing_def by (metis (full_types) option.distinct(1))
  with run1 run2 show ?thesis by (meson rtranclp_trans)
qed

end
