(* ===== verification/Sharing.thy ===== *)
theory Sharing
  imports Locks
begin

text \<open>
  What the goroutines of the adapter share, and under which locks. Every function that touches a
  shared variable is given by its paths: the accesses and lock operations it makes, in order, on
  each way through it (ways that make the same ones are one path). Calls to the outside have no
  access to these variables and are left out, as are the fields that are only written before the
  first goroutine starts. Loops over attempts touch the caches at most once, at their end.

  A system is the main goroutine, from the start of the saved sessions on, and any number of
  others, each of which runs one operation: a request, an event, a delivery, or a goroutine that
  one of these has started.
\<close>

type_synonym paths = "action list list"

definition then_do :: "paths \<Rightarrow> paths \<Rightarrow> paths" where
  "then_do ps qs = concat (map (\<lambda>p. map (\<lambda>q. p @ q) qs) ps)"

definition maybe :: "paths \<Rightarrow> paths" where
  "maybe ps = [] # ps"

section \<open>Caches and pairing codes\<close>

definition get_avatar_paths :: paths where
  "get_avatar_paths = [[RLock CacheMu, Read AvatarCache, RUnlock CacheMu]]"

definition put_avatar_paths :: paths where
  "put_avatar_paths = [[Lock CacheMu, Write AvatarCache, Unlock CacheMu]]"

definition get_group_name_paths :: paths where
  "get_group_name_paths = [[RLock CacheMu, Read GroupNameCache, RUnlock CacheMu]]"

definition put_group_name_paths :: paths where
  "put_group_name_paths = [[Lock CacheMu, Write GroupNameCache, Unlock CacheMu]]"

definition get_lid_paths :: paths where
  "get_lid_paths = [[RLock CacheMu, Read LidCache, RUnlock CacheMu]]"

definition put_lid_paths :: paths where
  "put_lid_paths = [[Lock CacheMu, Write LidCache, Unlock CacheMu]]"

definition qr_item_paths :: paths where
  "qr_item_paths = maybe [[Lock QrMu, Write QrBySession, Unlock QrMu]]"

definition get_qr_paths :: paths where
  "get_qr_paths = [[RLock QrMu, Read QrBySession, RUnlock QrMu]]"

section \<open>The client manager\<close>

definition setting_paths :: paths where
  "setting_paths = [[Read Overrides]]"

definition load_overrides_paths :: paths where
  "load_overrides_paths = [[], [Read Overrides, Write Overrides]]"

text \<open>Five getters, the effective period, and six or seven reads for the sources.\<close>

definition log_config_paths :: paths where
  "log_config_paths = [replicate 12 (Read Overrides), replicate 13 (Read Overrides)]"

definition connect_paths :: paths where
  "connect_paths =
     [[Lock ManagerMu, Read Clients, Unlock ManagerMu]] @
     then_do [[Lock ManagerMu, Read Clients]]
       (then_do load_overrides_paths
         (then_do log_config_paths [[Write Clients, Unlock ManagerMu]]))"

definition disconnect_paths :: paths where
  "disconnect_paths =
     [[Lock ManagerMu, Read Clients, Unlock ManagerMu],
      [Lock ManagerMu, Read Clients, Write Clients, Unlock ManagerMu]]"

definition find_client_paths :: paths where
  "find_client_paths = [[RLock ManagerMu, Read Clients, RUnlock ManagerMu]]"

definition reload_paths :: paths where
  "reload_paths = find_client_paths @
     then_do find_client_paths (then_do disconnect_paths connect_paths)"

definition unlocked_client_paths :: paths where
  "unlocked_client_paths = [[Read Clients]]"

definition fake_call_paths :: paths where
  "fake_call_paths = then_do unlocked_client_paths (maybe unlocked_client_paths)"

definition start_online_paths :: paths where
  "start_online_paths =
     [[Read Overrides],
      [Read Overrides, Lock ManagerMu, Read Clients, Unlock ManagerMu],
      [Read Overrides, Lock ManagerMu, Read Clients, Read PresenceCancel, Write PresenceCancel,
       Write Clients, Unlock ManagerMu],
      [Read Overrides, Lock ManagerMu, Read Clients, Read PresenceCancel, Read PresenceCancel,
       Write PresenceCancel, Write PresenceCancel, Write Clients, Unlock ManagerMu]]"

definition stop_online_paths :: paths where
  "stop_online_paths =
     [[Lock ManagerMu, Read Clients, Unlock ManagerMu],
      [Lock ManagerMu, Read Clients, Read PresenceCancel, Unlock ManagerMu],
      [Lock ManagerMu, Read Clients, Read PresenceCancel, Read PresenceCancel,
       Write PresenceCancel, Unlock ManagerMu]]"

text \<open>\<open>resolvePNtoJID\<close> and \<open>checkUserExistsOnWhatsApp\<close>.\<close>

definition resolve_paths :: paths where
  "resolve_paths = [[Read PnCache], [Read PnCache, Write PnCache]]"

section \<open>Webhooks\<close>

text \<open>The ways through \<open>ensure\<close>: the connection is missing, closed, or open with or without a channel.\<close>

definition ensure_paths :: paths where
  "ensure_paths =
     [[Lock PublisherMu, Unlock PublisherMu],
      [Lock PublisherMu, Read PublisherConn, Read PublisherConn, Read PublisherChannel, Unlock PublisherMu]] @
     then_do
       [[Lock PublisherMu, Read PublisherConn, Read PublisherConn],
        [Lock PublisherMu, Read PublisherConn, Read PublisherConn, Read PublisherConn, Read PublisherConn],
        [Lock PublisherMu, Read PublisherConn, Read PublisherConn, Read PublisherChannel,
         Read PublisherConn, Read PublisherConn]]
       [[Unlock PublisherMu], [Write PublisherConn, Write PublisherChannel, Unlock PublisherMu]]"

definition init_publisher_paths :: paths where
  "init_publisher_paths = then_do [[Write WebhookPub, Read WebhookPub]] ensure_paths"

definition deliver_paths :: paths where
  "deliver_paths =
     [[Read WebhookPub]] @
     then_do [[Read WebhookPub, Read WebhookPub]]
       (then_do ensure_paths (maybe [[Read WebhookPub, Read PublisherChannel, Read WebhookPub]]))"

section \<open>Sending and receiving\<close>

definition destination_paths :: paths where
  "destination_paths =
     resolve_paths @ then_do resolve_paths (maybe (deliver_paths @ resolve_paths))"

definition send_paths :: paths where
  "send_paths = maybe (find_client_paths @
     then_do find_client_paths (then_do destination_paths (maybe deliver_paths)))"

definition lid_paths :: paths where
  "lid_paths = maybe (then_do get_lid_paths (maybe put_lid_paths))"

definition avatar_paths :: paths where
  "avatar_paths = maybe (then_do get_avatar_paths (maybe put_avatar_paths))"

definition group_name_paths :: paths where
  "group_name_paths = then_do get_group_name_paths (maybe put_group_name_paths)"

definition emit_message_paths :: paths where
  "emit_message_paths =
     maybe (setting_paths @
       then_do setting_paths (setting_paths @
         then_do setting_paths (then_do lid_paths (then_do lid_paths (then_do lid_paths
           (maybe (deliver_paths @ then_do (maybe group_name_paths) (then_do avatar_paths deliver_paths))))))))"

definition reject_call_paths :: paths where
  "reject_call_paths =
     setting_paths @
     then_do setting_paths (then_do setting_paths
       (then_do lid_paths (maybe (then_do deliver_paths deliver_paths))))"

definition mark_read_paths :: paths where
  "mark_read_paths = then_do lid_paths lid_paths"

definition event_paths :: paths where
  "event_paths =
     start_online_paths @ stop_online_paths @ reject_call_paths @
     then_do emit_message_paths setting_paths @ maybe deliver_paths"

section \<open>The process\<close>

definition ready_paths :: paths where
  "ready_paths = [[Read Ready]]"

definition serve_paths :: paths where
  "serve_paths =
     connect_paths @ disconnect_paths @ reload_paths @ get_qr_paths @ find_client_paths @
     maybe fake_call_paths @ maybe unlocked_client_paths @ ready_paths"

definition start_server_paths :: paths where
  "start_server_paths = [[Write Ready]]"

text \<open>The main goroutine once it has started those of the saved sessions: the publisher, and the shutdown.\<close>

definition main_paths :: paths where
  "main_paths = then_do init_publisher_paths [[Write Ready]]"

definition operations :: paths where
  "operations =
     serve_paths @ event_paths @ send_paths @ connect_paths @ mark_read_paths @ qr_item_paths @
     start_server_paths"

definition adapter_system :: "action list list \<Rightarrow> bool" where
  "adapter_system ps \<longleftrightarrow>
     (case ps of [] \<Rightarrow> False
      | m # rest \<Rightarrow> m \<in> set main_paths \<and> list_all (\<lambda>p. p \<in> set operations) rest)"

section \<open>The discipline of the locks\<close>

fun guard :: "shared \<Rightarrow> lock option" where
  "guard AvatarCache = Some CacheMu"
| "guard GroupNameCache = Some CacheMu"
| "guard LidCache = Some CacheMu"
| "guard QrBySession = Some QrMu"
| "guard PresenceCancel = Some ManagerMu"
| "guard PublisherConn = Some PublisherMu"
| "guard _ = None"

definition well_locked :: "action list \<Rightarrow> bool" where
  "well_locked p \<longleftrightarrow> follows guard (\<lambda>l. None) p \<and> one_at_a_time (\<lambda>l. None) p"

definition well_locked_all :: "paths \<Rightarrow> bool" where
  "well_locked_all ps \<longleftrightarrow> list_all well_locked ps"

named_theorems locking \<open>operations whose paths keep to the locks\<close>

lemma well_locked_append: "well_locked p \<Longrightarrow> well_locked q \<Longrightarrow> well_locked (p @ q)"
  by (simp add: well_locked_def one_at_a_time_append one_at_a_time_held)

lemma well_locked_Nil [simp]: "well_locked []"
  by (simp add: well_locked_def holds_none_iff)

lemma well_locked_append_paths [locking]:
  "well_locked_all ps \<Longrightarrow> well_locked_all qs \<Longrightarrow> well_locked_all (ps @ qs)"
  by (simp add: well_locked_all_def)

lemma well_locked_then [locking]:
  "well_locked_all ps \<Longrightarrow> well_locked_all qs \<Longrightarrow> well_locked_all (then_do ps qs)"
  by (auto simp: well_locked_all_def then_do_def list_all_iff intro: well_locked_append)

lemma well_locked_maybe [locking]: "well_locked_all ps \<Longrightarrow> well_locked_all (maybe ps)"
  by (simp add: well_locked_all_def maybe_def)

lemmas straight =
  get_avatar_paths_def put_avatar_paths_def get_group_name_paths_def put_group_name_paths_def
  get_lid_paths_def put_lid_paths_def qr_item_paths_def get_qr_paths_def setting_paths_def
  connect_paths_def load_overrides_paths_def log_config_paths_def disconnect_paths_def
  find_client_paths_def unlocked_client_paths_def start_online_paths_def stop_online_paths_def
  resolve_paths_def ensure_paths_def ready_paths_def start_server_paths_def

lemma straight_well_locked [locking]:
  "well_locked_all get_avatar_paths" "well_locked_all put_avatar_paths"
  "well_locked_all get_group_name_paths" "well_locked_all put_group_name_paths"
  "well_locked_all get_lid_paths" "well_locked_all put_lid_paths" "well_locked_all qr_item_paths"
  "well_locked_all get_qr_paths" "well_locked_all setting_paths" "well_locked_all connect_paths"
  "well_locked_all disconnect_paths" "well_locked_all find_client_paths"
  "well_locked_all unlocked_client_paths" "well_locked_all start_online_paths"
  "well_locked_all stop_online_paths" "well_locked_all resolve_paths" "well_locked_all ensure_paths"
  "well_locked_all ready_paths" "well_locked_all start_server_paths"
  by code_simp+

lemma well_locked_all_simps [simp]:
  "well_locked_all []" "well_locked_all (p # ps) \<longleftrightarrow> well_locked p \<and> well_locked_all ps"
  by (simp_all add: well_locked_all_def)

lemma unguarded_well_locked [simp]:
  "guard v = None \<Longrightarrow> well_locked (Read v # p) \<longleftrightarrow> well_locked p"
  "guard v = None \<Longrightarrow> well_locked (Write v # p) \<longleftrightarrow> well_locked p"
  by (simp_all add: well_locked_def)

lemma deliver_well_locked [locking]: "well_locked_all deliver_paths"
  by (simp add: deliver_paths_def locking)

lemma main_well_locked: "well_locked_all main_paths"
  by (simp add: main_paths_def init_publisher_paths_def locking)

lemma cached_well_locked [locking]:
  "well_locked_all lid_paths" "well_locked_all avatar_paths" "well_locked_all group_name_paths"
  by (simp_all add: lid_paths_def avatar_paths_def group_name_paths_def locking)

lemma send_well_locked [locking]: "well_locked_all send_paths"
  by (simp add: send_paths_def destination_paths_def locking)

lemma event_well_locked [locking]: "well_locked_all event_paths"
  by (simp add: event_paths_def reject_call_paths_def emit_message_paths_def locking)

lemma serve_well_locked [locking]: "well_locked_all serve_paths"
  by (simp add: serve_paths_def reload_paths_def fake_call_paths_def locking)

lemma operations_well_locked: "well_locked_all operations"
  by (simp add: operations_def mark_read_paths_def locking)

lemma system_well_locked: "adapter_system ps \<Longrightarrow> list_all well_locked ps"
  using main_well_locked operations_well_locked
  by (auto simp: adapter_system_def well_locked_all_def list_all_iff split: list.splits)

lemma system_follows: "adapter_system ps \<Longrightarrow> list_all (follows guard (\<lambda>l. None)) ps"
  and system_one: "adapter_system ps \<Longrightarrow> list_all (one_at_a_time (\<lambda>l. None)) ps"
  by (auto dest!: system_well_locked simp: list_all_iff well_locked_def)

section \<open>What races\<close>

lemma in_then_do: "p \<in> set ps \<Longrightarrow> q \<in> set qs \<Longrightarrow> p @ q \<in> set (then_do ps qs)"
  by (auto simp: then_do_def)

lemma in_maybe [simp]: "p \<in> set (maybe ps) \<longleftrightarrow> p = [] \<or> p \<in> set ps"
  by (simp add: maybe_def)

lemma system_races:
  assumes "m \<in> set main_paths" and "list_all (\<lambda>p. p \<in> set operations) rest"
    and "i < length (m # rest)" "j < length (m # rest)" "i \<noteq> j"
    and "(m # rest) ! i = p @ r" "held p = (\<lambda>l. None)" "about_to v (p, r) = Some w"
    and "(m # rest) ! j = q @ s" "about_to v (q, s) = Some w'" and "w \<or> w'"
  shows "\<exists>ps ts. adapter_system ps \<and> move\<^sup>*\<^sup>* (start ps) ts \<and> racing v ts"
proof -
  have sys: "adapter_system (m # rest)" using assms(1,2) by (simp add: adapter_system_def)
  then have one: "one_at_a_time (\<lambda>l. None) ((m # rest) ! k)" if "k < length (m # rest)" for k
    using system_one that by (metis list_all_length)
  show ?thesis
    using unlocked_race [OF assms(3-8) _ assms(10) one [OF assms(3)] one [OF assms(4)] assms(11)] assms(9) sys
    by blast
qed

definition unconfigured_main :: "action list" where
  "unconfigured_main =
     [Write WebhookPub, Read WebhookPub, Lock PublisherMu, Unlock PublisherMu, Write Ready]"

lemma unconfigured_main: "unconfigured_main \<in> set main_paths"
  by (simp add: unconfigured_main_def main_paths_def init_publisher_paths_def ensure_paths_def then_do_def)

lemma fake_call_operation: "[Read Clients] \<in> set operations"
  by (simp add: operations_def serve_paths_def fake_call_paths_def then_do_def unlocked_client_paths_def)

lemma disconnect_operation: "[Lock ManagerMu, Read Clients, Write Clients, Unlock ManagerMu] \<in> set operations"
  by (simp add: operations_def serve_paths_def disconnect_paths_def)

lemma online_operation: "[Read Overrides] \<in> set operations"
  by (simp add: operations_def event_paths_def start_online_paths_def)

lemma ready_operation: "[Read Ready] \<in> set operations"
  by (simp add: operations_def serve_paths_def ready_paths_def)

lemma receipt_operation: "p \<in> set deliver_paths \<Longrightarrow> p \<in> set operations"
  by (simp add: operations_def event_paths_def)

lemma connect_operation:
  "[Lock ManagerMu, Read Clients] @ [Read Overrides, Write Overrides] @ replicate 12 (Read Overrides) @
   [Write Clients, Unlock ManagerMu] \<in> set operations"
proof -
  have "[Lock ManagerMu, Read Clients] @ [Read Overrides, Write Overrides] @ replicate 12 (Read Overrides) @
   [Write Clients, Unlock ManagerMu] \<in> set connect_paths"
    unfolding connect_paths_def set_append
    by (intro UnI2 in_then_do) (simp_all add: load_overrides_paths_def log_config_paths_def)
  then show ?thesis by (simp add: operations_def)
qed

lemma send_operation:
  "[RLock ManagerMu, Read Clients, RUnlock ManagerMu] @ [Read PnCache, Write PnCache] @ [] \<in> set operations"
proof -
  have "[RLock ManagerMu, Read Clients, RUnlock ManagerMu] @ [Read PnCache, Write PnCache] @ [] \<in> set send_paths"
    unfolding send_paths_def
    by (rule in_maybe [THEN iffD2], rule disjI2, unfold set_append, intro UnI2 in_then_do)
      (simp_all add: find_client_paths_def destination_paths_def resolve_paths_def)
  then show ?thesis by (simp add: operations_def)
qed

lemma deliver_open:
  "[Read WebhookPub, Read WebhookPub] @
   [Lock PublisherMu, Read PublisherConn, Read PublisherConn, Read PublisherChannel, Unlock PublisherMu] @
   [Read WebhookPub, Read PublisherChannel, Read WebhookPub] \<in> set deliver_paths"
  and deliver_dial:
  "[Read WebhookPub, Read WebhookPub] @
   [Lock PublisherMu, Read PublisherConn, Read PublisherConn, Write PublisherConn, Write PublisherChannel,
    Unlock PublisherMu] @ [] \<in> set deliver_paths"
  unfolding deliver_paths_def set_append
  by (intro UnI2 in_then_do; simp add: ensure_paths_def then_do_def)+

definition reaches_race :: "shared \<Rightarrow> bool" where
  "reaches_race v \<longleftrightarrow> (\<exists>ps ts. adapter_system ps \<and> move\<^sup>*\<^sup>* (start ps) ts \<and> racing v ts)"

lemma guarded_never_race: "guard v = Some l \<Longrightarrow> \<not> reaches_race v"
  unfolding reaches_race_def by (blast dest: system_follows disciplined_never_race)

lemma held_code [simp]: "held (a # p) = fold after (a # p) (\<lambda>l. None)"
  by (simp add: held_def)

lemma race_between:
  assumes "p @ r \<in> set operations" "q @ s \<in> set operations" "held p = (\<lambda>l. None)"
    and "about_to v (p, r) = Some w" "about_to v (q, s) = Some w'" "w \<or> w'"
  shows "reaches_race v"
  unfolding reaches_race_def
  by (rule system_races [OF unconfigured_main, of "[p @ r, q @ s]" 1 2 p r v w q s w'])
    (use assms in simp_all)

lemma race_with_main:
  assumes "unconfigured_main = p @ Write v # r" "held p = (\<lambda>l. None)" "Read v # s \<in> set operations"
  shows "reaches_race v"
  unfolding reaches_race_def
  by (rule system_races [OF unconfigured_main, of "[Read v # s]" 0 1 p "Write v # r" v True "[]" "Read v # s" False])
    (use assms in simp_all)

lemma unguarded_races:
  "reaches_race Clients" "reaches_race Overrides" "reaches_race PnCache" "reaches_race WebhookPub"
  "reaches_race PublisherChannel" "reaches_race Ready"
proof -
  show "reaches_race Clients"
    by (rule race_between [of "[]" "[Read Clients]" "[Lock ManagerMu, Read Clients]"
          "[Write Clients, Unlock ManagerMu]" _ False True])
      (simp_all add: fake_call_operation disconnect_operation held_def)
  show "reaches_race Overrides"
    by (rule race_between [of "[]" "[Read Overrides]" "[Lock ManagerMu, Read Clients, Read Overrides]"
          "Write Overrides # replicate 12 (Read Overrides) @ [Write Clients, Unlock ManagerMu]" _ False True])
      (use connect_operation in \<open>simp_all add: online_operation held_def\<close>)
  show "reaches_race PnCache"
    by (rule race_between [of "[RLock ManagerMu, Read Clients, RUnlock ManagerMu, Read PnCache]"
          "[Write PnCache]" "[RLock ManagerMu, Read Clients, RUnlock ManagerMu]"
          "[Read PnCache, Write PnCache]" _ True False])
      (use send_operation in \<open>simp_all add: fun_eq_iff\<close>)
  show "reaches_race WebhookPub"
    by (rule race_with_main [of "[]" _ _ "[]"])
      (simp_all add: unconfigured_main_def held_def receipt_operation deliver_paths_def)
  show "reaches_race PublisherChannel"
    by (rule race_between [of "[Read WebhookPub, Read WebhookPub, Lock PublisherMu, Read PublisherConn,
            Read PublisherConn, Read PublisherChannel, Unlock PublisherMu, Read WebhookPub]"
          "[Read PublisherChannel, Read WebhookPub]"
          "[Read WebhookPub, Read WebhookPub, Lock PublisherMu, Read PublisherConn, Read PublisherConn,
            Write PublisherConn]"
          "[Write PublisherChannel, Unlock PublisherMu]" _ False True])
      (use deliver_open deliver_dial in \<open>auto simp: fun_eq_iff dest: receipt_operation\<close>)
  show "reaches_race Ready"
    by (rule race_with_main [of "[Write WebhookPub, Read WebhookPub, Lock PublisherMu, Unlock PublisherMu]" _ "[]" "[]"])
      (simp_all add: unconfigured_main_def fun_eq_iff ready_operation)
qed

text \<open>
  C5: two goroutines can come to access the same variable at once, one of them writing, exactly
  for the session registry, the overrides, the number cache, the publisher and its channel and
  the readiness flag; the three timed caches, the pairing codes, the cancel functions of the
  presence loops and the publisher's connection are always reached under their locks.
\<close>
theorem races_exactly:
  "(\<exists>ps ts. adapter_system ps \<and> move\<^sup>*\<^sup>* (start ps) ts \<and> racing v ts) \<longleftrightarrow>
     v \<in> {Clients, Overrides, PnCache, WebhookPub, PublisherChannel, Ready}"
  unfolding reaches_race_def [symmetric]
  by (cases v) (simp_all add: unguarded_races guarded_never_race)

section \<open>Every operation ends\<close>

lemma finishes:
  assumes "list_all (one_at_a_time (\<lambda>l. None)) ps" and "move\<^sup>*\<^sup>* (start ps) ts"
  shows "\<exists>ts'. move\<^sup>*\<^sup>* ts ts' \<and> finished ts'"
  using assms(2)
proof (induction "left ts" arbitrary: ts rule: less_induct)
  case less
  show ?case
  proof (cases "finished ts")
    case False
    with not_stuck [OF assms(1) less.prems] obtain ts' where step: "move ts ts'" by blast
    with less.prems have "move\<^sup>*\<^sup>* (start ps) ts'" by simp
    with less.hyps [of ts'] move_left [OF step] obtain u where "move\<^sup>*\<^sup>* ts' u" "finished u" by auto
    with step show ?thesis by (blast intro: converse_rtranclp_into_rtranclp)
  qed blast
qed

text \<open>
  C9: the locks never leave the adapter stuck: however its goroutines have been interleaved, the
  operations that have begun can all be run to their ends, and no schedule of a system makes more
  steps than its operations have.
\<close>
theorem operations_end:
  assumes "adapter_system ps" and "(move ^^ n) (start ps) ts"
  shows "n \<le> sum_list (map length ps) \<and> (\<exists>ts'. move\<^sup>*\<^sup>* ts ts' \<and> finished ts')"
proof
  show "n \<le> sum_list (map length ps)"
    using moves_bounded [OF assms(2)] by (simp add: left_def start_def comp_def)
  show "\<exists>ts'. move\<^sup>*\<^sup>* ts ts' \<and> finished ts'"
    using finishes [OF system_one] assms relpowp_imp_rtranclp by metis
qed

lemma operations_end_witness:
  "1 \<le> sum_list (map length [unconfigured_main, [Read Ready]]) \<and>
   (\<exists>ts'. move\<^sup>*\<^sup>* [([], unconfigured_main), ([Read Ready], [])] ts' \<and> finished ts')"
proof (rule operations_end)
  show "adapter_system [unconfigured_main, [Read Ready]]"
    by (simp add: adapter_system_def unconfigured_main ready_operation)
  show "(move ^^ 1) (start [unconfigured_main, [Read Ready]]) [([], unconfigured_main), ([Read Ready], [])]"
    using move_ith [of 1 "start [unconfigured_main, [Read Ready]]" "[]" "Read Ready" "[]"]
    by (simp add: start_def eq_OO)
qed

end
