(* ===== verification/Logger.thy ===== *)
theory Logger
  imports World
begin

text \<open>
  The logger (internal/log/logger.go): levels, the least level that \<open>LOG_LEVEL\<close> asks for, and the
  line each call writes, or none. The message is the text that \<open>fmt.Sprintf\<close> made of the
  arguments. The rest of the development leaves log output out.
\<close>

datatype level = LevelDebug | LevelInfo | LevelError

fun level_index :: "level \<Rightarrow> nat" where
  "level_index LevelDebug = 0"
| "level_index LevelInfo = 1"
| "level_index LevelError = 2"

text \<open>The order of the constants, which Go compares as integers.\<close>

instantiation level :: linorder
begin

definition less_eq_level :: "level \<Rightarrow> level \<Rightarrow> bool" where
  "less_eq_level a b = (level_index a \<le> level_index b)"

definition less_level :: "level \<Rightarrow> level \<Rightarrow> bool" where
  "less_level a b = (level_index a < level_index b)"

instance
proof
  show "a \<le> b \<Longrightarrow> b \<le> a \<Longrightarrow> a = b" for a b :: level
    by (cases a; cases b) (simp_all add: less_eq_level_def)
qed (auto simp: less_eq_level_def less_level_def)

end

definition min_level :: "env \<Rightarrow> level" where
  "min_level E =
     (let v = to_lower (trim_space (case env_lookup E ''LOG_LEVEL'' of Some t \<Rightarrow> t | None \<Rightarrow> [])) in
      if v = ''debug'' then LevelDebug else if v = ''info'' then LevelInfo else LevelError)"

record log_entry =
  le_session_id :: string
  le_message_id :: string

definition with_session :: "string \<Rightarrow> log_entry" where
  "with_session sid = \<lparr>le_session_id = sid, le_message_id = []\<rparr>"

definition with_message_id :: "string \<Rightarrow> log_entry \<Rightarrow> log_entry" where
  "with_message_id mid e = \<lparr>le_session_id = le_session_id e, le_message_id = mid\<rparr>"

definition entry_line :: "string \<Rightarrow> log_entry \<Rightarrow> string \<Rightarrow> string" where
  "entry_line label e msg =
     ''level='' @ label @ '' provider=whatsmeow session_id='' @ le_session_id e @
     '' message_id='' @ le_message_id e @ '' '' @ msg"

definition entry_info :: "level \<Rightarrow> log_entry \<Rightarrow> string \<Rightarrow> string option" where
  "entry_info least e msg = (if least > LevelInfo then None else Some (entry_line ''info'' e msg))"

definition entry_error :: "level \<Rightarrow> log_entry \<Rightarrow> string \<Rightarrow> string option" where
  "entry_error least e msg = Some (entry_line ''error'' e msg)"

definition entry_debug :: "level \<Rightarrow> log_entry \<Rightarrow> string \<Rightarrow> string option" where
  "entry_debug least e msg = (if least > LevelDebug then None else Some (entry_line ''debug'' e msg))"

definition plain_line :: "string \<Rightarrow> string \<Rightarrow> string" where
  "plain_line label msg = ''level='' @ label @ '' provider=whatsmeow '' @ msg"

definition debugf :: "level \<Rightarrow> string \<Rightarrow> string option" where
  "debugf least msg = (if least > LevelDebug then None else Some (plain_line ''debug'' msg))"

definition infof :: "level \<Rightarrow> string \<Rightarrow> string option" where
  "infof least msg = (if least > LevelInfo then None else Some (plain_line ''info'' msg))"

definition errorf :: "level \<Rightarrow> string \<Rightarrow> string option" where
  "errorf least msg = Some (plain_line ''error'' msg)"

text \<open>
  Raising the least level only ever takes lines away: a line that is written at the higher
  level is written, the same, at the lower one; and errors are written at every level.
\<close>

lemma levels_nested:
  assumes "low \<le> high"
  shows "list_all (\<lambda>f. f high = None \<or> f low = f high)
      [\<lambda>l. entry_debug l e msg, \<lambda>l. entry_info l e msg, \<lambda>l. entry_error l e msg,
       \<lambda>l. debugf l msg, \<lambda>l. infof l msg, \<lambda>l. errorf l msg] \<and>
    entry_error high e msg \<noteq> None \<and> errorf high msg \<noteq> None"
  using assms
  by (cases low; cases high)
    (simp_all add: entry_debug_def entry_info_def entry_error_def debugf_def infof_def errorf_def
      less_eq_level_def less_level_def)

end
