(* ===== verification/Session_Log.thy ===== *)
theory Session_Log
  imports Sessions Logger
begin

text \<open>
  The line that \<open>Connect\<close> logs about the settings of a session (\<open>logSessionConfig\<close> and \<open>source\<close> of
  internal/provider/client.go): each effective setting, and where it is said to come from.
\<close>

definition source_of :: "string \<Rightarrow> bool \<Rightarrow> string" where
  \<comment> \<open>\<open>source\<close>\<close>
  "source_of env_val has_override =
     (if trim_space env_val \<noteq> [] then ''env''
      else if has_override then ''redis''
      else ''default'')"

definition bool_text :: "bool \<Rightarrow> string" where
  "bool_text b = (if b then ''true'' else ''false'')"

definition env_value :: "env \<Rightarrow> string \<Rightarrow> string" where
  "env_value E name = (case env_lookup E name of Some t \<Rightarrow> t | None \<Rightarrow> [])"

definition session_config_text :: "env \<Rightarrow> string \<Rightarrow> sys \<Rightarrow> string" where
  "session_config_text E sid s =
     (let ov = (case m_overrides s sid of Some ov \<Rightarrow> ov | None \<Rightarrow> no_overrides);
          src = (\<lambda>name has. source_of (env_value E name) has) in
      ''session_config reject_calls='' @ bool_text (get_reject_calls sid s) @
      '' source_reject_calls='' @ src ''REJECT_CALLS'' (ov_reject_calls ov \<noteq> None) @
      '' reject_msg_set='' @ bool_text (trim_space (get_reject_msg sid s) \<noteq> []) @
      '' source_reject_msg='' @ src ''REJECT_CALLS_MESSAGE'' (ov_reject_msg ov \<noteq> None) @
      '' mark_read_on_message='' @ bool_text (get_auto_mark_read sid s) @
      '' source_mark_read='' @ src ''MARK_READ_ON_MESSAGE'' (ov_auto_mark_read ov \<noteq> None) @
      '' ignore_status_broadcast='' @ bool_text (get_ignore_status_broadcast sid s) @
      '' source_isb='' @ src ''IGNORE_STATUS_BROADCAST'' (ov_ignore_status_broadcast ov \<noteq> None) @
      '' ignore_newsletters='' @ bool_text (get_ignore_newsletters sid s) @
      '' source_inl='' @ src ''IGNORE_NEWSLETTERS'' (ov_ignore_newsletters ov \<noteq> None) @
      '' always_online='' @ bool_text (should_be_online sid s) @
      '' source_always_online='' @
        src ''ALWAYS_ONLINE'' (ov_always_online ov \<noteq> None \<or> ov_always_online_every ov \<noteq> None) @
      '' always_online_interval_s='' @ int_dec (online_every sid s sdiv nano))"

definition log_session_config :: "env \<Rightarrow> string \<Rightarrow> sys \<Rightarrow> string option" where
  "log_session_config E sid s = entry_info (min_level E) (with_session sid) (session_config_text E sid s)"

text \<open>
  The line tells the truth about a variable that is set and not blank: its setting has no
  override from the configuration that was just loaded, so the value is the one of the start.
\<close>

lemma source_env_is_set: "source_of (env_value E name) has = ''env'' \<Longrightarrow> is_set E name"
proof -
  have "trim_space [] = []" by code_simp
  then show "source_of (env_value E name) has = ''env'' \<Longrightarrow> ?thesis"
    by (auto simp: source_of_def env_value_def is_set_def split: if_splits option.splits)
qed

lemma source_env_no_override:
  assumes "source_of (env_value E ''REJECT_CALLS'') has = ''env''"
  shows "ov_reject_calls (override_with E cfg ov) = ov_reject_calls ov"
  using source_env_is_set [OF assms] by (simp add: override_with_def unless_set_def Let_def)

end
