(* ===== verification/Spec2Isabelle.thy ===== *)
theory Spec2Isabelle
  imports Lifecycle Sharing Session_Log
begin

text \<open>
  A verification library for the whatsmeow provider adapter, a Go service between a message broker
  and WhatsApp. This theory holds the properties of the process as a whole; the components are in
  the theories below. Paths are relative to the repository's internal/.

  The program. A consumer (amqp/) takes messages from a queue and gives each to a goroutine that
  sends it (provider/send.go) through the WhatsApp client of its session. Events of the clients
  (provider/events.go) become Cloud-API webhooks, which go out over the broker (broker/publisher.go)
  or, when that fails, over HTTP. An HTTP API (http/server.go) connects and disconnects sessions
  (provider/client.go), shows pairing codes (provider/qr.go) and starts ring-only calls
  (provider/fakecall.go). The settings come from the environment (config/config.go) and, per
  session, from Redis (provider/redis_config.go).

  Foundations. Prelude has the outcome of a Go call (a value, an error or a panic) and the fact
  collections. Go_Strings, Go_Text and Go_Float are the parts of Go's standard library that the code
  uses: bytes as characters, UTF-8 white space, decimal numerals, 64-bit floating point as rounding
  of rationals. Json is the values of type any with base64; Json_Parse is the syntax of
  encoding/json, and Decode its rules for structs. Messages has the WhatsApp messages, Requests the
  JSON structs of the queue. World has the state of the process (the record sys, one field per field
  of the client manager and per package variable, with the goroutines that are waiting to run, the
  presence refreshers and a log of effects) and the surroundings (the record env: WhatsApp, Redis,
  the broker, the file system, ffmpeg, the codecs). Every call to the outside takes a tick, and its
  answer is a function of the tick, so a property holds for every behaviour of the surroundings in
  time.

  Components, in the order of the calls. Caches: the three caches of provider/caches.go and the
  phone-number cache, with their contract (locale ttl_cache). Jids: JIDs, phone numbers, the
  Brazilian ninth digit. Settings: the effective settings (locale setting). Broker: the publisher
  and the delivery of webhooks, with the contract that the emitters rely on (locale webhook_sink).
  Cloud: the status webhooks. Resolver: which JID a number has. Audio and VCard: the conversions
  that Send and the events need. Send: one definition per branch of Send. Events: emitCloudMessage,
  the resolution of LIDs, call rejection, read receipts. Sessions: the life of a session, presence,
  pairing codes, saved sessions, calls and the event handler. Config, Consumer, Http and Logger: the
  parts of these names; Session_Log: the line that a connection logs about its settings.

  The process. Process: the start in cmd/whatsmeow-adapter/main.go, and the step relation whose
  steps are requests, deliveries, events and goroutines in any order. Frames: which effects an
  operation can have, and that it leaves the sessions alone and puts no LID into the LID cache
  (calm). Invariants: what makes a predicate on the sessions an invariant of the process (locale
  session_invariant, and session_steps for one that counts goroutines), and its instances: the
  precedence of the environment, the sessions and their refreshers, a refresher that is lost, the
  LID cache. Lifecycle: the goroutines of the consumer, the HTTP server and main around that state,
  from the end of the start to the return of main: a delivery needs a consumer that consumes, a
  request a listening server; the signal, the cancellation, the readiness flag, the shutdown. Locks
  and Sharing leave the values aside and go below the steps: Locks has threads that access shared
  variables and take locks, one access at a time, with a discipline that excludes data races and one
  that excludes deadlocks; Sharing has the accesses and lock operations of every function on every
  path through it, and the system that main and any number of other goroutines form.

  What is shown. Sending: at most one message per request, with its id and its content; the exact
  condition of a panic; what an unregistered number causes. Receiving: at most one well-formed
  webhook per event, for the right session, and for a text in a direct chat exactly one, written
  out; a round trip from what is sent to what is reported. Delivery: one transport, and a channel
  that is never replaced. Resolution: the existence check against what its comments document, and
  exactly where they part. Audio: no clipping, the shape of a waveform, the framing of the Opus
  stream. Queue: the delivered message is the one written, own webhooks are ignored, the session is
  the suffix of the routing key. Interface: the status of every answer is true of the state before
  and after, the pairing image is what the encoder made. Process (here): the precedence of the
  environment for six settings, and the period that it does not protect; the sessions and their
  refreshers in every reachable state; exactly what ends the process, from the start to the return
  of main. Lifecycle: the reply to a rejected call never goes to a LID; a consumer that stops is
  never started again, a readiness probe says nothing of it, a signal ends the process with its
  requests answered but maybe with the consumer still connected. Sharing: exactly which variables
  are raced on, and that the locks never block for ever.

  Bounds. The JSON parser recurses on fuel, twice the length of the text and two: every call that
  does not consume a byte is followed by one that does, and json_fuel_enough shows that more fuel
  changes nothing. The loops over attempts (the resolution of a LID) recurse on their count, all
  others on the data. Integers of fixed width are words (samples, timestamps of the Opus stream,
  lengths) or are wrapped where the code wraps them (durations in nanoseconds).

  Not modelled. How the router splits a path; the text of log lines, beyond level and label and the
  line on a session's settings; the answer to the POST of a webhook, which only goes to the log; the
  reuse of a slice's capacity when a JSON field occurs twice; timeouts as such (a call that times
  out is a call that answers with an error). In all theories but Locks and Sharing each operation is
  atomic: the order of operations is free, their interleaving is not. Sharing shows for which
  variables that is what the locks give; on the others (the maps of clients and overrides, the cache
  of numbers, the publisher and its channel, the flag) Go promises nothing about a race, and its
  runtime may end the process. Sharing has no order in which goroutines are started, beyond main
  being past the start of the saved sessions; the races it exhibits are between goroutines that do
  run at the same time. The libraries (whatsmeow, gorilla/mux, the codecs, phonenumbers, the QR
  encoder) are parameters; what is relied on is stated as a hypothesis where it is used, mostly
  jid_lib_ok, and numbers_apart for the texts of JIDs with a device. A new client is any identifier,
  also one that was given before, where whatsmeow gives a new pointer. The import of the SQLite
  driver has no code, and the unit tests are instances of the definitions.
\<close>

section \<open>Properties of the whole process\<close>

text \<open>
  C3: The environment wins for six settings, whatever the configurations in Redis say and whatever has
  happened: when REJECT_CALLS, REJECT_CALLS_MESSAGE, MARK_READ_ON_MESSAGE, IGNORE_STATUS_BROADCAST,
  IGNORE_NEWSLETTERS or ALWAYS_ONLINE is in the environment, every session has the value that it
  gave at the start. ALWAYS_ONLINE fixes the period of the presence as well: the one of the
  environment when it switches the presence on, none when it does not. Without it, the variable
  of the period does not prevail over Redis, as the next property shows.
\<close>

theorem environment_wins:
  assumes "reachable E cfg (snd (boot E)) (Alive s)"
  shows "(is_set E ''REJECT_CALLS'' \<longrightarrow> get_reject_calls sid s = cf_reject_calls (new_config E)) \<and>
    (is_set E ''REJECT_CALLS_MESSAGE'' \<longrightarrow> get_reject_msg sid s = cf_reject_calls_message (new_config E)) \<and>
    (is_set E ''MARK_READ_ON_MESSAGE'' \<longrightarrow>
       get_auto_mark_read sid s = cf_auto_mark_read_on_message (new_config E)) \<and>
    (is_set E ''IGNORE_STATUS_BROADCAST'' \<longrightarrow>
       get_ignore_status_broadcast sid s = cf_ignore_status_broadcast (new_config E)) \<and>
    (is_set E ''IGNORE_NEWSLETTERS'' \<longrightarrow>
       get_ignore_newsletters sid s = cf_ignore_newsletters (new_config E)) \<and>
    (is_set E ''ALWAYS_ONLINE'' \<longrightarrow> should_be_online sid s = cf_always_online (new_config E) \<and>
       online_every sid s = online_period (new_config E))"
proof -
  have "env_wins E (fixed_settings (snd (boot E))) s"
    using env_first.reached [OF assms boot_env_wins] by simp
  then show ?thesis
    unfolding env_wins_def boot_settings
    by (cases "m_overrides s sid")
      (auto simp: fixed_settings_def respects_env_def get_reject_calls_def get_reject_msg_def online_every_def
        get_auto_mark_read_def get_ignore_status_broadcast_def get_ignore_newsletters_def should_be_online_def)
qed

definition strict_env :: env where
  "strict_env = silent_env\<lparr>env_lookup := (\<lambda>k. if k = ''REJECT_CALLS'' then Some ''false'' else None)\<rparr>"

theorem environment_wins_witness:
  "\<not> get_reject_calls ''5511999990000'' (snd (boot strict_env))"
proof -
  have "is_set strict_env ''REJECT_CALLS''" "\<not> cf_reject_calls (new_config strict_env)"
    by (simp_all add: is_set_def strict_env_def new_config_def get_env_bool_def parse_bool_def)
  with environment_wins [where E = strict_env and sid = "''5511999990000''", OF reachable.Start]
  show ?thesis by simp
qed

lemma sint_word_of_int_64: "0 \<le> i \<Longrightarrow> i < 2 ^ 63 \<Longrightarrow> sint (word_of_int i :: 64 word) = i"
  by (simp add: sint_sbintrunc' signed_take_bit_int_eq_self)

text \<open>
  C33: A period in Redis overrides ALWAYS_ONLINE_INTERVAL_SECONDS although that variable is in the
  environment, as long as ALWAYS_ONLINE is not: after a session has been connected, its presence
  is refreshed at the period of Redis, whatever the value of the variable.
\<close>

theorem redis_period_beats_environment:
  assumes "env_lookup E ''ALWAYS_ONLINE_INTERVAL_SECONDS'' = Some v" and env: "\<not> is_set E ''ALWAYS_ONLINE''"
    and url: "trim_space (m_redis_url s) \<noteq> []" "env_redis_url_error E (m_redis_url s) = None"
    and redis: "\<And>t. env_redis_get E t (m_redis_url s) (''unoapi-config:'' @ digits_only sid) = Inr t'"
      "trim_space t' \<noteq> []" "unmarshal_map t' = Some m"
    and period: "uc_always_online_every_seconds (uno_config_of m) = Some n" "0 < n" "n * nano < 2 ^ 63"
    and conn: "digits_only sid \<noteq> []" "get_client sid s = None" "connect E sid s = (Ok c, s')"
  shows "online_every sid s' = n * nano"
proof -
  obtain s1 where s': "s' = start_client E sid c s1" and same: "m_redis_url s1 = m_redis_url s"
    using conn(3,2) by (cases rule: connect_cases) auto
  have "sint (word_of_int (n * nano) :: 64 word) = n * nano"
    using period(2,3) by (intro sint_word_of_int_64) (simp_all add: nano_def)
  then have secs: "seconds n = n * nano" "0 < seconds n" using period(2) by (simp_all add: seconds_def nano_def)
  have "trim_space (digits_only sid) = digits_only sid" by (simp add: trim_space_digits)
  then have "fetch_uno_config E (m_redis_url s) (digits_only sid) s1 =
      (Some (uno_config_of m), log_effect (ERedisGet (m_redis_url s) (''unoapi-config:'' @ digits_only sid)) s1)"
    using url redis conn(1) by (simp add: fetch_uno_config_def redis_get_def)
  then have "load_session_overrides E sid s1 = set_overrides sid (override_with E (uno_config_of m)
      (case m_overrides s1 sid of Some ov \<Rightarrow> ov | None \<Rightarrow> no_overrides))
      (log_effect (ERedisGet (m_redis_url s) (''unoapi-config:'' @ digits_only sid)) s1)"
    using url conn(1) by (simp add: load_session_overrides_def same log_effect_def)
  then show ?thesis
    using env secs period(1,2)
    by (simp add: s' start_client_eq Let_def online_every_def override_with_def unless_set_def)
qed

text \<open>Surroundings in which a session can be connected; Redis gives a period of five seconds.\<close>

definition uno_text :: string where
  "uno_text = ''{\"alwaysOnline\":true,\"alwaysOnlineIntervalSeconds\":\"5\"}''"

definition connecting_env :: env where
  "connecting_env = silent_env\<lparr>env_mkdir_all := (\<lambda>t p. None), env_open_store := (\<lambda>t p. None),
     env_first_device := (\<lambda>t p. Inr (Some empty_jid)), env_redis_get := (\<lambda>t u k. Inr uno_text),
     env_lookup := (\<lambda>k. if k = ''ALWAYS_ONLINE_INTERVAL_SECONDS'' then Some ''30'' else None)\<rparr>"

lemma connecting_connects:
  assumes "get_client sid s = None"
  shows "\<exists>c. fst (connect connecting_env sid s) = Ok c"
  using assms
  by (simp add: connect_def mkdir_all_def open_store_def first_device_def new_client_def connecting_env_def)

theorem redis_period_beats_environment_witness:
  "online_every ''5562'' (snd (connect connecting_env ''5562'' (idle_sys\<lparr>m_redis_url := ''redis://r''\<rparr>))) = 5 * nano"
proof -
  let ?s = "idle_sys\<lparr>m_redis_url := ''redis://r''\<rparr>"
  have none: "get_client ''5562'' ?s = None"
    by (simp add: get_client_def idle_sys_def new_client_manager_def)
  then obtain c where c: "connect connecting_env ''5562'' ?s = (Ok c, snd (connect connecting_env ''5562'' ?s))"
    using connecting_connects by (metis prod.collapse)
  obtain m where m: "unmarshal_map uno_text = Some m" "uc_always_online_every_seconds (uno_config_of m) = Some 5"
  proof -
    have "parse_json uno_text = Some (RObj [(''alwaysOnline'', RBool True), (''alwaysOnlineIntervalSeconds'', RStr ''5'')])"
      by code_simp
    moreover have "as_int (JStr ''5'') = Some 5" by code_simp
    ultimately show ?thesis
      using that by (simp add: unmarshal_map_def map_of_raw_def uno_config_of_def)
  qed
  have trims: "trim_space ''redis://r'' \<noteq> []" "trim_space uno_text \<noteq> []" "digits_only ''5562'' \<noteq> []" by code_simp+
  show ?thesis
    by (rule redis_period_beats_environment [where E = connecting_env and s = ?s and t' = uno_text and m = m
        and v = "''30''" and c = c])
      (use c m none trims in \<open>simp_all add: connecting_env_def silent_env_def is_set_def nano_def\<close>)
qed

text \<open>
  C2: In every reachable state each session has a client whose events are handled for that
  session, and at most one presence refresher that it can cancel, which is running or about to
  and belongs to no other session.
\<close>

theorem sessions_well_kept:
  assumes "reachable E cfg (snd (boot E)) (Alive s)"
  shows "sessions_ok s"
  using well_kept.reached [OF assms boot_sessions_ok] by simp

theorem sessions_well_kept_witness:
  "let s = snd (serve connecting_env True (PostConnect ''5562'') (snd (boot connecting_env))) in
   get_client ''5562'' s \<noteq> None \<and> sessions_ok s"
proof -
  let ?s = "snd (boot connecting_env)"
  let ?s' = "snd (serve connecting_env True (PostConnect ''5562'') ?s)"
  have none: "get_client ''5562'' ?s = None" by (simp add: get_client_def boot_state)
  then obtain c s2 where c: "connect connecting_env ''5562'' ?s = (Ok c, s2)"
    using connecting_connects by (metis prod.collapse)
  have "?s' = s2" by (simp add: handle_connect_def answer_def c)
  moreover have "get_client ''5562'' s2 \<noteq> None"
    using connect_clients [OF c] by auto
  moreover have "sessions_ok ?s'"
    by (rule sessions_well_kept [OF reachable.Step [OF reachable.Start step.Request]])
  ultimately show ?thesis by (simp only: Let_def not_False_eq_True simp_thms)
qed

text \<open>
  C17: Disconnecting a session loses its presence refresher: nothing that happens afterwards
  cancels it or ends it. It goes on refreshing for as long as the process lives.
\<close>

theorem disconnect_loses_refresher:
  assumes "sessions_ok s" "m_clients s sid = Some ent" "ce_presence_cancel ent = Some i"
    and "reachable E cfg (disconnect sid s) (Alive s')"
  shows "i < length (refreshers s') \<and> \<not> rf_cancelled (refreshers s' ! i) \<and>
    rf_phase (refreshers s' ! i) \<noteq> Ended"
proof -
  have own: "owns s sid i" using assms(2,3) by (simp add: owns_def)
  have d: "m_clients (disconnect sid s) = (m_clients s)(sid := None)"
    "refreshers (disconnect sid s) = refreshers s"
    using settled_eqD [OF status_set_settled] assms(2)
    by (auto simp: disconnect_def Let_def log_effect_def split: option.split)
  have "orphan i (disconnect sid s)"
    using sessions_okD(2,3) [OF assms(1) own] sessions_okD(4) [OF assms(1) own] d
    by (auto simp: orphan_def owns_def split: if_splits)
  then have "orphan i s'" using lost.reached [OF assms(4)] by simp
  then show ?thesis by (simp add: orphan_def)
qed

text \<open>A connected session with a running presence refresher, and one whose period is zero.\<close>

definition online_entry :: client_entry where
  "online_entry = \<lparr>ce_client = Some 7, ce_db = ''session.db'', ce_keys_db = None, ce_log = ''Client'', ce_session = ''5511'',
      ce_webhook = ''http://hook'',
     ce_presence_cancel = Some 0\<rparr>"

definition online_sys :: sys where
  "online_sys = idle_sys\<lparr>m_clients := [''5511'' \<mapsto> online_entry], handlers := [(7, ''5511'')],
     refreshers := [\<lparr>rf_client = 7, rf_interval = 60 * nano, rf_cancelled = False, rf_phase = Running\<rparr>]\<rparr>"

theorem disconnect_loses_refresher_witness:
  "\<not> rf_cancelled (refreshers (disconnect ''5511'' online_sys) ! 0)"
proof -
  have "sessions_ok online_sys"
    by (rule sessions_okI)
      (auto simp: online_sys_def owns_def entry_ok_def online_entry_def split: if_splits)
  then show ?thesis
    using disconnect_loses_refresher [where sid = "''5511''" and s = online_sys and i = 0 and ent = online_entry,
        OF _ _ _ reachable.Start]
    by (simp add: online_sys_def online_entry_def)
qed

text \<open>
  C1: What ends the process, as long as every operation is atomic: during the start, exactly a failure
  to initialise the exchange; afterwards, in one step, exactly a presence refresher that starts
  with a period that is not positive, a waiting message of a connected session that has mentions
  and no context and whose destination is resolved, or the return of main after the shutdown,
  with all requests answered. No request, delivery, event or other goroutine ends it. Overlapping
  accesses to what the code does not lock are apart: Go's runtime may end the process on them.
\<close>

theorem crashes_exactly:
  "(fst (boot E) = Exit_1) =
     (\<exists>e. fst (init_exchange E (new_config E) (snd (restore_saved_sessions E (status_init
        (\<lambda>u. env_redis_url_error E u = None) (cf_redis_url (new_config E)) (manager_of (new_config E)))))) = Err e) \<and>
   (alive (ap_main a) \<and> (\<exists>a'. advance E cfg a a' \<and> \<not> alive (ap_main a'))) =
     (alive (ap_main a) \<and>
       (list_ex (\<lambda>rf. rf_phase rf = NotStarted \<and> rf_interval rf \<le> 0) (refreshers (ap_sys a)) \<or>
        (\<exists>i m phone cli dest. i < length (goroutines (ap_sys a)) \<and> goroutines (ap_sys a) ! i = GSend m phone \<and>
           om_mentions m \<noteq> [] \<and> om_context m = None \<and> session_of (Some phone) m \<noteq> [] \<and>
           get_client (session_of (Some phone) m) (ap_sys a) = Some cli \<and>
           fst (destination E cli (session_of (Some phone) m) m (take_goroutine i (ap_sys a))) = Ok dest) \<or>
        ap_main a = Draining \<and> ap_requests a = []))"
  (is "?start \<and> ?left = ?right")
proof
  show ?start
    by (auto simp: boot_def Let_def init_exchange_no_panic split: prod.split outcome.split)
  have client: "get_client sid (take_goroutine i s) = get_client sid s" for sid i s
    by (simp add: get_client_def take_goroutine_def)
  have "alive (ap_main a) \<Longrightarrow> (\<exists>a'. advance E cfg a a' \<and> \<not> alive (ap_main a')) =
      ((\<exists>r. background E (Alive (ap_sys a)) (Crashed r)) \<or> ap_main a = Draining \<and> ap_requests a = [])"
    by (rule life_ends)
  then show "?left = ?right"
    unfolding crashing_background goroutine_panics send_panic_iff client list_ex_length by blast
qed

text \<open>
  C18: A configuration in Redis that switches always-online on and gives no period, for a manager
  that has always-online switched off, makes the next connection end the process: the refresher
  starts with the period zero.
\<close>

theorem online_without_period_crashes:
  assumes "m_overrides s sid = Some ov" "ov_always_online ov = Some True" "ov_always_online_every ov = None"
    and "m_always_online_every s = 0"
    and "m_clients s sid = Some ent" "ce_client ent = Some c" "(c, sid) \<in> set (handlers s)"
  shows "reachable E cfg s (Crashed ''non-positive interval for NewTicker'')"
proof -
  let ?s1 = "status_set sid ''online'' s"
  let ?s2 = "maybe_start_always_online sid c ?s1"
  have eq: "settled ?s1 = settled s" by (rule status_set_settled)
  have every: "m_always_online_every ?s1 = 0"
    using assms(4) by (simp add: status_set_def Let_def log_effect_def)
  have on: "should_be_online sid ?s1" "online_every sid ?s1 = 0"
    using assms(1-3) every by (simp_all add: should_be_online_def online_every_def settled_eqD [OF eq])
  obtain rs where "refreshers ?s2 = rs @ [\<lparr>rf_client = c, rf_interval = 0, rf_cancelled = False,
      rf_phase = NotStarted\<rparr>]"
    using on assms(5,6) by (auto simp: presence_defs Let_def settled_eqD [OF eq])
  then have crash: "step E cfg (Alive ?s2) (Crashed ''non-positive interval for NewTicker'')"
    by (intro step.Background background.Refresh_panic [of "length rs"]) (auto simp: refresher_begin_def)
  have "step E cfg (Alive s) (Alive (snd (handle_event E sid c EvConnected s)))"
    by (rule step.Background, rule background.Event) (rule assms(7))
  then have "step E cfg (Alive s) (Alive ?s2)" by simp
  from reachable.Step [OF reachable.Step [OF reachable.Start this] crash] show ?thesis .
qed

theorem online_without_period_crashes_witness:
  "reachable silent_env (new_config silent_env)
     (online_sys\<lparr>m_overrides := [''5511'' \<mapsto> no_overrides\<lparr>ov_always_online := Some True\<rparr>]\<rparr>)
     (Crashed ''non-positive interval for NewTicker'')"
  by (rule online_without_period_crashes
      [of _ "''5511''" "no_overrides\<lparr>ov_always_online := Some True\<rparr>" online_entry 7])
    (simp_all add: online_sys_def idle_sys_def new_client_manager_def no_overrides_def online_entry_def)

text \<open>
  C4: One message from the queue ends the process: when an envelope arrives whose message has
  mentions, no context object and a type, and its session is connected and its destination is
  resolved, the process can go on to its end, by the goroutine that the delivery starts.
\<close>

theorem poison_message:
  assumes phone: "phone = suffix_from_routing_key (cf_amqp_binding cfg) rk"
    and m'_def: "m' = (if i \<noteq> [] \<and> om_message_id m = [] then m\<lparr>om_message_id := i\<rparr> else m)"
    and body: "parse_json body = Some (raw_envelope i m)" and type: "om_type m \<noteq> []"
    and mention: "om_mentions m \<noteq> []" "om_context m = None"
    and session: "session_of (Some phone) m' \<noteq> []" "get_client (session_of (Some phone) m') s = Some cli"
    "fst (destination E cli (session_of (Some phone) m') m' s) = Ok dest"
  shows "\<exists>r. reachable E cfg s (Crashed r)"
proof -
  let ?s = "deliver cfg body rk s"
  have m': "om_mentions m' \<noteq> []" "om_context m' = None" using mention by (simp_all add: m'_def)
  have s: "?s = s\<lparr>goroutines := goroutines s @ [GSend m' phone]\<rparr>"
    using envelope_is_no_webhook [OF body] body type
    by (simp add: deliver_def decode_delivery_def read_envelope blank_message_def phone m'_def)
  have taken: "take_goroutine (length (goroutines s)) ?s = s" by (simp add: s take_goroutine_def)
  have "is_panic (fst (send E (Some phone) m' s))"
    using session m' by (auto simp: send_panic_iff)
  then obtain r s' where "run_goroutine E (GSend m' phone) s = (Panic r, s')"
    by (cases "send E (Some phone) m' s") (auto simp: run_send_def elim: is_panic.elims)
  then have "step E cfg (Alive ?s) (Crashed r)"
    using step.Background [OF background.Run_panic [of "length (goroutines s)" ?s E r s']] taken by (simp add: s)
  from reachable.Step [OF reachable.Step [OF reachable.Start step.Delivery] this] show ?thesis ..
qed

theorem poison_message_witness:
  "\<exists>r. reachable silent_env (new_config silent_env) connected_sys (Crashed r)"
proof (rule poison_message [OF refl refl mention_body_parsed])
  show "om_type mention_message \<noteq> []" "om_mentions mention_message \<noteq> []" "om_context mention_message = None"
    by (simp_all add: mention_message_def zero_message_def)
  let ?phone = "suffix_from_routing_key (cf_amqp_binding (new_config silent_env)) ''provider.whatsmeow.5562''"
  let ?m = "if ''M9'' \<noteq> [] \<and> om_message_id mention_message = []
    then mention_message\<lparr>om_message_id := ''M9''\<rparr> else mention_message"
  have sid: "session_of (Some ?phone) ?m = ''5562''"
    by code_simp
  show "session_of (Some ?phone) ?m \<noteq> []" unfolding sid by simp
  show "get_client (session_of (Some ?phone) ?m) connected_sys = Some 1"
    unfolding sid by (simp add: get_client_def connected_sys_def)
  show "fst (destination silent_env 1 (session_of (Some ?phone) ?m) ?m connected_sys) =
    Ok (new_jid plain_jids ''123'' default_user_server)"
    unfolding sid by code_simp
qed

end
